(* ===== verification/Prelude.thy ===== *)
theory Prelude
  imports Main "HOL-Library.Word" "HOL-Library.Code_Target_Numeral"
begin

text \<open>
  Shared vocabulary of the development. The C++ library signals every decode failure
  by \<^verbatim>\<open>throw std::invalid_argument(kind)\<close> and never catches it; the objects it
  works on (the value being filled, the \<^verbatim>\<open>JsonReader\<close>, the rapidjson writer) are
  reached through references, so whatever was written before the throw stays written.
  An \<open>outcome\<close> therefore carries the state in both cases: \<open>Ok s\<close> for a normal
  return and \<open>Thrown e s\<close> for an exception in flight, \<open>s\<close> being the state at
  the moment the exception left the operation. The prelude also names the machine
  types (C integer widths as words, \<^verbatim>\<open>double\<close> as its IEEE-754 bit pattern) and
  holds the word and list lemmas that several components share.
\<close>

unbundle bit_operations_syntax

section \<open>Exceptions and outcomes\<close>

datatype exn = InvalidArgument string

datatype 'a outcome = Ok 'a | Thrown exn 'a

fun exn_kind :: "exn \<Rightarrow> string" where
  "exn_kind (InvalidArgument k) = k"

fun is_ok :: "'a outcome \<Rightarrow> bool" where
  "is_ok (Ok _) = True"
| "is_ok (Thrown _ _) = False"

fun outcome_state :: "'a outcome \<Rightarrow> 'a" where
  "outcome_state (Ok s) = s"
| "outcome_state (Thrown _ s) = s"

text \<open>
  Statements after a call run only when it returned normally; an exception skips them
  and keeps the state the callee left.
\<close>

fun on_ok :: "('a \<Rightarrow> 'a) \<Rightarrow> 'a outcome \<Rightarrow> 'a outcome" where
  "on_ok f (Ok s) = Ok (f s)"
| "on_ok f (Thrown e s) = Thrown e s"

named_theorems outcome_simps "rewriting of outcome combinators"
named_theorems codec_defs "definitions unfolded when a traversal is evaluated"
named_theorems word_bounds "range of uint and sint against a constant"

section \<open>Machine types\<close>

type_synonym double = "64 word"

text \<open>
  A \<^verbatim>\<open>double\<close> is kept as its 64-bit pattern: exponent bits 52..62. It is finite
  unless all eleven exponent bits are set (infinities and NaNs).
\<close>

definition is_finite_double :: "double \<Rightarrow> bool" where
  "is_finite_double d \<longleftrightarrow> (drop_bit 52 d AND 0x7FF) \<noteq> 0x7FF"

definition nan_double :: double where
  "nan_double = 0x7FF8000000000000"

section \<open>Strings\<close>

text \<open>
  A C string ends at its first zero byte: \<open>std::string(const char*)\<close> keeps the
  bytes before it.
\<close>

definition c_str :: "string \<Rightarrow> string" where
  "c_str s = takeWhile (\<lambda>c. c \<noteq> CHR 0x00) s"

section \<open>Outcome lemmas\<close>

lemma map_outcome_eq_Ok [outcome_simps]:
  "map_outcome f x = Ok y \<longleftrightarrow> (\<exists>z. x = Ok z \<and> y = f z)"
  by (cases x) auto

lemma map_outcome_eq_Thrown [outcome_simps]:
  "map_outcome f x = Thrown e y \<longleftrightarrow> (\<exists>z. x = Thrown e z \<and> y = f z)"
  by (cases x) auto

lemma outcome_state_map [outcome_simps]:
  "outcome_state (map_outcome f x) = f (outcome_state x)"
  by (cases x) auto

lemma is_ok_map [outcome_simps]: "is_ok (map_outcome f x) = is_ok x"
  by (cases x) auto

lemma on_ok_eq_Ok [outcome_simps]: "on_ok f x = Ok y \<longleftrightarrow> (\<exists>z. x = Ok z \<and> y = f z)"
  by (cases x) auto

lemma on_ok_eq_Thrown [outcome_simps]: "on_ok f x = Thrown e y \<longleftrightarrow> x = Thrown e y"
  by (cases x) auto

lemma outcome_state_on_ok [outcome_simps]:
  "outcome_state (on_ok f x) = (if is_ok x then f (outcome_state x) else outcome_state x)"
  by (cases x) simp_all

lemma nan_not_finite: "\<not> is_finite_double nan_double"
  by (simp add: is_finite_double_def nan_double_def)

section \<open>Word conversions\<close>

text \<open>
  C integer conversions between widths are \<open>ucast\<close> (zero extension or truncation)
  and \<open>scast\<close> (sign extension); \<open>word_of_int\<close> reduces a mathematical integer
  modulo \<open>2 ^ width\<close>. A value widened and narrowed back is unchanged.
\<close>

lemma narrow_ucast [simp]:
  "LENGTH('a) \<le> LENGTH('b) \<Longrightarrow> (ucast (ucast (w :: 'a::len word) :: 'b::len word) :: 'a word) = w"
  by (simp add: is_up ucast_up_ucast)

lemma narrow_scast [simp]:
  "LENGTH('a) \<le> LENGTH('b) \<Longrightarrow> (ucast (scast (w :: 'a::len word) :: 'b::len word) :: 'a word) = w"
  by (simp add: down_cast_same is_down isdus scast_up_scast_id)

lemma narrow_word_of_int [simp]:
  "LENGTH('a) \<le> LENGTH('b) \<Longrightarrow> (ucast (word_of_int n :: 'b::len word) :: 'a::len word) = word_of_int n"
  by (simp add: is_down ucast_down_wi)

text \<open>Widening keeps the value: \<open>ucast\<close> the unsigned one, \<open>scast\<close> the signed one.\<close>

lemma uint_ucast_up [simp]:
  "LENGTH('a) \<le> LENGTH('b) \<Longrightarrow> uint (ucast (x::'a::len word) :: 'b::len word) = uint x"
  by (simp add: is_up uint_up_ucast)

lemma sint_scast_up [simp]:
  "LENGTH('a) \<le> LENGTH('b) \<Longrightarrow> sint (scast (x::'a::len word) :: 'b::len word) = sint x"
  by (simp add: is_up sint_up_scast)

lemma sint_ucast_up [simp]:
  "LENGTH('a) < LENGTH('b) \<Longrightarrow> sint (ucast (x::'a::len word) :: 'b::len word) = uint x"
proof -
  assume len: "LENGTH('a) < LENGTH('b)"
  then have u: "uint (ucast x :: 'b word) = uint x" by simp
  have "(2::int) ^ LENGTH('a) \<le> 2 ^ (LENGTH('b) - 1)" using len by (intro power_increasing) auto
  with uint_lt2p [of x] have "uint x < 2 ^ (LENGTH('b) - 1)" by linarith
  moreover have "(0::int) \<le> 2 ^ (LENGTH('b) - 1)" by simp
  with uint_ge_0 [of x] have "- (2 ^ (LENGTH('b) - 1)) \<le> uint x" by linarith
  ultimately show ?thesis by (simp add: sint_uint u signed_take_bit_int_eq_self)
qed

text \<open>Range facts in the form the simplifier meets them: against a numeral.\<close>

lemma uint_lt_bound [word_bounds]: "2 ^ LENGTH('a) \<le> c \<Longrightarrow> uint (x::'a::len word) < c"
  using uint_lt2p [of x] by linarith

lemma uint_ge_bound [word_bounds]: "c \<le> 0 \<Longrightarrow> c \<le> uint (x::'a::len word)"
  using uint_ge_0 [of x] by linarith

lemma sint_lt_bound [word_bounds]: "2 ^ (LENGTH('a) - 1) \<le> c \<Longrightarrow> sint (x::'a::len word) < c"
  using sint_lt [of x] by linarith

lemma sint_ge_bound [word_bounds]: "c \<le> - (2 ^ (LENGTH('a) - 1)) \<Longrightarrow> c \<le> sint (x::'a::len word)"
  using sint_ge [of x] by linarith

section \<open>C strings\<close>

lemma c_str_id [simp]: "CHR 0x00 \<notin> set s \<Longrightarrow> c_str s = s"
  by (auto simp: c_str_def takeWhile_eq_all_conv)

lemma c_str_nul_free: "CHR 0x00 \<notin> set (c_str s)"
  by (auto simp: c_str_def dest: set_takeWhileD)

lemma c_str_append: "CHR 0x00 \<notin> set p \<Longrightarrow> c_str (p @ s) = p @ c_str s"
  by (induction p) (auto simp: c_str_def)

end
