(* ===== verification/Value_Model.thy ===== *)
theory Value_Model
  imports Prelude
begin

text \<open>
  The in-memory side. The library dispatches at compile time on the declared C++ type of
  the value it visits: one \<^verbatim>\<open>reflect\<close> overload per primitive type
  (\<^verbatim>\<open>src/reflect.hpp\<close> lines 69-95), the \<^verbatim>\<open>std::vector<T>\<close> templates (lines 99-112)
  and the function that \<^verbatim>\<open>REFLECT_STRUCT\<close> generates for each declared structure
  (lines 159-169). A \<open>ty\<close> names such a declared type, with a structure's field list
  as the macro receives it; a \<open>val\<close> is an object of one of these types, integers at
  their C width. \<open>has_ty\<close> is the typing a C++ object has by construction;
  \<open>default_val\<close> is value-initialisation \<^verbatim>\<open>T()\<close>, which
  \<^verbatim>\<open>std::vector::emplace_back()\<close> performs for every new element.
\<close>

section \<open>Declared types and values\<close>

datatype ty =
    TBool
  | TUChar
  | TShort
  | TUShort
  | TInt
  | TUInt
  | TLong
  | TULong
  | TLongLong
  | TULongLong
  | TDouble
  | TString
  | TJsonNull
  | TVector ty
  | TStruct string "(string \<times> ty) list"

datatype val =
    VBool bool
  | VUChar "8 word"
  | VShort "16 word"
  | VUShort "16 word"
  | VInt "32 word"
  | VUInt "32 word"
  | VLong "64 word"
  | VULong "64 word"
  | VLongLong "64 word"
  | VULongLong "64 word"
  | VDouble double
  | VString string
  | VJsonNull
  | VVector "val list"
  | VStruct "val list"

text \<open>Field access on a value, as \<^verbatim>\<open>v.name\<close> and the vector's elements.\<close>

fun vector_elems :: "val \<Rightarrow> val list" where
  "vector_elems (VVector xs) = xs"
| "vector_elems _ = []"

fun struct_fields :: "val \<Rightarrow> val list" where
  "struct_fields (VStruct vs) = vs"
| "struct_fields _ = []"

section \<open>Typing\<close>

fun has_ty :: "val \<Rightarrow> ty \<Rightarrow> bool"
and all_have_ty :: "val list \<Rightarrow> ty \<Rightarrow> bool"
and fields_have_ty :: "val list \<Rightarrow> (string \<times> ty) list \<Rightarrow> bool" where
  "has_ty (VBool _) t = (t = TBool)"
| "has_ty (VUChar _) t = (t = TUChar)"
| "has_ty (VShort _) t = (t = TShort)"
| "has_ty (VUShort _) t = (t = TUShort)"
| "has_ty (VInt _) t = (t = TInt)"
| "has_ty (VUInt _) t = (t = TUInt)"
| "has_ty (VLong _) t = (t = TLong)"
| "has_ty (VULong _) t = (t = TULong)"
| "has_ty (VLongLong _) t = (t = TLongLong)"
| "has_ty (VULongLong _) t = (t = TULongLong)"
| "has_ty (VDouble _) t = (t = TDouble)"
| "has_ty (VString _) t = (t = TString)"
| "has_ty VJsonNull t = (t = TJsonNull)"
| "has_ty (VVector xs) t = (case t of TVector u \<Rightarrow> all_have_ty xs u | _ \<Rightarrow> False)"
| "has_ty (VStruct vs) t = (case t of TStruct _ fs \<Rightarrow> fields_have_ty vs fs | _ \<Rightarrow> False)"
| "all_have_ty [] u = True"
| "all_have_ty (x # xs) u = (has_ty x u \<and> all_have_ty xs u)"
| "fields_have_ty [] fs = (fs = [])"
| "fields_have_ty (v # vs) fs =
     (case fs of [] \<Rightarrow> False | f # fs' \<Rightarrow> has_ty v (snd f) \<and> fields_have_ty vs fs')"

text \<open>
  A well-formed declaration names each field once, as the members of a C++ structure
  are distinct.
\<close>

fun wf_ty :: "ty \<Rightarrow> bool" where
  "wf_ty (TVector t) = wf_ty t"
| "wf_ty (TStruct _ fs) = (distinct (map fst fs) \<and> list_all (\<lambda>f. wf_ty (snd f)) fs)"
| "wf_ty _ = True"

text \<open>Value-initialisation \<^verbatim>\<open>T()\<close>: zero, false, empty, member by member.\<close>

fun default_val :: "ty \<Rightarrow> val" where
  "default_val TBool = VBool False"
| "default_val TUChar = VUChar 0"
| "default_val TShort = VShort 0"
| "default_val TUShort = VUShort 0"
| "default_val TInt = VInt 0"
| "default_val TUInt = VUInt 0"
| "default_val TLong = VLong 0"
| "default_val TULong = VULong 0"
| "default_val TLongLong = VLongLong 0"
| "default_val TULongLong = VULongLong 0"
| "default_val TDouble = VDouble 0"
| "default_val TString = VString []"
| "default_val TJsonNull = VJsonNull"
| "default_val (TVector _) = VVector []"
| "default_val (TStruct _ fs) = VStruct (map (\<lambda>f. default_val (snd f)) fs)"

section \<open>Values the document format can carry\<close>

text \<open>
  Two properties of a value decide whether its text survives the round trip: no text
  field holds a zero byte, and every \<^verbatim>\<open>double\<close> is finite.
\<close>

fun nul_free :: "val \<Rightarrow> bool" where
  "nul_free (VString s) = (CHR 0x00 \<notin> set s)"
| "nul_free (VVector xs) = list_all nul_free xs"
| "nul_free (VStruct vs) = list_all nul_free vs"
| "nul_free _ = True"

fun finite_doubles :: "val \<Rightarrow> bool" where
  "finite_doubles (VDouble d) = is_finite_double d"
| "finite_doubles (VVector xs) = list_all finite_doubles xs"
| "finite_doubles (VStruct vs) = list_all finite_doubles vs"
| "finite_doubles _ = True"

text \<open>
  Every \<^verbatim>\<open>double\<close> of a value satisfies \<open>P\<close>: the text round trip asks this of
  the contract between the digits rapidjson prints and reads, which are not modelled.
\<close>

fun all_doubles :: "(double \<Rightarrow> bool) \<Rightarrow> val \<Rightarrow> bool" where
  "all_doubles P (VDouble d) = P d"
| "all_doubles P (VVector xs) = list_all (all_doubles P) xs"
| "all_doubles P (VStruct vs) = list_all (all_doubles P) vs"
| "all_doubles P _ = True"

section \<open>Typing lemmas\<close>

lemma default_val_has_ty [simp]: "has_ty (default_val t) t"
proof (induction t)
  case (TStruct n fs)
  have "fields_have_ty (map (\<lambda>f. default_val (snd f)) gs) gs" if "set gs \<subseteq> set fs" for gs
    using that TStruct.IH by (induction gs) (auto intro: snds.intros)
  then show ?case by simp
qed simp_all

lemma fields_have_ty_length: "fields_have_ty vs fs \<Longrightarrow> length vs = length fs"
  by (induction vs arbitrary: fs) (auto split: list.splits)

lemma fields_have_ty_iff: "fields_have_ty vs fs \<longleftrightarrow> list_all2 (\<lambda>v f. has_ty v (snd f)) vs fs"
  by (induction vs arbitrary: fs) (auto split: list.splits simp: list_all2_Cons1)

lemma all_have_ty_iff: "all_have_ty xs u \<longleftrightarrow> list_all (\<lambda>x. has_ty x u) xs"
  by (induction xs) auto

lemma all_doubles_finite: "all_doubles P v \<Longrightarrow> (\<And>d. P d \<Longrightarrow> is_finite_double d) \<Longrightarrow> finite_doubles v"
  by (induction P v rule: all_doubles.induct) (auto simp: list_all_iff)

end
