(* ===== verification/Visitor.thy ===== *)
theory Visitor
  imports Value_Model
begin

text \<open>
  The generic traversal. In the C++ source a visitor kind \<^verbatim>\<open>Vis\<close> is a type for which
  the overloads \<^verbatim>\<open>reflect(Vis&, T&)\<close> (primitives and vectors),
  \<^verbatim>\<open>reflectMemberStart(Vis&)\<close>, \<^verbatim>\<open>reflectMember(Vis&, name, T&)\<close> and
  \<^verbatim>\<open>reflectMemberEnd(Vis&)\<close> exist; overload resolution picks them at compile time.
  Here a visitor is a record of these operations over its own state type \<open>'s\<close>, so
  that \<^verbatim>\<open>JsonReader\<close> and \<^verbatim>\<open>JsonWriter\<close> are two values of one interface
  (theories \<open>Reader\<close> and \<open>Writer\<close>). Operations that take a callback receive the
  traversal of the field or element, \<open>reflect vis t\<close>, as the C++ lambdas
  \<^verbatim>\<open>[&]() { reflect(vis, v); }\<close> do. Every operation returns an \<open>outcome\<close>: the
  value and visitor state after it, and whether an exception is in flight.

  \<open>reflect\<close> is the dispatch on the declared type together with the body that
  \<^verbatim>\<open>REFLECT_STRUCT(type, (f1)(f2)...)\<close> expands to: member start, one member call per
  declared field in declared order, member end. An exception stops the sequence at once
  and leaves the fields already visited as they were written.
\<close>

record 's visitor =
  vis_prim :: "ty \<Rightarrow> val \<Rightarrow> 's \<Rightarrow> (val \<times> 's) outcome"
  vis_vector :: "ty \<Rightarrow> (val \<Rightarrow> 's \<Rightarrow> (val \<times> 's) outcome) \<Rightarrow> val list \<Rightarrow> 's \<Rightarrow> (val list \<times> 's) outcome"
  vis_member_start :: "'s \<Rightarrow> 's outcome"
  vis_member :: "string \<Rightarrow> (val \<Rightarrow> 's \<Rightarrow> (val \<times> 's) outcome) \<Rightarrow> val \<Rightarrow> 's \<Rightarrow> (val \<times> 's) outcome"
  vis_member_end :: "'s \<Rightarrow> 's outcome"

fun reflect :: "'s visitor \<Rightarrow> ty \<Rightarrow> val \<Rightarrow> 's \<Rightarrow> (val \<times> 's) outcome"
and reflect_members ::
  "'s visitor \<Rightarrow> (string \<times> ty) list \<Rightarrow> val list \<Rightarrow> 's \<Rightarrow> (val list \<times> 's) outcome" where
  "reflect vis (TVector t) v s =
     map_outcome (\<lambda>(xs, s'). (VVector xs, s'))
       (vis_vector vis t (reflect vis t) (vector_elems v) s)"
| "reflect vis (TStruct n fs) v s =
     (case vis_member_start vis s of
        Thrown e s1 \<Rightarrow> Thrown e (v, s1)
      | Ok s1 \<Rightarrow>
          (case reflect_members vis fs (struct_fields v) s1 of
             Thrown e (vs, s2) \<Rightarrow> Thrown e (VStruct vs, s2)
           | Ok (vs, s2) \<Rightarrow> map_outcome (\<lambda>s3. (VStruct vs, s3)) (vis_member_end vis s2)))"
| "reflect vis t v s = vis_prim vis t v s"
| "reflect_members vis [] vs s = Ok (vs, s)"
| "reflect_members vis (f # fs) [] s = Ok ([], s)"
| "reflect_members vis ((name, t) # fs) (v # vs) s =
     (case vis_member vis name (reflect vis t) v s of
        Thrown e (v', s') \<Rightarrow> Thrown e (v' # vs, s')
      | Ok (v', s') \<Rightarrow>
          map_outcome (\<lambda>(vs', s''). (v' # vs', s'')) (reflect_members vis fs vs s'))"

end
