(* ===== verification/Document.thy ===== *)
theory Document
  imports Prelude
begin

text \<open>
  The document collaborator: rapidjson. It is not part of the repository, so this theory
  models it from the interface the library uses (spec section 6). A parsed node
  (\<^verbatim>\<open>rapidjson::Value\<close>) is a \<open>jnode\<close>; its type queries (\<^verbatim>\<open>IsInt\<close>,
  \<^verbatim>\<open>IsUint64\<close>, ...) are computed from the stored number as rapidjson's parser sets
  its flags; its getters return the C type of the accessor. The output side
  (\<^verbatim>\<open>rapidjson::Writer\<close>) is the list of handler calls it receives, one \<open>event\<close>
  per call. \<open>writes es j\<close> says which handler-call sequences stand for which document:
  a scalar call for its node, and bracketed element or keyed member sequences for arrays
  and objects. \<open>Text_Roundtrip.render_writes\<close> shows that the writer of
  \<open>Text_Writer\<close> prints every such sequence as the compact JSON text of \<open>j\<close>.
\<close>

section \<open>Document nodes\<close>

datatype jnode =
    JNull
  | JBool bool
  | JNumber int
  | JDouble double
  | JString string
  | JArray "jnode list"
  | JObject "(string \<times> jnode) list"

fun IsNull :: "jnode \<Rightarrow> bool" where
  "IsNull JNull = True" | "IsNull _ = False"

fun IsBool :: "jnode \<Rightarrow> bool" where
  "IsBool (JBool _) = True" | "IsBool _ = False"

text \<open>Integer literals carry every flag whose C range holds the value.\<close>

fun IsInt :: "jnode \<Rightarrow> bool" where
  "IsInt (JNumber n) = (- (2 ^ 31) \<le> n \<and> n < 2 ^ 31)" | "IsInt _ = False"

fun IsInt64 :: "jnode \<Rightarrow> bool" where
  "IsInt64 (JNumber n) = (- (2 ^ 63) \<le> n \<and> n < 2 ^ 63)" | "IsInt64 _ = False"

fun IsUint64 :: "jnode \<Rightarrow> bool" where
  "IsUint64 (JNumber n) = (0 \<le> n \<and> n < 2 ^ 64)" | "IsUint64 _ = False"

text \<open>\<^verbatim>\<open>IsDouble\<close> holds only for literals with a fraction or an exponent.\<close>

fun IsDouble :: "jnode \<Rightarrow> bool" where
  "IsDouble (JDouble _) = True" | "IsDouble _ = False"

fun IsString :: "jnode \<Rightarrow> bool" where
  "IsString (JString _) = True" | "IsString _ = False"

fun IsArray :: "jnode \<Rightarrow> bool" where
  "IsArray (JArray _) = True" | "IsArray _ = False"

fun IsObject :: "jnode \<Rightarrow> bool" where
  "IsObject (JObject _) = True" | "IsObject _ = False"

text \<open>
  Getters return the accessor's C type. They are called only after the matching query
  succeeded; elsewhere rapidjson asserts, and the model returns a default.
\<close>

fun GetBool :: "jnode \<Rightarrow> bool" where
  "GetBool (JBool b) = b" | "GetBool _ = False"

fun GetInt :: "jnode \<Rightarrow> 32 word" where
  "GetInt (JNumber n) = word_of_int n" | "GetInt _ = 0"

fun GetInt64 :: "jnode \<Rightarrow> 64 word" where
  "GetInt64 (JNumber n) = word_of_int n" | "GetInt64 _ = 0"

fun GetUint64 :: "jnode \<Rightarrow> 64 word" where
  "GetUint64 (JNumber n) = word_of_int n" | "GetUint64 _ = 0"

fun GetDouble :: "jnode \<Rightarrow> double" where
  "GetDouble (JDouble d) = d" | "GetDouble _ = 0"

text \<open>\<^verbatim>\<open>GetString\<close> returns the stored bytes with their length.\<close>

fun GetString :: "jnode \<Rightarrow> string" where
  "GetString (JString s) = s" | "GetString _ = []"

fun GetArray :: "jnode \<Rightarrow> jnode list" where
  "GetArray (JArray es) = es" | "GetArray _ = []"

text \<open>
  \<^verbatim>\<open>FindMember\<close> scans the members in document order and stops at the first equal
  name, so of duplicated names the first one wins. On a node that is not an object
  rapidjson asserts; the library calls it only after \<^verbatim>\<open>IsObject\<close> succeeded.
\<close>

fun FindMember :: "string \<Rightarrow> jnode \<Rightarrow> jnode option" where
  "FindMember name (JObject kvs) = map_of kvs name"
| "FindMember name _ = None"

section \<open>Writer events\<close>

text \<open>One constructor per \<^verbatim>\<open>rapidjson::Writer\<close> handler the library calls.\<close>

datatype event =
    EStartObject
  | EEndObject
  | EStartArray
  | EEndArray
  | EKey string
  | ENull
  | EBool bool
  | EInt "32 word"
  | EInt64 "64 word"
  | EUint64 "64 word"
  | EDouble double
  | EString string

text \<open>
  The node whose text a scalar handler call prints. A non-finite double has none:
  rapidjson's \<^verbatim>\<open>Double\<close> (without \<^verbatim>\<open>kWriteNanAndInfFlag\<close>) writes the
  separator and then nothing, and returns false (\<open>Text_Writer.put_event\<close>); so no
  sequence holding such a call is in \<open>writes\<close>.
\<close>

fun scalar_node :: "event \<Rightarrow> jnode option" where
  "scalar_node ENull = Some JNull"
| "scalar_node (EBool b) = Some (JBool b)"
| "scalar_node (EInt w) = Some (JNumber (sint w))"
| "scalar_node (EInt64 w) = Some (JNumber (sint w))"
| "scalar_node (EUint64 w) = Some (JNumber (uint w))"
| "scalar_node (EDouble d) = (if is_finite_double d then Some (JDouble d) else None)"
| "scalar_node (EString s) = Some (JString s)"
| "scalar_node _ = None"

text \<open>
  Which handler-call sequences stand for which documents: a scalar call, or a
  bracketed sequence of element sequences, or of member sequences each led by its key.
\<close>

definition key_events :: "string list \<Rightarrow> event list list \<Rightarrow> event list" where
  "key_events ks ess = concat (map2 (\<lambda>k es. EKey k # es) ks ess)"

inductive writes :: "event list \<Rightarrow> jnode \<Rightarrow> bool" where
  scalar: "scalar_node e = Some j \<Longrightarrow> writes [e] j"
| array: "list_all2 writes ess js \<Longrightarrow>
     writes (EStartArray # concat ess @ [EEndArray]) (JArray js)"
| object: "list_all2 writes ess (map snd kvs) \<Longrightarrow>
     writes (EStartObject # key_events (map fst kvs) ess @ [EEndObject]) (JObject kvs)"

end
