(* ===== verification/Reader.thy ===== *)
theory Reader
  imports Visitor Document
begin

text \<open>
  The decoding visitor, \<^verbatim>\<open>struct JsonReader\<close> of \<^verbatim>\<open>src/reflect.hpp\<close>. Its state is
  the record \<open>json_reader\<close>: the node being visited (the pointer \<^verbatim>\<open>m\<close>, here the
  node itself, since the document is never modified) and the diagnostic path
  \<^verbatim>\<open>path_\<close> (field \<open>path\<close>), a stack of names. \<open>iterArray\<close> and \<open>member\<close> translate the two
  methods of that name (lines 136-157): both push a path segment, rebind \<open>m\<close> to a
  child around the callback, restore it and pop the segment. As in the source the
  restoring statements follow the call and are skipped when it throws, so an
  exception leaves \<open>m\<close> at the failing node and the path with the segments of every
  enclosing call. \<open>reflect_prim_R\<close> is the overload set of lines 69-80 and 94,
  \<open>reflect_vector_R\<close> the vector template of lines 100-106, and \<open>reader_vis\<close>
  puts them together with \<^verbatim>\<open>reflectMemberStart\<close>, \<^verbatim>\<open>reflectMember\<close> and the no-op
  \<^verbatim>\<open>reflectMemberEnd\<close> into the visitor that \<^verbatim>\<open>reflect(JsonReader&, T&)\<close> runs.
\<close>

section \<open>Reader state and methods\<close>

record json_reader =
  m :: jnode
  path :: "string list"

definition getString :: "json_reader \<Rightarrow> string" where
  "getString vis = c_str (GetString (m vis))"

definition isNull :: "json_reader \<Rightarrow> bool" where
  "isNull vis = IsNull (m vis)"

text \<open>The loop body of \<^verbatim>\<open>iterArray\<close>: save, rebind to the entry, call, restore.\<close>

fun iter_entries ::
  "('c \<Rightarrow> json_reader \<Rightarrow> ('c \<times> json_reader) outcome) \<Rightarrow> jnode list \<Rightarrow> 'c \<Rightarrow> json_reader
   \<Rightarrow> ('c \<times> json_reader) outcome" where
  "iter_entries fn [] c vis = Ok (c, vis)"
| "iter_entries fn (entry # es) c vis =
     (let saved = m vis in
      case fn c (vis\<lparr>m := entry\<rparr>) of
        Thrown e st \<Rightarrow> Thrown e st
      | Ok (c', vis') \<Rightarrow> iter_entries fn es c' (vis'\<lparr>m := saved\<rparr>))"

definition iterArray ::
  "('c \<Rightarrow> json_reader \<Rightarrow> ('c \<times> json_reader) outcome) \<Rightarrow> 'c \<Rightarrow> json_reader
   \<Rightarrow> ('c \<times> json_reader) outcome" where
  "iterArray fn c vis =
     (if \<not> IsArray (m vis) then Thrown (InvalidArgument ''array'') (c, vis)
      else
        (let vis1 = vis\<lparr>path := path vis @ [''0'']\<rparr> in
         on_ok (\<lambda>(c', vis'). (c', vis'\<lparr>path := butlast (path vis')\<rparr>))
           (iter_entries fn (GetArray (m vis1)) c vis1)))"

definition member ::
  "string \<Rightarrow> ('c \<Rightarrow> json_reader \<Rightarrow> ('c \<times> json_reader) outcome) \<Rightarrow> 'c \<Rightarrow> json_reader
   \<Rightarrow> ('c \<times> json_reader) outcome" where
  "member name fn c vis =
     (let vis1 = vis\<lparr>path := path vis @ [name]\<rparr> in
      on_ok (\<lambda>(c', vis'). (c', vis'\<lparr>path := butlast (path vis')\<rparr>))
        (case FindMember name (m vis1) of
           None \<Rightarrow> Ok (c, vis1)
         | Some child \<Rightarrow>
             (let saved = m vis1 in
              on_ok (\<lambda>(c', vis'). (c', vis'\<lparr>m := saved\<rparr>)) (fn c (vis1\<lparr>m := child\<rparr>)))))"

section \<open>The reader overloads\<close>

text \<open>
  Each primitive overload checks the node's kind, throws the type's name if it does not
  match, and otherwise assigns the converted value. Narrowing casts truncate:
  \<^verbatim>\<open>(uint8_t)\<close>, \<^verbatim>\<open>(short)\<close>, \<^verbatim>\<open>(unsigned short)\<close> of an \<^verbatim>\<open>int\<close> and
  \<^verbatim>\<open>(unsigned)\<close> of a \<^verbatim>\<open>uint64_t\<close> keep the low bits (\<open>ucast\<close>).
  \<^verbatim>\<open>JsonNull\<close> accepts any node and writes nothing.
\<close>

fun reflect_prim_R :: "ty \<Rightarrow> val \<Rightarrow> json_reader \<Rightarrow> (val \<times> json_reader) outcome" where
  "reflect_prim_R TBool v vis =
     (if \<not> IsBool (m vis) then Thrown (InvalidArgument ''bool'') (v, vis)
      else Ok (VBool (GetBool (m vis)), vis))"
| "reflect_prim_R TUChar v vis =
     (if \<not> IsInt (m vis) then Thrown (InvalidArgument ''uint8_t'') (v, vis)
      else Ok (VUChar (ucast (GetInt (m vis))), vis))"
| "reflect_prim_R TShort v vis =
     (if \<not> IsInt (m vis) then Thrown (InvalidArgument ''short'') (v, vis)
      else Ok (VShort (ucast (GetInt (m vis))), vis))"
| "reflect_prim_R TUShort v vis =
     (if \<not> IsInt (m vis) then Thrown (InvalidArgument ''unsigned short'') (v, vis)
      else Ok (VUShort (ucast (GetInt (m vis))), vis))"
| "reflect_prim_R TInt v vis =
     (if \<not> IsInt (m vis) then Thrown (InvalidArgument ''int'') (v, vis)
      else Ok (VInt (GetInt (m vis)), vis))"
| "reflect_prim_R TUInt v vis =
     (if \<not> IsUint64 (m vis) then Thrown (InvalidArgument ''unsigned'') (v, vis)
      else Ok (VUInt (ucast (GetUint64 (m vis))), vis))"
| "reflect_prim_R TLong v vis =
     (if \<not> IsInt64 (m vis) then Thrown (InvalidArgument ''long'') (v, vis)
      else Ok (VLong (GetInt64 (m vis)), vis))"
| "reflect_prim_R TULong v vis =
     (if \<not> IsUint64 (m vis) then Thrown (InvalidArgument ''unsigned long'') (v, vis)
      else Ok (VULong (GetUint64 (m vis)), vis))"
| "reflect_prim_R TLongLong v vis =
     (if \<not> IsInt64 (m vis) then Thrown (InvalidArgument ''long long'') (v, vis)
      else Ok (VLongLong (GetInt64 (m vis)), vis))"
| "reflect_prim_R TULongLong v vis =
     (if \<not> IsUint64 (m vis) then Thrown (InvalidArgument ''unsigned long long'') (v, vis)
      else Ok (VULongLong (GetUint64 (m vis)), vis))"
| "reflect_prim_R TDouble v vis =
     (if \<not> IsDouble (m vis) then Thrown (InvalidArgument ''double'') (v, vis)
      else Ok (VDouble (GetDouble (m vis)), vis))"
| "reflect_prim_R TString v vis =
     (if \<not> IsString (m vis) then Thrown (InvalidArgument ''string'') (v, vis)
      else Ok (VString (getString vis), vis))"
| "reflect_prim_R TJsonNull v vis = Ok (v, vis)"
| "reflect_prim_R _ v vis = Ok (v, vis)"

text \<open>
  The vector overload: for every entry, \<^verbatim>\<open>v.emplace_back()\<close> appends a
  value-initialised element and \<^verbatim>\<open>reflect(vis, v.back())\<close> fills it in place. The
  vector is not cleared first.
\<close>

definition reflect_vector_R ::
  "ty \<Rightarrow> (val \<Rightarrow> json_reader \<Rightarrow> (val \<times> json_reader) outcome) \<Rightarrow> val list \<Rightarrow> json_reader
   \<Rightarrow> (val list \<times> json_reader) outcome" where
  "reflect_vector_R t f xs vis =
     iterArray (\<lambda>ys vis'. map_outcome (\<lambda>(y, vis''). (ys @ [y], vis'')) (f (default_val t) vis'))
       xs vis"

definition reflectMemberStart_R :: "json_reader \<Rightarrow> json_reader outcome" where
  "reflectMemberStart_R vis =
     (if \<not> IsObject (m vis) then Thrown (InvalidArgument ''object'') vis else Ok vis)"

definition reflectMember_R ::
  "string \<Rightarrow> (val \<Rightarrow> json_reader \<Rightarrow> (val \<times> json_reader) outcome) \<Rightarrow> val \<Rightarrow> json_reader
   \<Rightarrow> (val \<times> json_reader) outcome" where
  "reflectMember_R name f v vis = member name f v vis"

definition reflectMemberEnd_R :: "json_reader \<Rightarrow> json_reader outcome" where
  "reflectMemberEnd_R vis = Ok vis"

definition reader_vis :: "json_reader visitor" where
  "reader_vis =
     \<lparr>vis_prim = reflect_prim_R,
      vis_vector = reflect_vector_R,
      vis_member_start = reflectMemberStart_R,
      vis_member = reflectMember_R,
      vis_member_end = reflectMemberEnd_R\<rparr>"

text \<open>\<^verbatim>\<open>reflect(json_reader, v)\<close> at a declared type.\<close>

abbreviation decode :: "ty \<Rightarrow> val \<Rightarrow> json_reader \<Rightarrow> (val \<times> json_reader) outcome" where
  "decode \<equiv> reflect reader_vis"

section \<open>Reader discipline\<close>

text \<open>
  The names the reader throws: one per primitive overload, and the shape checks of
  \<^verbatim>\<open>iterArray\<close> and \<^verbatim>\<open>reflectMemberStart\<close>.
\<close>

definition reader_kinds :: "string list" where
  "reader_kinds = [''bool'', ''uint8_t'', ''short'', ''unsigned short'', ''int'', ''unsigned'',
     ''long'', ''unsigned long'', ''long long'', ''unsigned long long'', ''double'', ''string'',
     ''array'', ''object'']"

text \<open>
  What one reader operation keeps of its starting state: on a normal return the state
  is the starting state (node and path restored); on an exception the error is one of
  \<open>reader_kinds\<close> and the path is the starting path with segments pushed on top.
\<close>

definition disciplined :: "json_reader \<Rightarrow> ('c \<times> json_reader) outcome \<Rightarrow> bool" where
  "disciplined vis res \<longleftrightarrow>
     (case res of
        Ok (_, vis') \<Rightarrow> vis' = vis
      | Thrown e (_, vis') \<Rightarrow>
          exn_kind e \<in> set reader_kinds \<and> (\<exists>p. path vis' = path vis @ p))"

abbreviation callback_disciplined :: "('c \<Rightarrow> json_reader \<Rightarrow> ('c \<times> json_reader) outcome) \<Rightarrow> bool" where
  "callback_disciplined fn \<equiv> \<forall>c vis. disciplined vis (fn c vis)"

text \<open>The object an operation leaves behind, whether it returned or threw.\<close>

abbreviation result_val :: "('c \<times> 's) outcome \<Rightarrow> 'c" where
  "result_val res \<equiv> fst (outcome_state res)"

text \<open>The callback the vector overload passes to \<^verbatim>\<open>iterArray\<close>.\<close>

abbreviation vector_cb :: "ty \<Rightarrow> val list \<Rightarrow> json_reader \<Rightarrow> (val list \<times> json_reader) outcome" where
  "vector_cb t \<equiv> \<lambda>ys vis'. map_outcome (\<lambda>(y, vis''). (ys @ [y], vis'')) (decode t (default_val t) vis')"

text \<open>
  Moving a reader outcome from a start path \<open>p\<close> to a start path \<open>q\<close>: the segments
  pushed beyond \<open>p\<close> are kept on top of \<open>q\<close>.
\<close>

definition shift_path :: "string list \<Rightarrow> string list \<Rightarrow> 'c \<times> json_reader \<Rightarrow> 'c \<times> json_reader" where
  "shift_path p q = (\<lambda>(c, r). (c, r\<lparr>path := q @ drop (length p) (path r)\<rparr>))"

abbreviation path_shifts :: "('c \<Rightarrow> json_reader \<Rightarrow> ('c \<times> json_reader) outcome) \<Rightarrow> bool" where
  "path_shifts fn \<equiv> \<forall>c vis q. fn c (vis\<lparr>path := q\<rparr>) = map_outcome (shift_path (path vis) q) (fn c vis)"

lemmas reader_defs [codec_defs] = reflect_vector_R_def reflectMemberStart_R_def
  reflectMember_R_def reflectMemberEnd_R_def iterArray_def member_def getString_def

lemma reader_vis_sel [simp]:
  "vis_prim reader_vis = reflect_prim_R"
  "vis_vector reader_vis = reflect_vector_R"
  "vis_member_start reader_vis = reflectMemberStart_R"
  "vis_member reader_vis = reflectMember_R"
  "vis_member_end reader_vis = reflectMemberEnd_R"
  by (simp_all add: reader_vis_def)

lemma disciplined_Ok [simp]: "disciplined vis (Ok (c, vis')) \<longleftrightarrow> vis' = vis"
  by (simp add: disciplined_def)

lemma disciplined_Thrown [simp]:
  "disciplined vis (Thrown e (c, vis')) \<longleftrightarrow>
     exn_kind e \<in> set reader_kinds \<and> (\<exists>p. path vis' = path vis @ p)"
  by (simp add: disciplined_def)

lemma disciplined_cases:
  assumes "disciplined vis res"
  obtains c where "res = Ok (c, vis)"
  | e c vis' p where "res = Thrown e (c, vis')" "exn_kind e \<in> set reader_kinds"
      "path vis' = path vis @ p"
  using assms by (cases res) (auto simp: disciplined_def)

lemma iter_entries_disciplined:
  "callback_disciplined fn \<Longrightarrow> disciplined vis (iter_entries fn es c vis)"
proof (induction es arbitrary: c vis)
  case Nil
  then show ?case by simp
next
  case (Cons e es)
  from Cons.prems have "disciplined (vis\<lparr>m := e\<rparr>) (fn c (vis\<lparr>m := e\<rparr>))" by blast
  then show ?case
  proof (cases rule: disciplined_cases)
    case (1 c')
    with Cons.IH [OF Cons.prems, where c = c' and vis = vis] show ?thesis by simp
  next
    case (2 e c' vis' p)
    then show ?thesis by simp
  qed
qed

lemma iterArray_disciplined:
  "callback_disciplined fn \<Longrightarrow> disciplined vis (iterArray fn c vis)"
  using iter_entries_disciplined [where fn = fn and es = "GetArray (m vis)" and c = c
      and vis = "vis\<lparr>path := path vis @ [''0'']\<rparr>"]
  by (auto simp: iterArray_def reader_kinds_def disciplined_def split: outcome.splits)

lemma disciplined_map [simp]:
  "disciplined vis (map_outcome (\<lambda>(y, vis'). (g y, vis')) res) = disciplined vis res"
  by (cases res) (auto simp: disciplined_def)

lemma member_disciplined:
  "callback_disciplined fn \<Longrightarrow> disciplined vis (member name fn c vis)"
proof -
  assume fn: "callback_disciplined fn"
  let ?vis1 = "vis\<lparr>path := path vis @ [name]\<rparr>"
  show ?thesis
  proof (cases "FindMember name (m vis)")
    case None
    then show ?thesis by (simp add: member_def)
  next
    case (Some child)
    from fn have "disciplined (?vis1\<lparr>m := child\<rparr>) (fn c (?vis1\<lparr>m := child\<rparr>))" by blast
    then show ?thesis
    proof (cases rule: disciplined_cases)
      case (1 c')
      with Some show ?thesis by (simp add: member_def)
    next
      case (2 e c' vis' p)
      with Some show ?thesis by (simp add: member_def)
    qed
  qed
qed

lemma decode_disciplined_members:
  "disciplined vis (decode t v vis)"
  "disciplined vis (reflect_members reader_vis fs vs vis)"
proof (induction reader_vis t v vis and reader_vis fs vs vis rule: reflect_reflect_members.induct)
  case (1 t v s)
  have "callback_disciplined (\<lambda>ys vis'. map_outcome (\<lambda>(y, vis''). (ys @ [y], vis''))
          (decode t (default_val t) vis'))"
    using "1" by simp
  then show ?case by (simp add: reader_defs iterArray_disciplined del: iterArray_def)
next
  case (2 n fs v s)
  show ?case
  proof (cases "IsObject (m s)")
    case True
    from "2" [of s] True have "disciplined s (reflect_members reader_vis fs (struct_fields v) s)"
      by (simp add: reader_defs)
    then show ?thesis
    proof (cases rule: disciplined_cases)
      case (1 c')
      with True show ?thesis by (simp add: reader_defs)
    next
      case (2 e c' vis' p)
      with True show ?thesis by (simp add: reader_defs)
    qed
  next
    case False
    then show ?thesis by (simp add: reader_defs reader_kinds_def)
  qed
next
  case (6 name t fs v vs s)
  have "disciplined s (member name (decode t) v s)"
    using "6"(1) by (intro member_disciplined) blast
  then show ?case
  proof (cases rule: disciplined_cases)
    case (1 c')
    with "6"(2) [of "(c', s)" c' s] show ?thesis
      by (auto simp: reader_defs simp del: member_def)
  next
    case (2 e c' vis' p)
    then show ?thesis by (simp add: reader_defs del: member_def)
  qed
qed (auto simp: reader_defs reader_kinds_def)

text \<open>
  C7. When \<^verbatim>\<open>reflect(JsonReader&, T&)\<close> returns normally, the reader is exactly as
  it was before the call: \<^verbatim>\<open>m\<close> points at the same node and \<^verbatim>\<open>path_\<close> has the
  same segments, whatever the declared type and the document.
\<close>

theorem decode_ok_restores: "decode t v vis = Ok (v', vis') \<Longrightarrow> vis' = vis"
  using decode_disciplined_members(1) [of vis t v] by simp

theorem decode_ok_restores_witness:
  "decode (TVector TBool) (VVector []) \<lparr>m = JArray [JBool True], path = [''x'']\<rparr> =
     Ok (VVector [VBool True], \<lparr>m = JArray [JBool True], path = [''x'']\<rparr>) \<and>
   \<lparr>m = JArray [JBool True], path = [''x'']\<rparr> = \<lparr>m = JArray [JBool True], path = [''x'']\<rparr>"
  using decode_ok_restores [of "TVector TBool" "VVector []" "\<lparr>m = JArray [JBool True], path = [''x'']\<rparr>"
      "VVector [VBool True]" "\<lparr>m = JArray [JBool True], path = [''x'']\<rparr>"]
  by (simp add: codec_defs)

lemma member_thrown_path:
  assumes fn: "callback_disciplined fn" and th: "member name fn c vis = Thrown e (c', r)"
  shows "\<exists>q. path r = path vis @ name # q"
proof (cases "FindMember name (m vis)")
  case None
  then show ?thesis using th by (simp add: member_def)
next
  case (Some child)
  let ?vis1 = "vis\<lparr>path := path vis @ [name], m := child\<rparr>"
  from fn have "disciplined ?vis1 (fn c ?vis1)" by blast
  then show ?thesis
  proof (cases rule: disciplined_cases)
    case (1 c0)
    then show ?thesis using th Some by (simp add: member_def)
  next
    case (2 e0 c0 vis0 p)
    then show ?thesis using th Some by (simp add: member_def)
  qed
qed

lemma decode_members_thrown_path:
  "reflect_members reader_vis fs vs s = Thrown e (vs', r) \<Longrightarrow> length vs = length fs \<Longrightarrow>
   \<exists>k < length fs. \<exists>q. path r = path s @ fst (fs ! k) # q"
proof (induction fs arbitrary: vs s vs')
  case (Cons f fs)
  obtain name t where f: "f = (name, t)" by fastforce
  obtain v vs0 where vs: "vs = v # vs0" and len: "length vs0 = length fs"
    using Cons.prems(2) by (cases vs) auto
  have "disciplined s (member name (decode t) v s)"
    using decode_disciplined_members(1) by (intro member_disciplined) blast
  then show ?case
  proof (cases rule: disciplined_cases)
    case (1 v1)
    then obtain vs'' where "reflect_members reader_vis fs vs0 s = Thrown e (vs'', r)"
      using Cons.prems(1) f vs by (cases "reflect_members reader_vis fs vs0 s") (auto simp: reflectMember_R_def)
    from Cons.IH [OF this len] obtain k q where "k < length fs" "path r = path s @ fst (fs ! k) # q" by blast
    then show ?thesis by (intro exI [of _ "Suc k"]) auto
  next
    case (2 e0 v1 vis0 p)
    then have th: "member name (decode t) v s = Thrown e (v1, r)"
      using Cons.prems(1) f vs by (auto simp: reflectMember_R_def simp del: member_def)
    have "callback_disciplined (decode t)" using decode_disciplined_members(1) by blast
    from member_thrown_path [OF this th] have "\<exists>q. path r = path s @ name # q" .
    then show ?thesis using f by (intro exI [of _ 0]) auto
  qed
qed simp

text \<open>
  C8. An exception inside a structure leaves the failing member's name on the
  reader's path: when the node is an object and decoding the structure throws, the
  path left behind is the path at the call, then the name of one declared member,
  then whatever the nested scopes pushed. \<^verbatim>\<open>member\<close> pops its segment only after
  the callback returns, so the exception skips the pop; a reader that popped on every
  exit would leave the path as it was.
\<close>

theorem decode_thrown_member_path:
  "decode (TStruct n fs) v vis = Thrown e (v', r) \<Longrightarrow> IsObject (m vis) \<Longrightarrow>
   length (struct_fields v) = length fs \<Longrightarrow>
   \<exists>k < length fs. \<exists>q. path r = path vis @ fst (fs ! k) # q"
proof -
  assume th: "decode (TStruct n fs) v vis = Thrown e (v', r)" and obj: "IsObject (m vis)"
    and len: "length (struct_fields v) = length fs"
  then obtain vs' where "reflect_members reader_vis fs (struct_fields v) vis = Thrown e (vs', r)"
    by (auto simp: reflectMemberStart_R_def reflectMemberEnd_R_def split: outcome.splits prod.splits)
  then show ?thesis using len by (rule decode_members_thrown_path)
qed

theorem decode_thrown_member_path_witness:
  "decode (TStruct ''S'' [(''a'', TInt)]) (VStruct [VInt 0]) \<lparr>m = JObject [(''a'', JBool True)], path = [''top'']\<rparr> =
     Thrown (InvalidArgument ''int'') (VStruct [VInt 0], \<lparr>m = JBool True, path = [''top'', ''a'']\<rparr>) \<and>
   IsObject (JObject [(''a'', JBool True)]) \<and> length (struct_fields (VStruct [VInt 0])) = length [(''a'', TInt)] \<and>
   (\<exists>k < length [(''a'', TInt)]. \<exists>q. [''top'', ''a''] = [''top''] @ fst ([(''a'', TInt)] ! k) # q)"
proof -
  have run: "decode (TStruct ''S'' [(''a'', TInt)]) (VStruct [VInt 0]) \<lparr>m = JObject [(''a'', JBool True)], path = [''top'']\<rparr> =
     Thrown (InvalidArgument ''int'') (VStruct [VInt 0], \<lparr>m = JBool True, path = [''top'', ''a'']\<rparr>)"
    by (simp add: codec_defs)
  have h: "IsObject (m \<lparr>m = JObject [(''a'', JBool True)], path = [''top'']\<rparr>)"
    "length (struct_fields (VStruct [VInt 0])) = length [(''a'', TInt)]" by simp_all
  show ?thesis using run h decode_thrown_member_path [OF run h] by simp
qed

section \<open>Behaviour of the reader overloads\<close>

lemma iter_entries_appends:
  "iter_entries (vector_cb t) es ys vis = Ok (zs, vis') \<Longrightarrow> \<exists>ws. zs = ys @ ws \<and> length ws = length es"
proof (induction es arbitrary: ys vis)
  case (Cons e es)
  then obtain y s where "decode t (default_val t) (vis\<lparr>m := e\<rparr>) = Ok (y, s)"
    and "iter_entries (vector_cb t) es (ys @ [y]) (s\<lparr>m := m vis\<rparr>) = Ok (zs, vis')"
    by (auto simp: outcome_simps split: outcome.splits prod.splits)
  with Cons.IH show ?case by fastforce
qed simp

lemma members_absent:
  "reflect_members reader_vis fs vs vis = Ok (vs', vis') \<Longrightarrow> length vs = length fs \<Longrightarrow> i < length fs \<Longrightarrow>
   FindMember (fst (fs ! i)) (m vis) = None \<Longrightarrow> vs' ! i = vs ! i"
proof (induction fs arbitrary: vs vs' i vis)
  case (Cons f fs)
  obtain n t where f: "f = (n, t)" by fastforce
  from Cons.prems(2) obtain v vs0 where vs: "vs = v # vs0" by (cases vs) auto
  from Cons.prems(1) f vs obtain v' s' vs1 where
    mem: "member n (decode t) v vis = Ok (v', s')" and
    rest: "reflect_members reader_vis fs vs0 s' = Ok (vs1, vis')" and vs': "vs' = v' # vs1"
    by (auto simp: reflectMember_R_def outcome_simps simp del: member_def split: outcome.splits prod.splits)
  from mem have s': "s' = vis"
    using member_disciplined [of "decode t" vis n v] decode_disciplined_members(1) by auto
  show ?case
  proof (cases i)
    case 0
    with Cons.prems(4) f have "FindMember n (m vis) = None" by simp
    with mem vs' 0 vs show ?thesis by (simp add: member_def)
  next
    case (Suc k)
    with Cons.prems(2,3,4) vs rest s' have "vs1 ! k = vs0 ! k" by (intro Cons.IH) auto
    with Suc vs vs' show ?thesis by simp
  qed
qed simp

lemma iter_entries_int_error:
  "list_all (\<lambda>n. - (2 ^ 31) \<le> n \<and> n < 2 ^ 31) ns \<Longrightarrow>
   iter_entries (vector_cb TInt) (map JNumber ns @ JBool b # rest) ys vis =
     Thrown (InvalidArgument ''int'') (ys @ map (\<lambda>n. VInt (word_of_int n)) ns @ [VInt 0], vis\<lparr>m := JBool b\<rparr>)"
  by (induction ns arbitrary: ys) simp_all

text \<open>
  C18. Decoding into a vector appends: \<^verbatim>\<open>reflect(JsonReader&, std::vector<T>&)\<close> never
  clears the vector, so after a normal return it holds its previous elements followed by
  one new element per array entry, in order.
\<close>

theorem decode_vector_appends:
  "decode (TVector t) (VVector xs) vis = Ok (VVector ys, vis') \<Longrightarrow>
   \<exists>zs. ys = xs @ zs \<and> length zs = length (GetArray (m vis))"
  by (auto simp: reflect_vector_R_def iterArray_def outcome_simps split: if_splits dest!: iter_entries_appends)

theorem decode_vector_appends_witness:
  "decode (TVector TBool) (VVector [VBool False]) \<lparr>m = JArray [JBool True], path = []\<rparr> =
     Ok (VVector [VBool False, VBool True], \<lparr>m = JArray [JBool True], path = []\<rparr>) \<and>
   (\<exists>zs. [VBool False, VBool True] = [VBool False] @ zs \<and>
      length zs = length (GetArray (m \<lparr>m = JArray [JBool True], path = []\<rparr>)))"
proof -
  have run: "decode (TVector TBool) (VVector [VBool False]) \<lparr>m = JArray [JBool True], path = []\<rparr> =
     Ok (VVector [VBool False, VBool True], \<lparr>m = JArray [JBool True], path = []\<rparr>)"
    by (simp add: codec_defs)
  show ?thesis using run decode_vector_appends [OF run] by simp
qed

text \<open>
  C17. Members are optional: when the object has no member named like the \<open>i\<close>-th declared
  field, a decode that returns normally leaves that field exactly as it was before the
  call (\<^verbatim>\<open>JsonReader::member\<close> skips the callback when \<^verbatim>\<open>FindMember\<close> fails).
\<close>

theorem decode_absent_member:
  "decode (TStruct n fs) v vis = Ok (v', vis') \<Longrightarrow> has_ty v (TStruct n fs) \<Longrightarrow> i < length fs \<Longrightarrow>
   FindMember (fst (fs ! i)) (m vis) = None \<Longrightarrow> struct_fields v' ! i = struct_fields v ! i"
  by (cases v) (auto simp: reflectMemberStart_R_def reflectMemberEnd_R_def outcome_simps
      fields_have_ty_length split: if_splits outcome.splits prod.splits intro: members_absent)

theorem decode_absent_member_witness:
  "decode (TStruct ''S'' [(''a'', TInt), (''b'', TBool)]) (VStruct [VInt 7, VBool False])
     \<lparr>m = JObject [(''b'', JBool True)], path = []\<rparr> =
     Ok (VStruct [VInt 7, VBool True], \<lparr>m = JObject [(''b'', JBool True)], path = []\<rparr>) \<and>
   has_ty (VStruct [VInt 7, VBool False]) (TStruct ''S'' [(''a'', TInt), (''b'', TBool)]) \<and>
   (0::nat) < length [(''a'', TInt), (''b'', TBool)] \<and>
   FindMember (fst ([(''a'', TInt), (''b'', TBool)] ! 0)) (m \<lparr>m = JObject [(''b'', JBool True)], path = []\<rparr>) = None \<and>
   struct_fields (VStruct [VInt 7, VBool True]) ! 0 = struct_fields (VStruct [VInt 7, VBool False]) ! 0"
proof -
  have run: "decode (TStruct ''S'' [(''a'', TInt), (''b'', TBool)]) (VStruct [VInt 7, VBool False])
     \<lparr>m = JObject [(''b'', JBool True)], path = []\<rparr> =
     Ok (VStruct [VInt 7, VBool True], \<lparr>m = JObject [(''b'', JBool True)], path = []\<rparr>)"
    by (simp add: codec_defs)
  have "struct_fields (VStruct [VInt 7, VBool True]) ! 0 = struct_fields (VStruct [VInt 7, VBool False]) ! 0"
    by (rule decode_absent_member [OF run]) simp_all
  with run show ?thesis by simp
qed

text \<open>
  C30. Inside an array the path gains the constant segment \<^verbatim>\<open>"0"\<close> for the whole
  iteration, not the index: whichever entry of an \<^verbatim>\<open>int\<close> array holds the
  first non-integer, the exception leaves the path as the starting path plus
  \<^verbatim>\<open>"0"\<close>, and the vector with every entry before it converted and a zero appended.
\<close>

theorem decode_vector_error_path:
  "list_all (\<lambda>n. - (2 ^ 31) \<le> n \<and> n < 2 ^ 31) ns \<Longrightarrow>
   decode (TVector TInt) (VVector []) (vis\<lparr>m := JArray (map JNumber ns @ JBool b # rest)\<rparr>) =
     Thrown (InvalidArgument ''int'')
       (VVector (map (\<lambda>n. VInt (word_of_int n)) ns @ [VInt 0]),
        vis\<lparr>m := JBool b, path := path vis @ [''0'']\<rparr>)"
  using iter_entries_int_error [where ys = "[]" and b = b and rest = rest
      and vis = "vis\<lparr>m := JArray (map JNumber ns @ JBool b # rest), path := path vis @ [''0'']\<rparr>"]
  by (simp add: reflect_vector_R_def iterArray_def)

theorem decode_vector_error_path_witness:
  "list_all (\<lambda>n. - (2 ^ 31) \<le> n \<and> n < 2 ^ 31) [5, 6 :: int] \<and>
   decode (TVector TInt) (VVector []) (\<lparr>m = JNull, path = [''xs'']\<rparr>\<lparr>m := JArray (map JNumber [5, 6] @ JBool True # [])\<rparr>) =
     Thrown (InvalidArgument ''int'') (VVector [VInt 5, VInt 6, VInt 0], \<lparr>m = JBool True, path = [''xs'', ''0'']\<rparr>)"
  using decode_vector_error_path [where ns = "[5, 6]" and vis = "\<lparr>m = JNull, path = [''xs'']\<rparr>"
      and b = True and rest = "[]"] by simp

text \<open>
  C22. An \<^verbatim>\<open>unsigned char\<close> accepts exactly the numbers in \<^verbatim>\<open>int\<close> range and
  keeps them modulo 256: \<^verbatim>\<open>(uint8_t)vis.m->GetInt()\<close> truncates without a range
  check, so 300 is stored as 44 and -1 as 255; any other number throws
  \<^verbatim>\<open>uint8_t\<close>.
\<close>

theorem decode_uchar_wraps:
  "decode TUChar v (vis\<lparr>m := JNumber n\<rparr>) =
     (if - (2 ^ 31) \<le> n \<and> n < 2 ^ 31 then Ok (VUChar (word_of_int n), vis\<lparr>m := JNumber n\<rparr>)
      else Thrown (InvalidArgument ''uint8_t'') (v, vis\<lparr>m := JNumber n\<rparr>))"
  by simp

theorem decode_uchar_wraps_witness:
  "decode TUChar (VUChar 0) (\<lparr>m = JNull, path = []\<rparr>\<lparr>m := JNumber 300\<rparr>) = Ok (VUChar 44, \<lparr>m = JNumber 300, path = []\<rparr>)"
  using decode_uchar_wraps [where v = "VUChar 0" and vis = "\<lparr>m = JNull, path = []\<rparr>" and n = 300] by simp

text \<open>
  C23. An \<^verbatim>\<open>unsigned\<close> accepts exactly the numbers in \<^verbatim>\<open>uint64_t\<close> range and keeps
  them modulo \<open>2 ^ 32\<close>: \<^verbatim>\<open>(unsigned)vis.m->GetUint64()\<close> truncates, so
  \<open>2 ^ 32 + 5\<close> is stored as 5; negative numbers and numbers of \<open>2 ^ 64\<close> or
  more throw \<^verbatim>\<open>unsigned\<close>.
\<close>

theorem decode_unsigned_wraps:
  "decode TUInt v (vis\<lparr>m := JNumber n\<rparr>) =
     (if 0 \<le> n \<and> n < 2 ^ 64 then Ok (VUInt (word_of_int n), vis\<lparr>m := JNumber n\<rparr>)
      else Thrown (InvalidArgument ''unsigned'') (v, vis\<lparr>m := JNumber n\<rparr>))"
  by simp

theorem decode_unsigned_wraps_witness:
  "decode TUInt (VUInt 0) (\<lparr>m = JNull, path = []\<rparr>\<lparr>m := JNumber 4294967301\<rparr>) =
     Ok (VUInt 5, \<lparr>m = JNumber 4294967301, path = []\<rparr>)"
  using decode_unsigned_wraps [where v = "VUInt 0" and vis = "\<lparr>m = JNull, path = []\<rparr>" and n = 4294967301] by simp

text \<open>
  C27. Negative numbers are treated inconsistently by the unsigned overloads: an
  \<^verbatim>\<open>unsigned short\<close> (checked with \<^verbatim>\<open>IsInt\<close>) accepts \<open>-1\<close> and stores
  65535, while an \<^verbatim>\<open>unsigned\<close> (checked with \<^verbatim>\<open>IsUint64\<close>) throws.
\<close>

theorem decode_negative_unsigned:
  "n < 0 \<Longrightarrow> - (2 ^ 31) \<le> n \<Longrightarrow>
   decode TUShort v (vis\<lparr>m := JNumber n\<rparr>) = Ok (VUShort (word_of_int n), vis\<lparr>m := JNumber n\<rparr>) \<and>
   decode TUInt v (vis\<lparr>m := JNumber n\<rparr>) = Thrown (InvalidArgument ''unsigned'') (v, vis\<lparr>m := JNumber n\<rparr>)"
  by simp

theorem decode_negative_unsigned_witness:
  "(-1::int) < 0 \<and> - (2 ^ 31) \<le> (-1::int) \<and>
   decode TUShort (VUShort 0) (\<lparr>m = JNull, path = []\<rparr>\<lparr>m := JNumber (-1)\<rparr>) =
     Ok (VUShort (word_of_int (-1)), \<lparr>m = JNumber (-1), path = []\<rparr>) \<and>
   word_of_int (-1) = (65535 :: 16 word) \<and>
   decode TUInt (VUInt 0) (\<lparr>m = JNull, path = []\<rparr>\<lparr>m := JNumber (-1)\<rparr>) =
     Thrown (InvalidArgument ''unsigned'') (VUInt 0, \<lparr>m = JNumber (-1), path = []\<rparr>)"
  using decode_negative_unsigned [where n = "-1" and v = "VUShort 0" and vis = "\<lparr>m = JNull, path = []\<rparr>"]
    decode_negative_unsigned [where n = "-1" and v = "VUInt 0" and vis = "\<lparr>m = JNull, path = []\<rparr>"]
  by simp

text \<open>
  C21. Text is read as a C string: \<^verbatim>\<open>JsonReader::getString\<close> builds the
  \<^verbatim>\<open>std::string\<close> from \<^verbatim>\<open>GetString()\<close>'s pointer alone, so the decoded text
  ends at the first zero byte although the document stores its length.
\<close>

theorem decode_string_cstr:
  "decode TString v (vis\<lparr>m := JString s\<rparr>) = Ok (VString (c_str s), vis\<lparr>m := JString s\<rparr>)"
  by (simp add: getString_def)


section \<open>Member order and path do not matter\<close>

text \<open>
  \<^verbatim>\<open>member\<close> reads the node only through \<^verbatim>\<open>FindMember\<close>, and puts the node back
  after the callback; so two object nodes with the same member lookup give the same run,
  up to the node restored at the end.
\<close>

lemma member_ok_node: "member name fn c vis = Ok (c', vis') \<Longrightarrow> m vis' = m vis"
  by (auto simp: member_def Let_def outcome_simps split: option.splits)

lemma member_rebind:
  assumes "FindMember name j' = FindMember name (m vis)"
  shows "member name fn c (vis\<lparr>m := j'\<rparr>) =
           on_ok (\<lambda>(c', r). (c', r\<lparr>m := j'\<rparr>)) (member name fn c vis)"
proof (cases "FindMember name (m vis)")
  case None
  with assms show ?thesis by (simp add: member_def)
next
  case (Some child)
  with assms show ?thesis
    by (cases "fn c (vis\<lparr>path := path vis @ [name], m := child\<rparr>)") (auto simp: member_def)
qed

lemma members_rebind:
  assumes "\<forall>name\<in>set (map fst fs). FindMember name j' = FindMember name j" "m vis = j"
  shows "reflect_members reader_vis fs vs (vis\<lparr>m := j'\<rparr>) =
           on_ok (\<lambda>(c', r). (c', r\<lparr>m := j'\<rparr>)) (reflect_members reader_vis fs vs vis)"
  using assms
proof (induction fs arbitrary: vs vis)
  case Nil
  then show ?case by simp
next
  case (Cons f fs)
  obtain name t where f: "f = (name, t)" by fastforce
  show ?case
  proof (cases vs)
    case Nil
    then show ?thesis by simp
  next
    case (Cons v vs')
    have rb: "member name (decode t) v (vis\<lparr>m := j'\<rparr>) =
        on_ok (\<lambda>(c', r). (c', r\<lparr>m := j'\<rparr>)) (member name (decode t) v vis)"
      using member_rebind [of name j' vis "decode t" v] Cons.prems f by simp
    show ?thesis
    proof (cases "member name (decode t) v vis")
      case (Ok st)
      obtain v' vis' where st: "st = (v', vis')" by fastforce
      have "m vis' = j" using member_ok_node [of name "decode t" v vis v' vis'] Ok st Cons.prems(2) by simp
      with Cons.IH [of vis' vs'] Cons.prems(1) have "reflect_members reader_vis fs vs' (vis'\<lparr>m := j'\<rparr>) =
          on_ok (\<lambda>(c', r). (c', r\<lparr>m := j'\<rparr>)) (reflect_members reader_vis fs vs' vis')" by simp
      then show ?thesis using rb Ok st f \<open>vs = v # vs'\<close>
        by (cases "reflect_members reader_vis fs vs' vis'") (simp_all add: reflectMember_R_def split: prod.splits)
    next
      case (Thrown e st)
      then show ?thesis using rb f \<open>vs = v # vs'\<close> by (cases st) (simp add: reflectMember_R_def)
    qed
  qed
qed

lemma decode_struct_rebind:
  assumes "\<forall>name\<in>set (map fst fs). FindMember name j' = FindMember name j" "IsObject j'" "IsObject j"
  shows "decode (TStruct n fs) v (vis\<lparr>m := j'\<rparr>) =
           on_ok (\<lambda>(c', r). (c', r\<lparr>m := j'\<rparr>)) (decode (TStruct n fs) v (vis\<lparr>m := j\<rparr>))"
proof -
  have "reflect_members reader_vis fs (struct_fields v) (vis\<lparr>m := j'\<rparr>) =
      on_ok (\<lambda>(c', r). (c', r\<lparr>m := j'\<rparr>)) (reflect_members reader_vis fs (struct_fields v) (vis\<lparr>m := j\<rparr>))"
    using members_rebind [OF assms(1), of "vis\<lparr>m := j\<rparr>"] by simp
  then show ?thesis using assms(2,3)
    by (cases "reflect_members reader_vis fs (struct_fields v) (vis\<lparr>m := j\<rparr>)")
      (simp_all add: reflectMemberStart_R_def reflectMemberEnd_R_def split: prod.splits)
qed

lemma map_of_reordered:
  "distinct (map fst ms) \<Longrightarrow> distinct (map fst ms') \<Longrightarrow> set ms' = set ms \<Longrightarrow> map_of ms' = map_of ms"
  by (simp add: map_of_inject_set)

text \<open>
  C11. Member lookup is by name and independent of member order: decoding a structure from
  an object whose members (with distinct names) are listed in another order gives the
  same outcome, the same object and the same exception, with only the node restored at a
  normal return differing.
\<close>

theorem decode_member_order:
  "distinct (map fst ms) \<Longrightarrow> distinct (map fst ms') \<Longrightarrow> set ms' = set ms \<Longrightarrow>
   decode (TStruct n fs) v (vis\<lparr>m := JObject ms'\<rparr>) =
     on_ok (\<lambda>(v', r). (v', r\<lparr>m := JObject ms'\<rparr>)) (decode (TStruct n fs) v (vis\<lparr>m := JObject ms\<rparr>))"
proof -
  assume "distinct (map fst ms)" "distinct (map fst ms')" "set ms' = set ms"
  then have "map_of ms' = map_of ms" by (rule map_of_reordered)
  then show ?thesis by (intro decode_struct_rebind) simp_all
qed

theorem decode_member_order_witness:
  "distinct (map fst [(''a'', JNumber 1), (''b'', JBool True)]) \<and>
   distinct (map fst [(''b'', JBool True), (''a'', JNumber 1)]) \<and>
   set [(''b'', JBool True), (''a'', JNumber 1)] = set [(''a'', JNumber 1), (''b'', JBool True)] \<and>
   decode (TStruct ''S'' [(''a'', TInt), (''b'', TBool)]) (VStruct [VInt 0, VBool False])
     (\<lparr>m = JNull, path = []\<rparr>\<lparr>m := JObject [(''b'', JBool True), (''a'', JNumber 1)]\<rparr>) =
   on_ok (\<lambda>(v', r). (v', r\<lparr>m := JObject [(''b'', JBool True), (''a'', JNumber 1)]\<rparr>))
     (decode (TStruct ''S'' [(''a'', TInt), (''b'', TBool)]) (VStruct [VInt 0, VBool False])
       (\<lparr>m = JNull, path = []\<rparr>\<lparr>m := JObject [(''a'', JNumber 1), (''b'', JBool True)]\<rparr>))"
proof -
  have h: "distinct (map fst [(''a'', JNumber 1), (''b'', JBool True)])"
    "distinct (map fst [(''b'', JBool True), (''a'', JNumber 1)])"
    "set [(''b'', JBool True), (''a'', JNumber 1)] = set [(''a'', JNumber 1), (''b'', JBool True)]"
    by auto
  show ?thesis using h decode_member_order [OF h] by blast
qed

lemma map_of_append_later:
  "\<forall>k\<in>set (map fst extra). k \<in> K \<longrightarrow> k \<in> set (map fst ms) \<Longrightarrow> name \<in> K \<Longrightarrow>
   map_of (ms @ extra) name = map_of ms name"
proof (cases "name \<in> set (map fst ms)")
  case True
  then obtain x where "map_of ms name = Some x" by (cases "map_of ms name") (auto simp: map_of_eq_None_iff)
  then show ?thesis by simp
next
  case False
  assume "\<forall>k\<in>set (map fst extra). k \<in> K \<longrightarrow> k \<in> set (map fst ms)" "name \<in> K"
  with False have "name \<notin> set (map fst extra)" by blast
  with False have "map_of ms name = None" "map_of extra name = None" by (simp_all add: map_of_eq_None_iff)
  then show ?thesis by simp
qed

text \<open>
  C12. Members after the ones a structure reads do not matter: appending to an object
  members whose names the structure does not declare, or which repeat a name already
  present, changes nothing but the node restored at a normal return. So unknown members
  are ignored and, of two members with one name, the first is read
  (\<^verbatim>\<open>FindMember\<close> stops at the first match).
\<close>

theorem decode_later_members_ignored:
  "\<forall>k\<in>set (map fst extra). k \<in> set (map fst fs) \<longrightarrow> k \<in> set (map fst ms) \<Longrightarrow>
   decode (TStruct n fs) v (vis\<lparr>m := JObject (ms @ extra)\<rparr>) =
     on_ok (\<lambda>(v', r). (v', r\<lparr>m := JObject (ms @ extra)\<rparr>)) (decode (TStruct n fs) v (vis\<lparr>m := JObject ms\<rparr>))"
proof -
  assume h: "\<forall>k\<in>set (map fst extra). k \<in> set (map fst fs) \<longrightarrow> k \<in> set (map fst ms)"
  have "\<forall>name\<in>set (map fst fs). FindMember name (JObject (ms @ extra)) = FindMember name (JObject ms)"
    using map_of_append_later [OF h] by (simp del: map_of_append)
  then show ?thesis by (intro decode_struct_rebind) simp_all
qed

theorem decode_later_members_ignored_witness:
  "decode (TStruct ''P'' [(''x'', TInt)]) (VStruct [VInt 0])
     (\<lparr>m = JNull, path = []\<rparr>\<lparr>m := JObject ([(''x'', JNumber 1)] @ [(''x'', JNumber 2), (''y'', JNull)])\<rparr>) =
   on_ok (\<lambda>(v', r). (v', r\<lparr>m := JObject ([(''x'', JNumber 1)] @ [(''x'', JNumber 2), (''y'', JNull)])\<rparr>))
     (decode (TStruct ''P'' [(''x'', TInt)]) (VStruct [VInt 0]) (\<lparr>m = JNull, path = []\<rparr>\<lparr>m := JObject [(''x'', JNumber 1)]\<rparr>))"
proof -
  have h: "\<forall>k\<in>set (map fst [(''x'', JNumber 2), (''y'', JNull)]). k \<in> set (map fst [(''x'', TInt)]) \<longrightarrow>
      k \<in> set (map fst [(''x'', JNumber 1)])" by simp
  show ?thesis using h decode_later_members_ignored [OF h] by blast
qed

lemma reflect_members_thrown:
  "reflect_members vis fs vs s = Thrown e (vs', s') \<Longrightarrow> length vs = length fs \<Longrightarrow>
   \<exists>k < length fs. (\<exists>s0. vis_member vis (fst (fs ! k)) (reflect vis (snd (fs ! k))) (vs ! k) s0 = Thrown e (vs' ! k, s')) \<and>
     length vs' = length vs \<and> drop (Suc k) vs' = drop (Suc k) vs"
proof (induction fs arbitrary: vs s vs')
  case (Cons f fs)
  obtain name t where f: "f = (name, t)" by fastforce
  obtain v vs0 where vs: "vs = v # vs0" and len: "length vs0 = length fs" using Cons.prems(2) by (cases vs) auto
  show ?case
  proof (cases "vis_member vis name (reflect vis t) v s")
    case (Thrown e0 st)
    then show ?thesis using Cons.prems(1) f vs by (cases st) (auto intro!: exI [of _ 0])
  next
    case (Ok st)
    obtain v1 s1 where st: "st = (v1, s1)" by fastforce
    then obtain vs'' where rest: "reflect_members vis fs vs0 s1 = Thrown e (vs'', s')" and vs': "vs' = v1 # vs''"
      using Cons.prems(1) Ok f vs by (cases "reflect_members vis fs vs0 s1") auto
    obtain k s0 where "k < length fs" "vis_member vis (fst (fs ! k)) (reflect vis (snd (fs ! k))) (vs0 ! k) s0 = Thrown e (vs'' ! k, s')"
        "length vs'' = length vs0" "drop (Suc k) vs'' = drop (Suc k) vs0"
      using Cons.IH [OF rest len] by auto
    then show ?thesis using vs' vs by (intro exI [of _ "Suc k"]) auto
  qed
qed simp

text \<open>
  C9. The first mismatch aborts the whole structure: when decoding a structure
  throws, either nothing was read (the node is not an object, and the object is
  untouched), or the exception comes from exactly one member \<open>k\<close>. Then the
  members after \<open>k\<close> were never looked at, and their fields keep their prior values.
\<close>

theorem decode_abort_after_member:
  "decode (TStruct n fs) v vis = Thrown e (v', r) \<Longrightarrow> has_ty v (TStruct n fs) \<Longrightarrow>
   v' = v \<or>
   (\<exists>k < length fs. (\<exists>s0. member (fst (fs ! k)) (decode (snd (fs ! k))) (struct_fields v ! k) s0 =
        Thrown e (struct_fields v' ! k, r)) \<and>
      length (struct_fields v') = length fs \<and> drop (Suc k) (struct_fields v') = drop (Suc k) (struct_fields v))"
proof -
  assume th: "decode (TStruct n fs) v vis = Thrown e (v', r)" and ty: "has_ty v (TStruct n fs)"
  then obtain vs where v: "v = VStruct vs" and len: "length vs = length fs"
    by (cases v) (auto dest: fields_have_ty_length)
  show ?thesis
  proof (cases "reflectMemberStart_R vis")
    case (Thrown e1 s1)
    then show ?thesis using th v by (simp add: reflectMemberStart_R_def split: if_splits)
  next
    case (Ok s1)
    then obtain vs' where "reflect_members reader_vis fs vs s1 = Thrown e (vs', r)" and v': "v' = VStruct vs'"
      using th v by (auto split: outcome.splits prod.splits simp: reflectMemberEnd_R_def)
    from reflect_members_thrown [OF this(1) len] show ?thesis
      using v v' len by (simp add: reflectMember_R_def)
  qed
qed

theorem decode_abort_after_member_witness:
  "decode (TStruct ''S'' [(''a'', TInt), (''b'', TInt), (''c'', TInt)]) (VStruct [VInt 0, VInt 5, VInt 6]) \<lparr>m = JObject [(''a'', JNumber 1), (''b'', JNull), (''c'', JNumber 3)], path = []\<rparr> =
     Thrown (InvalidArgument ''int'') (VStruct [VInt 1, VInt 5, VInt 6], \<lparr>m = JNull, path = [''b'']\<rparr>) \<and>
   has_ty (VStruct [VInt 0, VInt 5, VInt 6]) (TStruct ''S'' [(''a'', TInt), (''b'', TInt), (''c'', TInt)]) \<and>
   (VStruct [VInt 1, VInt 5, VInt 6] = VStruct [VInt 0, VInt 5, VInt 6] \<or>
    (\<exists>k < length [(''a'', TInt), (''b'', TInt), (''c'', TInt)]. (\<exists>s0. member (fst ([(''a'', TInt), (''b'', TInt), (''c'', TInt)] ! k)) (decode (snd ([(''a'', TInt), (''b'', TInt), (''c'', TInt)] ! k))) (struct_fields (VStruct [VInt 0, VInt 5, VInt 6]) ! k) s0 =
        Thrown (InvalidArgument ''int'') (struct_fields (VStruct [VInt 1, VInt 5, VInt 6]) ! k, \<lparr>m = JNull, path = [''b'']\<rparr>)) \<and>
      length (struct_fields (VStruct [VInt 1, VInt 5, VInt 6])) = length [(''a'', TInt), (''b'', TInt), (''c'', TInt)] \<and>
      drop (Suc k) (struct_fields (VStruct [VInt 1, VInt 5, VInt 6])) = drop (Suc k) (struct_fields (VStruct [VInt 0, VInt 5, VInt 6]))))"
proof -
  have d: "decode (TStruct ''S'' [(''a'', TInt), (''b'', TInt), (''c'', TInt)]) (VStruct [VInt 0, VInt 5, VInt 6]) \<lparr>m = JObject [(''a'', JNumber 1), (''b'', JNull), (''c'', JNumber 3)], path = []\<rparr> =
     Thrown (InvalidArgument ''int'') (VStruct [VInt 1, VInt 5, VInt 6], \<lparr>m = JNull, path = [''b'']\<rparr>)"
    by (simp add: codec_defs)
  have h: "has_ty (VStruct [VInt 0, VInt 5, VInt 6]) (TStruct ''S'' [(''a'', TInt), (''b'', TInt), (''c'', TInt)])" by simp
  show ?thesis using d h decode_abort_after_member [OF d h] by blast
qed

text \<open>
  The path is only carried along: every operation run from another start path gives the
  same outcome with the pushed segments on top of that path.
\<close>

lemma shift_path_simp [simp]:
  "shift_path p q (c, r) = (c, r\<lparr>path := q @ drop (length p) (path r)\<rparr>)"
  by (simp add: shift_path_def)

lemma json_reader_upd_comm [simp]: "vis\<lparr>m := e, path := q\<rparr> = vis\<lparr>path := q, m := e\<rparr>"
  by (cases vis) simp

lemma iter_entries_shifts:
  assumes "callback_disciplined fn" "path_shifts fn"
  shows "iter_entries fn es c (vis\<lparr>path := q\<rparr>) = map_outcome (shift_path (path vis) q) (iter_entries fn es c vis)"
proof (induction es arbitrary: c vis)
  case Nil
  then show ?case by simp
next
  case (Cons e es)
  have sh: "fn c (vis\<lparr>m := e, path := q\<rparr>) = map_outcome (shift_path (path vis) q) (fn c (vis\<lparr>m := e\<rparr>))"
    using assms(2) [rule_format, where c = c and vis = "vis\<lparr>m := e\<rparr>" and q = q] by simp
  from assms(1) have "disciplined (vis\<lparr>m := e\<rparr>) (fn c (vis\<lparr>m := e\<rparr>))" by blast
  then show ?case
  proof (cases rule: disciplined_cases)
    case (1 c')
    with sh Cons.IH [of c' vis] show ?thesis by simp
  next
    case (2 e' c' vis' p)
    with sh show ?thesis by simp
  qed
qed

lemma iterArray_shifts:
  assumes "callback_disciplined fn" "path_shifts fn"
  shows "iterArray fn c (vis\<lparr>path := q\<rparr>) = map_outcome (shift_path (path vis) q) (iterArray fn c vis)"
proof (cases "IsArray (m vis)")
  case True
  let ?v1 = "vis\<lparr>path := path vis @ [''0'']\<rparr>"
  have sh: "iter_entries fn (GetArray (m vis)) c (?v1\<lparr>path := q @ [''0'']\<rparr>) =
      map_outcome (shift_path (path vis @ [''0'']) (q @ [''0''])) (iter_entries fn (GetArray (m vis)) c ?v1)"
    using iter_entries_shifts [OF assms, where es = "GetArray (m vis)" and c = c and vis = ?v1 and q = "q @ [''0'']"] by simp
  have "disciplined ?v1 (iter_entries fn (GetArray (m vis)) c ?v1)"
    by (rule iter_entries_disciplined [OF assms(1)])
  then show ?thesis
  proof (cases rule: disciplined_cases)
    case (1 c')
    with sh True show ?thesis by (simp add: iterArray_def)
  next
    case (2 e c' vis' p)
    with sh True show ?thesis by (simp add: iterArray_def)
  qed
qed (simp add: iterArray_def)

lemma member_shifts:
  assumes "callback_disciplined fn" "path_shifts fn"
  shows "member name fn c (vis\<lparr>path := q\<rparr>) = map_outcome (shift_path (path vis) q) (member name fn c vis)"
proof (cases "FindMember name (m vis)")
  case None
  then show ?thesis by (simp add: member_def)
next
  case (Some child)
  let ?v1 = "vis\<lparr>path := path vis @ [name], m := child\<rparr>"
  have sh: "fn c (vis\<lparr>path := q @ [name], m := child\<rparr>) =
      map_outcome (shift_path (path vis @ [name]) (q @ [name])) (fn c ?v1)"
    using assms(2) [rule_format, where c = c and vis = ?v1 and q = "q @ [name]"] by simp
  from assms(1) have "disciplined ?v1 (fn c ?v1)" by blast
  then show ?thesis
  proof (cases rule: disciplined_cases)
    case (1 c')
    with sh Some show ?thesis by (simp add: member_def)
  next
    case (2 e c' vis' p)
    with sh Some show ?thesis by (simp add: member_def)
  qed
qed

lemma map_outcome_shift:
  "map_outcome (\<lambda>(y, r). (g y, r)) (map_outcome (shift_path p q) res) =
   map_outcome (shift_path p q) (map_outcome (\<lambda>(y, r). (g y, r)) res)"
  by (cases res) auto

lemma decode_shifts_members:
  "decode t v (vis\<lparr>path := q\<rparr>) = map_outcome (shift_path (path vis) q) (decode t v vis)"
  "reflect_members reader_vis fs vs (vis\<lparr>path := q\<rparr>) =
     map_outcome (shift_path (path vis) q) (reflect_members reader_vis fs vs vis)"
proof (induction reader_vis t v vis and reader_vis fs vs vis arbitrary: q and q
    rule: reflect_reflect_members.induct)
  case (1 t v s)
  let ?cb = "vector_cb t"
  have d: "callback_disciplined ?cb"
    using decode_disciplined_members(1) by simp
  have p: "path_shifts ?cb"
    using "1" by (simp add: map_outcome_shift)
  show ?case
    using iterArray_shifts [OF d p, where c = "vector_elems v" and vis = s and q = q]
    by (simp add: reflect_vector_R_def map_outcome_shift del: iterArray_def)
next
  case (2 n fs v s)
  note IH = "2"
  show ?case
  proof (cases "IsObject (m s)")
    case True
    have "disciplined s (reflect_members reader_vis fs (struct_fields v) s)"
      by (rule decode_disciplined_members(2))
    then show ?thesis
    proof (cases rule: disciplined_cases)
      case (1 c')
      with True IH [of s q] show ?thesis by (simp add: reflectMemberStart_R_def reflectMemberEnd_R_def)
    next
      case (2 e c' vis' p)
      with True IH [of s q] show ?thesis by (simp add: reflectMemberStart_R_def reflectMemberEnd_R_def)
    qed
  qed (simp add: reflectMemberStart_R_def)
next
  case (6 name t fs v vs s)
  have d: "callback_disciplined (decode t)" using decode_disciplined_members(1) by blast
  have p: "path_shifts (decode t)" using "6"(1) by blast
  have ms: "member name (decode t) v (s\<lparr>path := q\<rparr>) =
      map_outcome (shift_path (path s) q) (member name (decode t) v s)"
    by (rule member_shifts [OF d p])
  have "disciplined s (member name (decode t) v s)" by (rule member_disciplined [OF d])
  then show ?case
  proof (cases rule: disciplined_cases)
    case (1 c')
    with ms "6"(2) [of "(c', s)" c' s q] show ?thesis
      by (cases "reflect_members reader_vis fs vs s") (auto simp: reflectMember_R_def simp del: member_def)
  next
    case (2 e c' vis' p)
    with ms show ?thesis by (simp add: reflectMember_R_def del: member_def)
  qed
qed (auto simp: reader_defs)

text \<open>
  C13. The path has no effect on what is decoded: started from any other path, a decode
  produces the same object, the same exception and the same node, and its final path is
  the new start path followed by the segments the original run left pushed (none after a
  normal return).
\<close>

theorem decode_path_independent:
  "decode t v (vis\<lparr>path := q\<rparr>) =
     map_outcome (\<lambda>(v', r). (v', r\<lparr>path := q @ drop (length (path vis)) (path r)\<rparr>)) (decode t v vis)"
  using decode_shifts_members(1) [where t = t and v = v and vis = vis and q = q] by (simp add: shift_path_def)

end
