(* ===== verification/Writer.thy ===== *)
theory Writer
  imports Visitor Document
begin

text \<open>
  The encoding visitor, \<^verbatim>\<open>struct JsonWriter\<close> of \<^verbatim>\<open>src/reflect.hpp\<close>. Its state is
  the sequence of calls made so far on the underlying \<^verbatim>\<open>rapidjson::Writer\<close>, an
  \<open>event\<close> list that grows at the end. \<open>startArray\<close> ... \<open>string_len\<close> are the
  wrapper methods of lines 59-67 (\<^verbatim>\<open>null_\<close> is \<open>null_value\<close>, the two
  \<^verbatim>\<open>string\<close> overloads are \<open>string_cstr\<close> and \<open>string_len\<close>);
  \<open>prim_events\<close> is the call each primitive
  overload of lines 82-95 makes; \<open>reflect_vector_W\<close> is the vector template of lines
  107-112; \<open>writer_vis\<close> completes the visitor with \<^verbatim>\<open>reflectMemberStart\<close>,
  \<^verbatim>\<open>reflectMember\<close> and \<^verbatim>\<open>reflectMemberEnd\<close> (lines 120-134).

  Two reference definitions state what the writer is meant to produce: \<open>emit\<close>, the
  event list of a value written directly by recursion on its type, and \<open>to_json\<close>,
  the document a value stands for (integers by their mathematical value, structures as
  objects keyed by the declared field names in declared order).
\<close>

type_synonym json_writer = "event list"

section \<open>JsonWriter methods\<close>

definition startArray :: "json_writer \<Rightarrow> json_writer" where
  "startArray w = w @ [EStartArray]"

definition endArray :: "json_writer \<Rightarrow> json_writer" where
  "endArray w = w @ [EEndArray]"

definition startObject :: "json_writer \<Rightarrow> json_writer" where
  "startObject w = w @ [EStartObject]"

definition endObject :: "json_writer \<Rightarrow> json_writer" where
  "endObject w = w @ [EEndObject]"

definition key :: "string \<Rightarrow> json_writer \<Rightarrow> json_writer" where
  "key name w = w @ [EKey name]"

definition null_value :: "json_writer \<Rightarrow> json_writer" where
  "null_value w = w @ [ENull]"

definition int64 :: "64 word \<Rightarrow> json_writer \<Rightarrow> json_writer" where
  "int64 v w = w @ [EInt64 v]"

text \<open>\<^verbatim>\<open>string(const char*)\<close> stops at the terminator; the two-argument form writes
  exactly \<open>len\<close> bytes.\<close>

definition string_cstr :: "string \<Rightarrow> json_writer \<Rightarrow> json_writer" where
  "string_cstr s w = w @ [EString (c_str s)]"

definition string_len :: "string \<Rightarrow> nat \<Rightarrow> json_writer \<Rightarrow> json_writer" where
  "string_len s len w = w @ [EString (take len s)]"

section \<open>The writer overloads\<close>

text \<open>
  The handler each primitive overload calls, with C's argument conversions:
  \<^verbatim>\<open>Int(int)\<close> receives \<^verbatim>\<open>unsigned char\<close> and \<^verbatim>\<open>unsigned short\<close> zero-extended
  and \<^verbatim>\<open>short\<close> sign-extended; \<^verbatim>\<open>Uint64\<close> receives \<^verbatim>\<open>unsigned\<close> zero-extended.
  A \<^verbatim>\<open>std::string\<close> is written with its length, \<^verbatim>\<open>JsonNull\<close> as \<^verbatim>\<open>Null()\<close>.
\<close>

fun prim_events :: "ty \<Rightarrow> val \<Rightarrow> event list" where
  "prim_events TBool v = (case v of VBool b \<Rightarrow> [EBool b] | _ \<Rightarrow> [])"
| "prim_events TUChar v = (case v of VUChar x \<Rightarrow> [EInt (ucast x)] | _ \<Rightarrow> [])"
| "prim_events TShort v = (case v of VShort x \<Rightarrow> [EInt (scast x)] | _ \<Rightarrow> [])"
| "prim_events TUShort v = (case v of VUShort x \<Rightarrow> [EInt (ucast x)] | _ \<Rightarrow> [])"
| "prim_events TInt v = (case v of VInt x \<Rightarrow> [EInt x] | _ \<Rightarrow> [])"
| "prim_events TUInt v = (case v of VUInt x \<Rightarrow> [EUint64 (ucast x)] | _ \<Rightarrow> [])"
| "prim_events TLong v = (case v of VLong x \<Rightarrow> [EInt64 x] | _ \<Rightarrow> [])"
| "prim_events TULong v = (case v of VULong x \<Rightarrow> [EUint64 x] | _ \<Rightarrow> [])"
| "prim_events TLongLong v = (case v of VLongLong x \<Rightarrow> [EInt64 x] | _ \<Rightarrow> [])"
| "prim_events TULongLong v = (case v of VULongLong x \<Rightarrow> [EUint64 x] | _ \<Rightarrow> [])"
| "prim_events TDouble v = (case v of VDouble d \<Rightarrow> [EDouble d] | _ \<Rightarrow> [])"
| "prim_events TString v = (case v of VString s \<Rightarrow> string_len s (length s) [] | _ \<Rightarrow> [])"
| "prim_events TJsonNull v = [ENull]"
| "prim_events (TVector _) v = []"
| "prim_events (TStruct _ _) v = []"

definition reflect_prim_W :: "ty \<Rightarrow> val \<Rightarrow> json_writer \<Rightarrow> (val \<times> json_writer) outcome" where
  "reflect_prim_W t v w = Ok (v, w @ prim_events t v)"

text \<open>\<^verbatim>\<open>for (auto &it : v) reflect(vis, it);\<close>\<close>

fun for_each_ref ::
  "(val \<Rightarrow> 's \<Rightarrow> (val \<times> 's) outcome) \<Rightarrow> val list \<Rightarrow> 's \<Rightarrow> (val list \<times> 's) outcome" where
  "for_each_ref f [] s = Ok ([], s)"
| "for_each_ref f (x # xs) s =
     (case f x s of
        Thrown e (x', s') \<Rightarrow> Thrown e (x' # xs, s')
      | Ok (x', s') \<Rightarrow> map_outcome (\<lambda>(xs', s''). (x' # xs', s'')) (for_each_ref f xs s'))"

definition reflect_vector_W ::
  "ty \<Rightarrow> (val \<Rightarrow> json_writer \<Rightarrow> (val \<times> json_writer) outcome) \<Rightarrow> val list \<Rightarrow> json_writer
   \<Rightarrow> (val list \<times> json_writer) outcome" where
  "reflect_vector_W t f xs w =
     on_ok (\<lambda>(ys, w'). (ys, endArray w')) (for_each_ref f xs (startArray w))"

definition reflectMemberStart_W :: "json_writer \<Rightarrow> json_writer outcome" where
  "reflectMemberStart_W w = Ok (startObject w)"

definition reflectMemberEnd_W :: "json_writer \<Rightarrow> json_writer outcome" where
  "reflectMemberEnd_W w = Ok (endObject w)"

definition reflectMember_W ::
  "string \<Rightarrow> (val \<Rightarrow> json_writer \<Rightarrow> (val \<times> json_writer) outcome) \<Rightarrow> val \<Rightarrow> json_writer
   \<Rightarrow> (val \<times> json_writer) outcome" where
  "reflectMember_W name f v w = f v (key name w)"

definition writer_vis :: "json_writer visitor" where
  "writer_vis =
     \<lparr>vis_prim = reflect_prim_W,
      vis_vector = reflect_vector_W,
      vis_member_start = reflectMemberStart_W,
      vis_member = reflectMember_W,
      vis_member_end = reflectMemberEnd_W\<rparr>"

abbreviation encode :: "ty \<Rightarrow> val \<Rightarrow> json_writer \<Rightarrow> (val \<times> json_writer) outcome" where
  "encode \<equiv> reflect writer_vis"

section \<open>Reference encoder and denoted document\<close>

fun emit :: "ty \<Rightarrow> val \<Rightarrow> event list"
and emit_members :: "(string \<times> ty) list \<Rightarrow> val list \<Rightarrow> event list" where
  "emit (TVector t) v = EStartArray # concat (map (emit t) (vector_elems v)) @ [EEndArray]"
| "emit (TStruct n fs) v = EStartObject # emit_members fs (struct_fields v) @ [EEndObject]"
| "emit t v = prim_events t v"
| "emit_members [] vs = []"
| "emit_members (f # fs) [] = []"
| "emit_members ((name, t) # fs) (v # vs) = EKey name # emit t v @ emit_members fs vs"

fun to_json :: "ty \<Rightarrow> val \<Rightarrow> jnode"
and to_json_members :: "(string \<times> ty) list \<Rightarrow> val list \<Rightarrow> (string \<times> jnode) list" where
  "to_json TBool v = (case v of VBool b \<Rightarrow> JBool b | _ \<Rightarrow> JNull)"
| "to_json TUChar v = (case v of VUChar x \<Rightarrow> JNumber (uint x) | _ \<Rightarrow> JNull)"
| "to_json TShort v = (case v of VShort x \<Rightarrow> JNumber (sint x) | _ \<Rightarrow> JNull)"
| "to_json TUShort v = (case v of VUShort x \<Rightarrow> JNumber (uint x) | _ \<Rightarrow> JNull)"
| "to_json TInt v = (case v of VInt x \<Rightarrow> JNumber (sint x) | _ \<Rightarrow> JNull)"
| "to_json TUInt v = (case v of VUInt x \<Rightarrow> JNumber (uint x) | _ \<Rightarrow> JNull)"
| "to_json TLong v = (case v of VLong x \<Rightarrow> JNumber (sint x) | _ \<Rightarrow> JNull)"
| "to_json TULong v = (case v of VULong x \<Rightarrow> JNumber (uint x) | _ \<Rightarrow> JNull)"
| "to_json TLongLong v = (case v of VLongLong x \<Rightarrow> JNumber (sint x) | _ \<Rightarrow> JNull)"
| "to_json TULongLong v = (case v of VULongLong x \<Rightarrow> JNumber (uint x) | _ \<Rightarrow> JNull)"
| "to_json TDouble v = (case v of VDouble d \<Rightarrow> JDouble d | _ \<Rightarrow> JNull)"
| "to_json TString v = (case v of VString s \<Rightarrow> JString s | _ \<Rightarrow> JNull)"
| "to_json TJsonNull v = JNull"
| "to_json (TVector t) v = JArray (map (to_json t) (vector_elems v))"
| "to_json (TStruct n fs) v = JObject (to_json_members fs (struct_fields v))"
| "to_json_members [] vs = []"
| "to_json_members (f # fs) [] = []"
| "to_json_members ((name, t) # fs) (v # vs) = (name, to_json t v) # to_json_members fs vs"

lemmas writer_defs [codec_defs] = reflect_prim_W_def reflect_vector_W_def
  reflectMemberStart_W_def reflectMemberEnd_W_def reflectMember_W_def startArray_def
  endArray_def startObject_def endObject_def key_def string_len_def

section \<open>The writer implements the reference encoder\<close>

lemma writer_vis_sel [simp]:
  "vis_prim writer_vis = reflect_prim_W"
  "vis_vector writer_vis = reflect_vector_W"
  "vis_member_start writer_vis = reflectMemberStart_W"
  "vis_member writer_vis = reflectMember_W"
  "vis_member_end writer_vis = reflectMemberEnd_W"
  by (simp_all add: writer_vis_def)

lemma for_each_ref_pure:
  "(\<And>x w. x \<in> set xs \<Longrightarrow> f x w = Ok (x, w @ g x)) \<Longrightarrow>
   for_each_ref f xs w = Ok (xs, w @ concat (map g xs))"
  by (induction xs arbitrary: w) auto

lemma encode_emit_members:
  "has_ty v t \<Longrightarrow> encode t v w = Ok (v, w @ emit t v)"
  "fields_have_ty vs fs \<Longrightarrow> reflect_members writer_vis fs vs w = Ok (vs, w @ emit_members fs vs)"
proof (induction writer_vis t v w and writer_vis fs vs w rule: reflect_reflect_members.induct)
  case (1 t v s)
  then obtain xs where v: "v = VVector xs" and "list_all (\<lambda>x. has_ty x t) xs"
    by (cases v) (auto simp: all_have_ty_iff)
  with 1 show ?case by (simp add: writer_defs for_each_ref_pure list_all_iff)
next
  case (2 n fs v s)
  then show ?case by (cases v) (simp_all add: writer_defs)
qed (auto simp: writer_defs split: val.splits)

text \<open>
  C2. Running the visitor-driven writer (\<^verbatim>\<open>reflect(JsonWriter&, T&)\<close>) on a
  well-typed value never throws, leaves the value unchanged, and appends exactly the
  events of the reference encoder: start and end events around arrays and objects, each
  field's key before its value, fields in declared order, elements in vector order.
\<close>

theorem encode_emit: "has_ty v t \<Longrightarrow> encode t v w = Ok (v, w @ emit t v)"
  by (rule encode_emit_members(1))

theorem encode_emit_witness:
  "has_ty (VStruct [VUChar 7]) (TStruct ''S'' [(''x'', TUChar)]) \<and>
   encode (TStruct ''S'' [(''x'', TUChar)]) (VStruct [VUChar 7]) [] =
     Ok (VStruct [VUChar 7], [EStartObject, EKey ''x'', EInt 7, EEndObject])"
  using encode_emit [of "VStruct [VUChar 7]" "TStruct ''S'' [(''x'', TUChar)]" "[]"] by simp

section \<open>The writer's output is the denoted document\<close>

lemma to_json_members_map2: "to_json_members fs vs = map2 (\<lambda>f v. (fst f, to_json (snd f) v)) fs vs"
proof (induction fs arbitrary: vs)
  case (Cons f fs)
  then show ?case by (cases vs; cases f) simp_all
qed simp

lemma emit_members_key_events:
  "emit_members fs vs = key_events (map (fst \<circ> fst) (zip fs vs)) (map2 (\<lambda>f v. emit (snd f) v) fs vs)"
proof (induction fs arbitrary: vs)
  case (Cons f fs)
  then show ?case by (cases vs; cases f) (simp_all add: key_events_def)
qed (simp add: key_events_def)

lemma emit_writes:
  "has_ty v t \<Longrightarrow> finite_doubles v \<Longrightarrow> writes (emit t v) (to_json t v)"
proof (induction t arbitrary: v)
  case (TVector t)
  then obtain xs where v: "v = VVector xs" and xs: "list_all (\<lambda>x. has_ty x t) xs" "list_all finite_doubles xs"
    by (cases v) (auto simp: all_have_ty_iff)
  with TVector.IH have "list_all2 writes (map (emit t) xs) (map (to_json t) xs)"
    by (auto simp: list_all2_map1 list_all2_map2 list_all_iff intro!: list.rel_refl_strong)
  with v show ?case by (auto intro: writes.array)
next
  case (TStruct n fs)
  then obtain vs where v: "v = VStruct vs" and vs: "fields_have_ty vs fs" "list_all finite_doubles vs"
    by (cases v) auto
  have "list_all2 writes (map2 (\<lambda>f v. emit (snd f) v) fs vs) (map snd (to_json_members fs vs))"
    unfolding to_json_members_map2 list_all2_conv_all_nth
  proof (intro conjI allI impI)
    fix i assume i: "i < length (map2 (\<lambda>f v. emit (snd f) v) fs vs)"
    have len: "length vs = length fs" using vs(1) by (rule fields_have_ty_length)
    with i have "fs ! i \<in> set fs" "vs ! i \<in> set vs" by auto
    moreover have "has_ty (vs ! i) (snd (fs ! i))" using vs(1) i len
      by (auto simp: fields_have_ty_iff list_all2_conv_all_nth)
    ultimately show "writes (map2 (\<lambda>f v. emit (snd f) v) fs vs ! i)
        (map snd (map2 (\<lambda>f v. (fst f, to_json (snd f) v)) fs vs) ! i)"
      using TStruct.IH [of "fs ! i" "snd (fs ! i)"] vs(2) i len by (simp add: list_all_iff snds.intros)
  qed simp
  moreover have "map (fst \<circ> fst) (zip fs vs) = map fst (to_json_members fs vs)"
    by (simp add: to_json_members_map2 case_prod_beta)
  ultimately show ?case using v by (auto simp: emit_members_key_events intro: writes.object)
qed (auto simp: string_len_def elim!: has_ty.elims intro!: writes.scalar)

lemma vector_elems_all_doubles: "all_doubles P v \<Longrightarrow> x \<in> set (vector_elems v) \<Longrightarrow> all_doubles P x"
  by (cases v) (auto simp: list_all_iff)

lemma struct_fields_all_doubles: "all_doubles P v \<Longrightarrow> list_all (all_doubles P) (struct_fields v)"
  by (cases v) auto

lemma emit_all_doubles:
  "all_doubles P v \<Longrightarrow> EDouble d \<in> set (emit t v) \<Longrightarrow> P d"
  "list_all (all_doubles P) vs \<Longrightarrow> EDouble d \<in> set (emit_members fs vs) \<Longrightarrow> P d"
  by (induction t v and fs vs rule: emit_emit_members.induct)
    (auto simp: struct_fields_all_doubles string_len_def dest: vector_elems_all_doubles split: val.splits)

end
