(* ===== verification/Roundtrip.thy ===== *)
theory Roundtrip
  imports Reader Writer
begin

text \<open>
  The reader against the writer's reference: decoding the document a value denotes
  (\<open>to_json\<close>) into a value-initialised object of its type rebuilds the value and
  leaves the reader as it was. The lemmas follow the traversal: \<open>iter_entries_decode\<close>
  for the array loop of \<^verbatim>\<open>iterArray\<close>, \<open>members_decode\<close> for the member sequence of
  a structure (each \<^verbatim>\<open>FindMember\<close> finds the field's own entry, since declared names
  are distinct), and \<open>decode_to_json\<close> by induction on the declared type.

  Decoding into an object that already holds data is described by \<open>refill w v\<close>:
  every scalar of \<open>w\<close> is replaced by the one of \<open>v\<close>, every structure is
  refilled field by field, and every vector keeps its elements and gets those of
  \<open>v\<close> appended, since \<^verbatim>\<open>emplace_back\<close> never clears it.
\<close>

fun refill :: "val \<Rightarrow> val \<Rightarrow> val"
and refill_list :: "val list \<Rightarrow> val list \<Rightarrow> val list" where
  "refill (VVector ys) (VVector xs) = VVector (ys @ xs)"
| "refill (VStruct ws) (VStruct vs) = VStruct (refill_list ws vs)"
| "refill w v = v"
| "refill_list (w # ws) (v # vs) = refill w v # refill_list ws vs"
| "refill_list _ _ = []"

fun vector_free :: "ty \<Rightarrow> bool" where
  "vector_free (TVector _) = False"
| "vector_free (TStruct _ fs) = list_all (\<lambda>f. vector_free (snd f)) fs"
| "vector_free _ = True"

lemma iter_entries_decode:
  "(\<forall>x\<in>set xs. \<forall>vis. decode t (default_val t) (vis\<lparr>m := to_json t x\<rparr>) = Ok (x, vis\<lparr>m := to_json t x\<rparr>)) \<Longrightarrow>
   iter_entries (\<lambda>ys vis'. map_outcome (\<lambda>(y, vis''). (ys @ [y], vis'')) (decode t (default_val t) vis'))
     (map (to_json t) xs) ys vis = Ok (ys @ xs, vis)"
  by (induction xs arbitrary: ys) simp_all

lemma map_of_to_json_members:
  "distinct (map fst fs) \<Longrightarrow> fields_have_ty vs fs \<Longrightarrow> (u, f) \<in> set (zip vs fs) \<Longrightarrow>
   map_of (to_json_members fs vs) (fst f) = Some (to_json (snd f) u)"
proof (induction fs arbitrary: vs)
  case Nil
  then show ?case by simp
next
  case (Cons g fs)
  obtain n t where g: "g = (n, t)" by fastforce
  from Cons.prems(2) obtain u0 us where vs: "vs = u0 # us" and us: "fields_have_ty us fs"
    by (cases vs) auto
  show ?case
  proof (cases "(u, f) = (u0, g)")
    case True
    with vs g show ?thesis by simp
  next
    case False
    with Cons.prems(3) vs have uf: "(u, f) \<in> set (zip us fs)" by auto
    with Cons.prems(1) g have "fst f \<noteq> n" by (auto dest: set_zip_rightD)
    with Cons.IH [of us] Cons.prems(1) us uf vs g show ?thesis by simp
  qed
qed

lemma members_decode:
  "fields_have_ty us gs \<Longrightarrow>
   \<forall>(u, f) \<in> set (zip us gs). map_of kvs (fst f) = Some (to_json (snd f) u) \<and>
     (\<forall>vis. decode (snd f) (default_val (snd f)) (vis\<lparr>m := to_json (snd f) u\<rparr>) =
        Ok (u, vis\<lparr>m := to_json (snd f) u\<rparr>)) \<Longrightarrow>
   m vis = JObject kvs \<Longrightarrow>
   reflect_members reader_vis gs (map (\<lambda>f. default_val (snd f)) gs) vis = Ok (us, vis)"
proof (induction gs arbitrary: us)
  case Nil
  then show ?case by (cases us) simp_all
next
  case (Cons g gs)
  obtain n t where g: "g = (n, t)" by fastforce
  from Cons.prems(1) obtain u us' where us: "us = u # us'" and us': "fields_have_ty us' gs"
    by (cases us) auto
  from Cons.prems(2) us g have hd: "map_of kvs n = Some (to_json t u)"
    and dec: "\<And>vis. decode t (default_val t) (vis\<lparr>m := to_json t u\<rparr>) = Ok (u, vis\<lparr>m := to_json t u\<rparr>)"
    by auto
  have mem: "member n (decode t) (default_val t) vis = Ok (u, vis)"
    using hd dec Cons.prems(3) by (simp add: member_def)
  have "reflect_members reader_vis gs (map (\<lambda>f. default_val (snd f)) gs) vis = Ok (us', vis)"
    using Cons.IH us' Cons.prems(2,3) us by simp
  with mem g us show ?case by (simp add: reflectMember_R_def)
qed

lemma decode_to_json:
  "wf_ty t \<Longrightarrow> has_ty v t \<Longrightarrow> nul_free v \<Longrightarrow>
   decode t (default_val t) (vis\<lparr>m := to_json t v\<rparr>) = Ok (v, vis\<lparr>m := to_json t v\<rparr>)"
proof (induction t arbitrary: v vis)
  case (TVector t)
  then obtain xs where v: "v = VVector xs" and xs: "list_all (\<lambda>x. has_ty x t) xs" "list_all nul_free xs"
    by (cases v) (auto simp: all_have_ty_iff)
  with TVector have "\<forall>x\<in>set xs. \<forall>vis. decode t (default_val t) (vis\<lparr>m := to_json t x\<rparr>) = Ok (x, vis\<lparr>m := to_json t x\<rparr>)"
    by (simp add: list_all_iff)
  with v show ?case by (simp add: reader_defs iter_entries_decode del: iter_entries.simps)
next
  case (TStruct n fs)
  then obtain vs where v: "v = VStruct vs" and vs: "fields_have_ty vs fs" "list_all nul_free vs"
    by (cases v) auto
  have "\<forall>(u, f) \<in> set (zip vs fs). map_of (to_json_members fs vs) (fst f) = Some (to_json (snd f) u) \<and>
     (\<forall>vis. decode (snd f) (default_val (snd f)) (vis\<lparr>m := to_json (snd f) u\<rparr>) =
        Ok (u, vis\<lparr>m := to_json (snd f) u\<rparr>))"
  proof (clarify)
    fix u f assume uf: "(u, f) \<in> set (zip vs fs)"
    from TStruct.prems(1) vs uf have key: "map_of (to_json_members fs vs) (fst f) = Some (to_json (snd f) u)"
      by (intro map_of_to_json_members) simp_all
    have f: "f \<in> set fs" and u: "u \<in> set vs" using uf by (auto dest: set_zip_leftD set_zip_rightD)
    have ty: "has_ty u (snd f)" using uf vs(1) by (auto simp: fields_have_ty_iff list_all2_iff)
    have sf: "snd f \<in> Basic_BNFs.snds f" by (rule snds.intros)
    have wf: "wf_ty (snd f)" using TStruct.prems(1) f by (auto simp: list_all_iff)
    have nf: "nul_free u" using vs(2) u by (simp add: list_all_iff)
    have "\<forall>vis. decode (snd f) (default_val (snd f)) (vis\<lparr>m := to_json (snd f) u\<rparr>) =
        Ok (u, vis\<lparr>m := to_json (snd f) u\<rparr>)"
      using TStruct.IH [OF f sf wf ty nf] by blast
    with key show "map_of (to_json_members fs vs) (fst f) = Some (to_json (snd f) u) \<and>
     (\<forall>vis. decode (snd f) (default_val (snd f)) (vis\<lparr>m := to_json (snd f) u\<rparr>) =
        Ok (u, vis\<lparr>m := to_json (snd f) u\<rparr>))" by simp
  qed
  with vs v show ?case
    by (simp add: members_decode reflectMemberStart_R_def reflectMemberEnd_R_def)
qed (auto simp: reader_defs word_bounds elim!: has_ty.elims)

section \<open>Decoding into an object that holds data\<close>

lemma refill_default: "has_ty v t \<Longrightarrow> refill (default_val t) v = v"
proof (induction t arbitrary: v)
  case (TStruct n fs)
  then obtain vs where v: "v = VStruct vs" and vs: "list_all2 (\<lambda>v f. has_ty v (snd f)) vs fs"
    by (cases v) (auto simp: fields_have_ty_iff)
  have IH': "\<forall>f\<in>set fs. \<forall>v. has_ty v (snd f) \<longrightarrow> refill (default_val (snd f)) v = v"
  proof (intro ballI allI impI)
    fix f v assume "f \<in> set fs" "has_ty v (snd f)"
    then show "refill (default_val (snd f)) v = v" using TStruct.IH [of f "snd f" v] by (simp add: snds.intros)
  qed
  have "refill_list (map (\<lambda>f. default_val (snd f)) fs) vs = vs"
    using vs IH' by (induction vs fs rule: list_all2_induct) auto
  then show ?case using v by simp
qed (auto elim!: has_ty.elims)

lemma refill_vector_free: "vector_free t \<Longrightarrow> has_ty w t \<Longrightarrow> has_ty v t \<Longrightarrow> refill w v = v"
proof (induction t arbitrary: v w)
  case (TStruct n fs)
  then obtain vs ws where v: "v = VStruct vs" and w: "w = VStruct ws"
      and vs: "list_all2 (\<lambda>v f. has_ty v (snd f)) vs fs" and ws: "list_all2 (\<lambda>v f. has_ty v (snd f)) ws fs"
    by (cases v; cases w) (auto simp: fields_have_ty_iff)
  have IH': "\<forall>f\<in>set fs. \<forall>w v. has_ty w (snd f) \<longrightarrow> has_ty v (snd f) \<longrightarrow> refill w v = v"
  proof (intro ballI allI impI)
    fix f w v assume "f \<in> set fs" "has_ty w (snd f)" "has_ty v (snd f)"
    moreover have "vector_free (snd f)" using TStruct.prems(1) \<open>f \<in> set fs\<close> by (simp add: list_all_iff)
    ultimately show "refill w v = v" using TStruct.IH [of f "snd f" w v] by (simp add: snds.intros)
  qed
  have "refill_list ws vs = vs"
    using ws vs IH'
  proof (induction ws fs arbitrary: vs rule: list_all2_induct)
    case (Cons w1 f ws fs)
    then obtain v1 vs' where "vs = v1 # vs'" by (cases vs) auto
    with Cons show ?case by auto
  qed simp
  then show ?case using v w by simp
qed (auto elim!: has_ty.elims)

lemma members_decode_into:
  "fields_have_ty us gs \<Longrightarrow> fields_have_ty ws gs \<Longrightarrow>
   \<forall>(u, f) \<in> set (zip us gs). map_of kvs (fst f) = Some (to_json (snd f) u) \<and>
     (\<forall>w vis. has_ty w (snd f) \<longrightarrow> decode (snd f) w (vis\<lparr>m := to_json (snd f) u\<rparr>) =
        Ok (refill w u, vis\<lparr>m := to_json (snd f) u\<rparr>)) \<Longrightarrow>
   m vis = JObject kvs \<Longrightarrow>
   reflect_members reader_vis gs ws vis = Ok (refill_list ws us, vis)"
proof (induction gs arbitrary: us ws)
  case Nil
  then show ?case by (cases us; cases ws) simp_all
next
  case (Cons g gs)
  obtain n t where g: "g = (n, t)" by fastforce
  from Cons.prems(1) obtain u us' where us: "us = u # us'" and us': "fields_have_ty us' gs"
    by (cases us) auto
  from Cons.prems(2) obtain w ws' where ws: "ws = w # ws'" and ws': "fields_have_ty ws' gs" and wt: "has_ty w t"
    using g by (cases ws) auto
  from Cons.prems(3) us g have hd: "map_of kvs n = Some (to_json t u)"
    and dec: "\<And>vis. decode t w (vis\<lparr>m := to_json t u\<rparr>) = Ok (refill w u, vis\<lparr>m := to_json t u\<rparr>)"
    using wt by auto
  have mem: "member n (decode t) w vis = Ok (refill w u, vis)"
    using hd dec Cons.prems(4) by (simp add: member_def)
  have "reflect_members reader_vis gs ws' vis = Ok (refill_list ws' us', vis)"
    using Cons.IH us' ws' Cons.prems(3,4) us by simp
  with mem g us ws show ?case by (simp add: reflectMember_R_def)
qed

text \<open>
  C10. Decoding a complete document into an object that already holds data: for a
  well-formed declaration, a value \<open>v\<close> with no zero byte and any object \<open>w\<close> of
  the type, reading \<open>to_json t v\<close> into \<open>w\<close> returns normally with
  \<open>refill w v\<close>: every scalar overwritten, and every vector of \<open>w\<close> extended by
  the elements of \<open>v\<close> rather than replaced. With no vector in the type, the prior
  object does not matter at all.
\<close>

theorem decode_into_existing:
  "wf_ty t \<Longrightarrow> has_ty v t \<Longrightarrow> has_ty w t \<Longrightarrow> nul_free v \<Longrightarrow>
   decode t w (vis\<lparr>m := to_json t v\<rparr>) = Ok (refill w v, vis\<lparr>m := to_json t v\<rparr>)"
proof (induction t arbitrary: v w vis)
  case (TVector t)
  then obtain xs ys where v: "v = VVector xs" and w: "w = VVector ys"
      and xs: "list_all (\<lambda>x. has_ty x t) xs" "list_all nul_free xs"
    by (cases v; cases w) (auto simp: all_have_ty_iff)
  with TVector have "\<forall>x\<in>set xs. \<forall>vis. decode t (default_val t) (vis\<lparr>m := to_json t x\<rparr>) = Ok (x, vis\<lparr>m := to_json t x\<rparr>)"
    by (simp add: list_all_iff refill_default)
  with v w show ?case by (simp add: reader_defs iter_entries_decode del: iter_entries.simps)
next
  case (TStruct n fs)
  then obtain vs ws where v: "v = VStruct vs" and w: "w = VStruct ws"
      and vs: "fields_have_ty vs fs" "list_all nul_free vs" and ws: "fields_have_ty ws fs"
    by (cases v; cases w) auto
  have "\<forall>(u, f) \<in> set (zip vs fs). map_of (to_json_members fs vs) (fst f) = Some (to_json (snd f) u) \<and>
     (\<forall>w vis. has_ty w (snd f) \<longrightarrow> decode (snd f) w (vis\<lparr>m := to_json (snd f) u\<rparr>) =
        Ok (refill w u, vis\<lparr>m := to_json (snd f) u\<rparr>))"
  proof (clarify)
    fix u f assume uf: "(u, f) \<in> set (zip vs fs)"
    from TStruct.prems(1) vs uf have key: "map_of (to_json_members fs vs) (fst f) = Some (to_json (snd f) u)"
      by (intro map_of_to_json_members) simp_all
    have f: "f \<in> set fs" and u: "u \<in> set vs" using uf by (auto dest: set_zip_leftD set_zip_rightD)
    have ty: "has_ty u (snd f)" using uf vs(1) by (auto simp: fields_have_ty_iff list_all2_iff)
    have wf: "wf_ty (snd f)" using TStruct.prems(1) f by (auto simp: list_all_iff)
    have nf: "nul_free u" using vs(2) u by (simp add: list_all_iff)
    show "map_of (to_json_members fs vs) (fst f) = Some (to_json (snd f) u) \<and>
     (\<forall>w vis. has_ty w (snd f) \<longrightarrow> decode (snd f) w (vis\<lparr>m := to_json (snd f) u\<rparr>) =
        Ok (refill w u, vis\<lparr>m := to_json (snd f) u\<rparr>))"
      using key TStruct.IH [OF f snds.intros wf ty _ nf] by blast
  qed
  with vs ws v w show ?case
    by (simp add: members_decode_into reflectMemberStart_R_def reflectMemberEnd_R_def)
qed (auto simp: reader_defs word_bounds elim!: has_ty.elims)

theorem decode_into_existing_witness:
  "wf_ty (TStruct ''S'' [(''n'', TInt), (''xs'', TVector TBool)]) \<and>
   has_ty (VStruct [VInt 2, VVector [VBool False]]) (TStruct ''S'' [(''n'', TInt), (''xs'', TVector TBool)]) \<and>
   has_ty (VStruct [VInt 7, VVector [VBool True]]) (TStruct ''S'' [(''n'', TInt), (''xs'', TVector TBool)]) \<and>
   nul_free (VStruct [VInt 2, VVector [VBool False]]) \<and>
   decode (TStruct ''S'' [(''n'', TInt), (''xs'', TVector TBool)]) (VStruct [VInt 7, VVector [VBool True]])
     (\<lparr>m = JNull, path = []\<rparr>\<lparr>m := to_json (TStruct ''S'' [(''n'', TInt), (''xs'', TVector TBool)]) (VStruct [VInt 2, VVector [VBool False]])\<rparr>) =
   Ok (VStruct [VInt 2, VVector [VBool True, VBool False]],
       \<lparr>m = JNull, path = []\<rparr>\<lparr>m := to_json (TStruct ''S'' [(''n'', TInt), (''xs'', TVector TBool)]) (VStruct [VInt 2, VVector [VBool False]])\<rparr>)"
proof -
  have h: "wf_ty (TStruct ''S'' [(''n'', TInt), (''xs'', TVector TBool)])"
    "has_ty (VStruct [VInt 2, VVector [VBool False]]) (TStruct ''S'' [(''n'', TInt), (''xs'', TVector TBool)])"
    "has_ty (VStruct [VInt 7, VVector [VBool True]]) (TStruct ''S'' [(''n'', TInt), (''xs'', TVector TBool)])"
    "nul_free (VStruct [VInt 2, VVector [VBool False]])"
    by simp_all
  show ?thesis using h decode_into_existing [OF h, of "\<lparr>m = JNull, path = []\<rparr>"] by simp
qed

end
