(* ===== verification/Text_Writer.thy ===== *)
theory Text_Writer
  imports Document
begin

text \<open>
  The text \<^verbatim>\<open>rapidjson::Writer<StringBuffer>\<close> produces from the handler calls it
  receives (rapidjson 1.1, write flags 0, UTF-8 to UTF-8). The library and the tests
  only see this text through \<^verbatim>\<open>StringBuffer::GetString()\<close>. The writer is not part of
  the repository, so this theory models it from its documented behaviour. The
  state \<open>text_writer\<close> is the output buffer \<open>os\<close>, the stack of open levels
  (\<open>valueCount\<close> and \<open>inArray\<close> of each, innermost first) and the flag
  \<open>hasRoot\<close>. \<open>Prefix\<close> writes the separator before a value: a comma between
  array elements and between members, a colon between a key and its value.
  \<^verbatim>\<open>RAPIDJSON_ASSERT\<close> is \<^verbatim>\<open>assert\<close> in the test build, so a failed assertion
  is the value \<open>None\<close>. Numbers are printed in decimal, strings with the escape table
  of \<^verbatim>\<open>WriteString\<close>. Digits of a double are the Grisu2 output of
  \<^verbatim>\<open>internal::dtoa\<close>, which is not modelled: the handler takes it as a parameter
  \<open>dtoa\<close>. A non-finite double writes nothing after its separator, since
  \<^verbatim>\<open>WriteDouble\<close> returns false.
\<close>

section \<open>Writer state\<close>

record text_writer =
  os :: string
  level_stack :: "(nat \<times> bool) list"
  hasRoot :: bool

definition writer_init :: text_writer where
  "writer_init = \<lparr>os = [], level_stack = [], hasRoot = False\<rparr>"

definition put_str :: "string \<Rightarrow> text_writer \<Rightarrow> text_writer" where
  "put_str s w = w\<lparr>os := os w @ s\<rparr>"

text \<open>
  \<^verbatim>\<open>Writer::Prefix(Type)\<close>; the argument says whether the value is a string, the only
  type allowed at an even position of an object (a key).
\<close>

definition Prefix :: "bool \<Rightarrow> text_writer \<Rightarrow> text_writer option" where
  "Prefix is_string w =
     (case level_stack w of
        [] \<Rightarrow> if hasRoot w then None else Some (w\<lparr>hasRoot := True\<rparr>)
      | (valueCount, inArray) # ls \<Rightarrow>
          (let w1 = (if 0 < valueCount
                     then put_str [if inArray then CHR '','' else if valueCount mod 2 = 0 then CHR '','' else CHR '':''] w
                     else w)
           in if \<not> inArray \<and> valueCount mod 2 = 0 \<and> \<not> is_string then None
              else Some (w1\<lparr>level_stack := (Suc valueCount, inArray) # ls\<rparr>)))"

section \<open>Number and string formatting\<close>

text \<open>\<^verbatim>\<open>internal::u64toa\<close>: decimal digits, most significant first.\<close>

fun digits_nat :: "nat \<Rightarrow> string" where
  "digits_nat n =
     (if n < 10 then [char_of (48 + n)] else digits_nat (n div 10) @ [char_of (48 + n mod 10)])"

declare digits_nat.simps [simp del]

text \<open>\<^verbatim>\<open>internal::i32toa\<close> and \<^verbatim>\<open>i64toa\<close>: a minus sign, then the digits of the magnitude.\<close>

definition int_text :: "int \<Rightarrow> string" where
  "int_text i = (if i < 0 then CHR ''-'' # digits_nat (nat (- i)) else digits_nat (nat i))"

definition WriteInt :: "32 word \<Rightarrow> string" where
  "WriteInt i = int_text (sint i)"

definition WriteInt64 :: "64 word \<Rightarrow> string" where
  "WriteInt64 i = int_text (sint i)"

definition WriteUint64 :: "64 word \<Rightarrow> string" where
  "WriteUint64 u = digits_nat (unat u)"

definition hexDigits :: string where
  "hexDigits = ''0123456789ABCDEF''"

text \<open>
  The \<^verbatim>\<open>escape\<close> table of \<^verbatim>\<open>WriteString\<close>: control characters get a short escape
  where JSON has one and \<^verbatim>\<open>\u00XX\<close> otherwise; the quote and the backslash are
  escaped; every other byte is copied.
\<close>

definition escape :: "char \<Rightarrow> char option" where
  "escape c =
     (let n = (of_char c :: nat) in
      if n < 32 then
        Some (if n = 8 then CHR ''b'' else if n = 9 then CHR ''t'' else if n = 10 then CHR ''n''
              else if n = 12 then CHR ''f'' else if n = 13 then CHR ''r'' else CHR ''u'')
      else if c = CHR 0x22 then Some (CHR 0x22)
      else if c = CHR 0x5C then Some (CHR 0x5C)
      else None)"

definition write_char :: "char \<Rightarrow> string" where
  "write_char c =
     (case escape c of
        None \<Rightarrow> [c]
      | Some e \<Rightarrow>
          CHR 0x5C # e #
            (if e = CHR ''u'' then [CHR ''0'', CHR ''0'', hexDigits ! (of_char c div 16), hexDigits ! (of_char c mod 16)]
             else []))"

definition WriteString :: "string \<Rightarrow> string" where
  "WriteString s = CHR 0x22 # concat (map write_char s) @ [CHR 0x22]"

section \<open>Handlers\<close>

text \<open>A scalar handler: \<^verbatim>\<open>Prefix\<close>, then the value's text.\<close>

definition scalar_out :: "bool \<Rightarrow> string \<Rightarrow> text_writer \<Rightarrow> text_writer option" where
  "scalar_out is_string txt w = map_option (put_str txt) (Prefix is_string w)"

text \<open>
  \<^verbatim>\<open>EndObject\<close> and \<^verbatim>\<open>EndArray\<close> assert that a level is open and that the
  innermost one is of their kind, pop it and close it. rapidjson 1.1 does not assert
  that no key waits for its value (later releases do).
\<close>

definition end_level :: "bool \<Rightarrow> char \<Rightarrow> text_writer \<Rightarrow> text_writer option" where
  "end_level in_array close w =
     (case level_stack w of
        [] \<Rightarrow> None
      | (valueCount, inArray) # ls \<Rightarrow>
          if inArray \<noteq> in_array then None
          else Some (put_str [close] (w\<lparr>level_stack := ls\<rparr>)))"

definition start_level :: "bool \<Rightarrow> char \<Rightarrow> text_writer \<Rightarrow> text_writer option" where
  "start_level in_array open w =
     map_option (\<lambda>w'. put_str [open] (w'\<lparr>level_stack := (0, in_array) # level_stack w'\<rparr>)) (Prefix False w)"

fun put_event :: "(double \<Rightarrow> string) \<Rightarrow> event \<Rightarrow> text_writer \<Rightarrow> text_writer option" where
  "put_event dtoa ENull w = scalar_out False ''null'' w"
| "put_event dtoa (EBool b) w = scalar_out False (if b then ''true'' else ''false'') w"
| "put_event dtoa (EInt i) w = scalar_out False (WriteInt i) w"
| "put_event dtoa (EInt64 i) w = scalar_out False (WriteInt64 i) w"
| "put_event dtoa (EUint64 u) w = scalar_out False (WriteUint64 u) w"
| "put_event dtoa (EDouble d) w = scalar_out False (if is_finite_double d then dtoa d else []) w"
| "put_event dtoa (EString s) w = scalar_out True (WriteString s) w"
| "put_event dtoa (EKey s) w = scalar_out True (WriteString s) w"
| "put_event dtoa EStartObject w = start_level False CHR ''{'' w"
| "put_event dtoa EEndObject w = end_level False CHR ''}'' w"
| "put_event dtoa EStartArray w = start_level True CHR ''['' w"
| "put_event dtoa EEndArray w = end_level True CHR '']'' w"

fun put_events :: "(double \<Rightarrow> string) \<Rightarrow> event list \<Rightarrow> text_writer \<Rightarrow> text_writer option" where
  "put_events dtoa [] w = Some w"
| "put_events dtoa (e # es) w =
     (case put_event dtoa e w of None \<Rightarrow> None | Some w' \<Rightarrow> put_events dtoa es w')"

text \<open>The buffer's contents after the calls, or \<open>None\<close> if an assertion failed.\<close>

definition render :: "(double \<Rightarrow> string) \<Rightarrow> event list \<Rightarrow> string option" where
  "render dtoa es = map_option os (put_events dtoa es writer_init)"

text \<open>
  \<^verbatim>\<open>Writer::IsComplete\<close>: the root value has been written and every object and
  array opened has been closed.
\<close>

definition IsComplete :: "text_writer \<Rightarrow> bool" where
  "IsComplete w \<longleftrightarrow> hasRoot w \<and> level_stack w = []"


section \<open>The text of a document\<close>

text \<open>
  The text the writer produces for a document: no whitespace, members and elements in
  order, separated by commas. \<open>is_jstring\<close> tells whether a document is text, which
  is what \<^verbatim>\<open>Prefix\<close> is told about a value.
\<close>

fun value_text :: "(double \<Rightarrow> string) \<Rightarrow> jnode \<Rightarrow> string"
and members_text :: "(double \<Rightarrow> string) \<Rightarrow> (string \<times> jnode) list \<Rightarrow> string"
and elems_text :: "(double \<Rightarrow> string) \<Rightarrow> jnode list \<Rightarrow> string" where
  "value_text dtoa JNull = ''null''"
| "value_text dtoa (JBool b) = (if b then ''true'' else ''false'')"
| "value_text dtoa (JNumber n) = int_text n"
| "value_text dtoa (JDouble d) = dtoa d"
| "value_text dtoa (JString s) = WriteString s"
| "value_text dtoa (JArray js) = CHR ''['' # elems_text dtoa js @ [CHR '']'']"
| "value_text dtoa (JObject kvs) = CHR ''{'' # members_text dtoa kvs @ [CHR ''}'']"
| "members_text dtoa [] = []"
| "members_text dtoa ((k, j) # kvs) =
     WriteString k @ CHR '':'' # value_text dtoa j @ (if kvs = [] then [] else CHR '','' # members_text dtoa kvs)"
| "elems_text dtoa [] = []"
| "elems_text dtoa (j # js) = value_text dtoa j @ (if js = [] then [] else CHR '','' # elems_text dtoa js)"

fun is_jstring :: "jnode \<Rightarrow> bool" where
  "is_jstring (JString _) = True"
| "is_jstring _ = False"

end
