(* ===== verification/Text_Reader.thy ===== *)
theory Text_Reader
  imports Document
begin

text \<open>
  The text parser \<^verbatim>\<open>rapidjson::Document::Parse(const char*)\<close> (rapidjson 1.1,
  default flags: no comments, no trailing commas, no encoding validation, normal number
  precision). The tests parse their format strings with it. rapidjson is not part of
  the repository, so this theory models it from its documented behaviour. The input
  is a C string, read up to its terminator (\<open>c_str\<close>); the end of input reads as
  \<^verbatim>\<open>'\0'\<close>. \<open>parse_json\<close>, \<open>parse_members\<close> and \<open>parse_elems\<close> follow
  \<^verbatim>\<open>ParseValue\<close>, \<^verbatim>\<open>ParseObject\<close> and \<^verbatim>\<open>ParseArray\<close>. Each returns the node
  and the rest of the input, or the rapidjson error code (\<open>Inl\<close>). The recursion
  carries fuel. Of two nested calls at least one consumes a character (\<open>parse_elems\<close>
  hands its input to \<open>parse_json\<close> unchanged), so twice the input's length plus
  two is enough (\<open>parse_text_fuel\<close> in theory \<open>Text_Roundtrip\<close>). \<open>OutOfFuel\<close> is
  not a rapidjson code; it shows up only if the fuel runs out.

  Strings are copied byte by byte, with escapes decoded and \<^verbatim>\<open>\uXXXX\<close> (and a
  surrogate pair) encoded as UTF-8. The number model keeps rapidjson's outcome but not
  its algorithm: a literal without fraction or exponent whose value fits
  \<^verbatim>\<open>int64_t\<close> (when negative) or \<^verbatim>\<open>uint64_t\<close> is stored as that integer, and any
  other literal as a double. The conversion to a double (\<^verbatim>\<open>StrtodNormalPrecision\<close>)
  is a parameter \<open>strtod\<close> applied to the literal's text. Of the two places
  rapidjson raises \<^verbatim>\<open>kParseErrorNumberTooBig\<close>, the integer part beyond the double
  range is modelled (\<open>int_too_big\<close>); the positive exponent beyond
  \<open>308\<close> plus the fraction's significant digits is not, as it depends on the digit
  counting of the double path that \<open>strtod\<close> abstracts.
\<close>

datatype parse_error =
    kParseErrorDocumentEmpty
  | kParseErrorDocumentRootNotSingular
  | kParseErrorValueInvalid
  | kParseErrorObjectMissName
  | kParseErrorObjectMissColon
  | kParseErrorObjectMissCommaOrCurlyBracket
  | kParseErrorArrayMissCommaOrSquareBracket
  | kParseErrorStringUnicodeEscapeInvalidHex
  | kParseErrorStringUnicodeSurrogateInvalid
  | kParseErrorStringEscapeInvalid
  | kParseErrorStringMissQuotationMark
  | kParseErrorStringInvalidEncoding
  | kParseErrorNumberTooBig
  | kParseErrorNumberMissFraction
  | kParseErrorNumberMissExponent
  | OutOfFuel

section \<open>Characters\<close>

text \<open>\<^verbatim>\<open>SkipWhitespace\<close>: space, line feed, carriage return, tab.\<close>

definition is_ws :: "char \<Rightarrow> bool" where
  "is_ws c \<longleftrightarrow> c = CHR '' '' \<or> c = CHR 0x0A \<or> c = CHR 0x0D \<or> c = CHR 0x09"

definition skip_ws :: "string \<Rightarrow> string" where
  "skip_ws s = dropWhile is_ws s"

definition is_digit :: "char \<Rightarrow> bool" where
  "is_digit c \<longleftrightarrow> 48 \<le> (of_char c :: nat) \<and> (of_char c :: nat) \<le> 57"

definition digit_val :: "char \<Rightarrow> nat" where
  "digit_val c = of_char c - 48"

definition digits_value :: "string \<Rightarrow> nat" where
  "digits_value ds = foldl (\<lambda>a c. 10 * a + digit_val c) 0 ds"

definition hex_val :: "char \<Rightarrow> nat option" where
  "hex_val c =
     (let n = (of_char c :: nat) in
      if 48 \<le> n \<and> n \<le> 57 then Some (n - 48)
      else if 65 \<le> n \<and> n \<le> 70 then Some (n - 55)
      else if 97 \<le> n \<and> n \<le> 102 then Some (n - 87)
      else None)"

text \<open>\<^verbatim>\<open>ParseHex4\<close>: exactly four hexadecimal digits.\<close>

fun parse_hex4 :: "string \<Rightarrow> (nat \<times> string) option" where
  "parse_hex4 (a # b # c # d # rest) =
     (case (hex_val a, hex_val b, hex_val c, hex_val d) of
        (Some x, Some y, Some z, Some u) \<Rightarrow> Some (((x * 16 + y) * 16 + z) * 16 + u, rest)
      | _ \<Rightarrow> None)"
| "parse_hex4 _ = None"

text \<open>\<^verbatim>\<open>UTF8::Encode\<close> of a code point.\<close>

definition utf8_encode :: "nat \<Rightarrow> string" where
  "utf8_encode cp =
     (if cp \<le> 0x7F then [char_of cp]
      else if cp \<le> 0x7FF then [char_of (0xC0 + cp div 64), char_of (0x80 + cp mod 64)]
      else if cp \<le> 0xFFFF then
        [char_of (0xE0 + cp div 4096), char_of (0x80 + cp div 64 mod 64), char_of (0x80 + cp mod 64)]
      else [char_of (0xF0 + cp div 262144), char_of (0x80 + cp div 4096 mod 64),
            char_of (0x80 + cp div 64 mod 64), char_of (0x80 + cp mod 64)])"

text \<open>The reader's escape table: the character a simple escape \<^verbatim>\<open>\c\<close> stands for.\<close>

definition unescape :: "char \<Rightarrow> char option" where
  "unescape e =
     (if e = CHR 0x22 then Some (CHR 0x22)
      else if e = CHR ''/'' then Some (CHR ''/'')
      else if e = CHR 0x5C then Some (CHR 0x5C)
      else if e = CHR ''b'' then Some (CHR 0x08)
      else if e = CHR ''f'' then Some (CHR 0x0C)
      else if e = CHR ''n'' then Some (CHR 0x0A)
      else if e = CHR ''r'' then Some (CHR 0x0D)
      else if e = CHR ''t'' then Some (CHR 0x09)
      else None)"

section \<open>Strings\<close>

definition prepend :: "string \<Rightarrow> parse_error + (string \<times> string) \<Rightarrow> parse_error + (string \<times> string)" where
  "prepend p r = map_sum id (\<lambda>(s, rest). (p @ s, rest)) r"

text \<open>
  \<^verbatim>\<open>ParseStringToStream\<close> after the opening quote: up to the closing quote, with the
  text decoded and the rest of the input.
\<close>

function parse_chars :: "string \<Rightarrow> parse_error + (string \<times> string)" where
  "parse_chars [] = Inl kParseErrorStringMissQuotationMark"
| "parse_chars (c # s) =
     (if c = CHR 0x22 then Inr ([], s)
      else if c = CHR 0x5C then
        (case s of
           [] \<Rightarrow> Inl kParseErrorStringEscapeInvalid
         | e # s' \<Rightarrow>
             (case unescape e of
                Some u \<Rightarrow> prepend [u] (parse_chars s')
              | None \<Rightarrow>
                  if e \<noteq> CHR ''u'' then Inl kParseErrorStringEscapeInvalid
                  else
                    (case parse_hex4 s' of
                       None \<Rightarrow> Inl kParseErrorStringUnicodeEscapeInvalidHex
                     | Some (cp, s'') \<Rightarrow>
                         if 0xD800 \<le> cp \<and> cp \<le> 0xDBFF then
                           (case s'' of
                              b # u # s3 \<Rightarrow>
                                if b = CHR 0x5C \<and> u = CHR ''u'' then
                                  (case parse_hex4 s3 of
                                     None \<Rightarrow> Inl kParseErrorStringUnicodeEscapeInvalidHex
                                   | Some (cp2, s4) \<Rightarrow>
                                       if cp2 < 0xDC00 \<or> 0xDFFF < cp2
                                       then Inl kParseErrorStringUnicodeSurrogateInvalid
                                       else prepend (utf8_encode ((cp - 0xD800) * 1024 + (cp2 - 0xDC00) + 0x10000))
                                              (parse_chars s4))
                                else Inl kParseErrorStringUnicodeSurrogateInvalid
                            | _ \<Rightarrow> Inl kParseErrorStringUnicodeSurrogateInvalid)
                         else prepend (utf8_encode cp) (parse_chars s''))))
      else if (of_char c :: nat) < 32 then Inl kParseErrorStringInvalidEncoding
      else prepend [c] (parse_chars s))"
  by pat_completeness auto
termination
  by (relation "measure length") (auto elim!: parse_hex4.elims split: option.splits)

section \<open>Numbers\<close>

text \<open>The integer part: a single zero, or a non-zero digit followed by digits.\<close>

fun lex_int :: "string \<Rightarrow> (string \<times> string) option" where
  "lex_int [] = None"
| "lex_int (c # s) =
     (if c = CHR ''0'' then Some ([c], s)
      else if is_digit c then Some (c # takeWhile is_digit s, dropWhile is_digit s)
      else None)"

definition lex_frac :: "string \<Rightarrow> parse_error + (string \<times> string)" where
  "lex_frac s =
     (case s of
        c # r \<Rightarrow>
          if c = CHR ''.'' then
            (if takeWhile is_digit r = [] then Inl kParseErrorNumberMissFraction
             else Inr (c # takeWhile is_digit r, dropWhile is_digit r))
          else Inr ([], s)
      | [] \<Rightarrow> Inr ([], []))"

definition lex_exp :: "string \<Rightarrow> parse_error + (string \<times> string)" where
  "lex_exp s =
     (case s of
        c # r \<Rightarrow>
          if c = CHR ''e'' \<or> c = CHR ''E'' then
            (let (sg, r1) = (case r of
                               d # r' \<Rightarrow> if d = CHR ''+'' \<or> d = CHR ''-'' then ([d], r') else ([], r)
                             | [] \<Rightarrow> ([], r))
             in if takeWhile is_digit r1 = [] then Inl kParseErrorNumberMissExponent
                else Inr (c # sg @ takeWhile is_digit r1, dropWhile is_digit r1))
          else Inr ([], s)
      | [] \<Rightarrow> Inr ([], []))"

text \<open>
  The overflow check of \<^verbatim>\<open>ParseNumber\<close>'s integer part. Once the digits no longer
  fit \<^verbatim>\<open>uint64_t\<close> the parser accumulates them in a double \<open>d\<close> and, before
  each further digit, fails with \<^verbatim>\<open>kParseErrorNumberTooBig\<close> if
  \<^verbatim>\<open>d >= 1.7976931348623157e307\<close>. The largest value so checked is the
  integer part without its last digit. The comparison is made here on exact integers;
  rapidjson's accumulator is rounded, which can matter only for an integer part within
  a relative distance of about \<open>10^-13\<close> of ten times the bound.
\<close>

definition number_too_big_bound :: nat where
  "number_too_big_bound = 17976931348623157 * 10 ^ 291"

definition int_too_big :: "string \<Rightarrow> bool" where
  "int_too_big ip \<longleftrightarrow> number_too_big_bound \<le> digits_value ip div 10"

text \<open>\<^verbatim>\<open>ParseNumber\<close>, with the outcome described above.\<close>

definition parse_number :: "(string \<Rightarrow> double) \<Rightarrow> string \<Rightarrow> parse_error + (jnode \<times> string)" where
  "parse_number strtod s =
     (let minus = (s \<noteq> [] \<and> hd s = CHR ''-'');
          s1 = (if minus then tl s else s)
      in case lex_int s1 of
           None \<Rightarrow> Inl kParseErrorValueInvalid
         | Some (ip, s2) \<Rightarrow>
             if int_too_big ip then Inl kParseErrorNumberTooBig
             else
             (case lex_frac s2 of
                Inl e \<Rightarrow> Inl e
              | Inr (fp, s3) \<Rightarrow>
                  (case lex_exp s3 of
                     Inl e \<Rightarrow> Inl e
                   | Inr (ep, s4) \<Rightarrow>
                       (let v = digits_value ip in
                        if fp = [] \<and> ep = [] \<and> (if minus then v \<le> 9223372036854775808 else v \<le> 18446744073709551615)
                        then Inr (JNumber (if minus then - int v else int v), s4)
                        else Inr (JDouble (strtod (take (length s - length s4) s)), s4)))))"

section \<open>Values\<close>

text \<open>\<^verbatim>\<open>ParseNull\<close>, \<^verbatim>\<open>ParseTrue\<close>, \<^verbatim>\<open>ParseFalse\<close> after their first letter.\<close>

definition parse_lit :: "string \<Rightarrow> jnode \<Rightarrow> string \<Rightarrow> parse_error + (jnode \<times> string)" where
  "parse_lit l j s =
     (if take (length l) s = l then Inr (j, drop (length l) s) else Inl kParseErrorValueInvalid)"

fun parse_json :: "(string \<Rightarrow> double) \<Rightarrow> nat \<Rightarrow> string \<Rightarrow> parse_error + (jnode \<times> string)"
and parse_members ::
  "(string \<Rightarrow> double) \<Rightarrow> nat \<Rightarrow> string \<Rightarrow> parse_error + ((string \<times> jnode) list \<times> string)"
and parse_elems :: "(string \<Rightarrow> double) \<Rightarrow> nat \<Rightarrow> string \<Rightarrow> parse_error + (jnode list \<times> string)" where
  "parse_json strtod 0 s = Inl OutOfFuel"
| "parse_json strtod (Suc n) s =
     (case s of
        [] \<Rightarrow> Inl kParseErrorValueInvalid
      | c # r \<Rightarrow>
          if c = CHR ''n'' then parse_lit ''ull'' JNull r
          else if c = CHR ''t'' then parse_lit ''rue'' (JBool True) r
          else if c = CHR ''f'' then parse_lit ''alse'' (JBool False) r
          else if c = CHR 0x22 then map_sum id (\<lambda>(str, rest). (JString str, rest)) (parse_chars r)
          else if c = CHR ''{'' then
            (case skip_ws r of
               c2 # r2 \<Rightarrow>
                 if c2 = CHR ''}'' then Inr (JObject [], r2)
                 else map_sum id (\<lambda>(kvs, rest). (JObject kvs, rest)) (parse_members strtod n (skip_ws r))
             | [] \<Rightarrow> map_sum id (\<lambda>(kvs, rest). (JObject kvs, rest)) (parse_members strtod n []))
          else if c = CHR ''['' then
            (case skip_ws r of
               c2 # r2 \<Rightarrow>
                 if c2 = CHR '']'' then Inr (JArray [], r2)
                 else map_sum id (\<lambda>(js, rest). (JArray js, rest)) (parse_elems strtod n (skip_ws r))
             | [] \<Rightarrow> map_sum id (\<lambda>(js, rest). (JArray js, rest)) (parse_elems strtod n []))
          else parse_number strtod s)"
| "parse_members strtod 0 s = Inl OutOfFuel"
| "parse_members strtod (Suc n) s =
     (case s of
        c # r \<Rightarrow>
          if c \<noteq> CHR 0x22 then Inl kParseErrorObjectMissName
          else
            (case parse_chars r of
               Inl e \<Rightarrow> Inl e
             | Inr (k, r1) \<Rightarrow>
                 (case skip_ws r1 of
                    c2 # r2 \<Rightarrow>
                      if c2 \<noteq> CHR '':'' then Inl kParseErrorObjectMissColon
                      else
                        (case parse_json strtod n (skip_ws r2) of
                           Inl e \<Rightarrow> Inl e
                         | Inr (v, r3) \<Rightarrow>
                             (case skip_ws r3 of
                                c3 # r4 \<Rightarrow>
                                  if c3 = CHR '','' then
                                    (case parse_members strtod n (skip_ws r4) of
                                       Inl e \<Rightarrow> Inl e
                                     | Inr (kvs, r5) \<Rightarrow> Inr ((k, v) # kvs, r5))
                                  else if c3 = CHR ''}'' then Inr ([(k, v)], r4)
                                  else Inl kParseErrorObjectMissCommaOrCurlyBracket
                              | [] \<Rightarrow> Inl kParseErrorObjectMissCommaOrCurlyBracket))
                  | [] \<Rightarrow> Inl kParseErrorObjectMissColon))
      | [] \<Rightarrow> Inl kParseErrorObjectMissName)"
| "parse_elems strtod 0 s = Inl OutOfFuel"
| "parse_elems strtod (Suc n) s =
     (case parse_json strtod n s of
        Inl e \<Rightarrow> Inl e
      | Inr (v, r3) \<Rightarrow>
          (case skip_ws r3 of
             c3 # r4 \<Rightarrow>
               if c3 = CHR '','' then
                 (case parse_elems strtod n (skip_ws r4) of
                    Inl e \<Rightarrow> Inl e
                  | Inr (js, r5) \<Rightarrow> Inr (v # js, r5))
               else if c3 = CHR '']'' then Inr ([v], r4)
               else Inl kParseErrorArrayMissCommaOrSquareBracket
           | [] \<Rightarrow> Inl kParseErrorArrayMissCommaOrSquareBracket))"

text \<open>
  \<^verbatim>\<open>GenericReader::Parse\<close> on the whole input: whitespace, one value, whitespace,
  then the end of the input.
\<close>

definition parse_text :: "(string \<Rightarrow> double) \<Rightarrow> string \<Rightarrow> parse_error + jnode" where
  "parse_text strtod str =
     (let s = skip_ws (c_str str) in
      if s = [] then Inl kParseErrorDocumentEmpty
      else
        (case parse_json strtod (2 * length s + 2) s of
           Inl e \<Rightarrow> Inl e
         | Inr (j, r) \<Rightarrow> if skip_ws r = [] then Inr j else Inl kParseErrorDocumentRootNotSingular))"

end
