(* ===== verification/Text_Roundtrip.thy ===== *)
theory Text_Roundtrip
  imports Text_Writer Text_Reader
begin

text \<open>
  The writer's text and the parser agree. An event list that prints a document
  (\<open>writes es j\<close>) is rendered by \<^verbatim>\<open>rapidjson::Writer\<close> without a failed assertion
  as the canonical text \<open>value_text dtoa j\<close> (\<open>render_writes\<close>). The text parser reads
  that text back as \<open>j\<close>, when the document has no doubles. Each string escape is
  undone (\<open>parse_chars_WriteString\<close>), and each integer's digits give back the
  integer (\<open>parse_number_int_text\<close>). The parser's fuel lemmas are also here: its rest
  is shorter than its input, twice the input's length plus two is enough fuel, and
  more fuel never changes a result.
\<close>

abbreviation writes_text :: "(double \<Rightarrow> string) \<Rightarrow> event list \<Rightarrow> jnode \<Rightarrow> bool" where
  "writes_text dtoa es j \<equiv>
     \<forall>w w1. Prefix (is_jstring j) w = Some w1 \<longrightarrow> put_events dtoa es w = Some (put_str (value_text dtoa j) w1)"

text \<open>What may follow a value in the writer's text: nothing, a comma or a closing bracket.\<close>

definition delim :: "string \<Rightarrow> bool" where
  "delim rest \<longleftrightarrow> rest = [] \<or> hd rest \<in> {CHR '','', CHR '']'', CHR ''}''}"

text \<open>
  The digits of a double are not modelled: \<^verbatim>\<open>Writer::WriteDouble\<close> prints
  \<^verbatim>\<open>internal::dtoa\<close> (Grisu2, then \<^verbatim>\<open>Prettify\<close>), and \<^verbatim>\<open>ParseNumber\<close> hands the
  token to \<^verbatim>\<open>strtod\<close>. What the round trip needs of them is their contract for one
  double: \<open>dtoa\<close> prints a complete JSON number token that has a fraction or an
  exponent (\<^verbatim>\<open>Prettify\<close> appends \<^verbatim>\<open>.0\<close> to an integral value), so the parser
  stores a double, and \<open>strtod\<close> maps that token back to the same bits.
\<close>

definition double_token :: "string \<Rightarrow> bool" where
  "double_token s \<longleftrightarrow>
     s \<noteq> [] \<and> list_all (\<lambda>c. is_digit c \<or> c \<in> set ''+-.eE'') s \<and>
     (case lex_int (if hd s = CHR ''-'' then tl s else s) of
        None \<Rightarrow> False
      | Some (ip, s2) \<Rightarrow>
          \<not> int_too_big ip \<and>
          (case lex_frac s2 of
             Inl _ \<Rightarrow> False
           | Inr (fp, s3) \<Rightarrow>
               (case lex_exp s3 of
                  Inl _ \<Rightarrow> False
                | Inr (ep, s4) \<Rightarrow> s4 = [] \<and> (fp \<noteq> [] \<or> ep \<noteq> []))))"

definition double_ok :: "(double \<Rightarrow> string) \<Rightarrow> (string \<Rightarrow> double) \<Rightarrow> double \<Rightarrow> bool" where
  "double_ok dtoa strtod d \<longleftrightarrow> double_token (dtoa d) \<and> strtod (dtoa d) = d"

text \<open>
  A document whose text the parser reads back exactly: integers in the range rapidjson
  stores as integers, and doubles for which \<open>dtoa\<close> and \<open>strtod\<close> keep their contract.
\<close>

fun text_ok :: "(double \<Rightarrow> string) \<Rightarrow> (string \<Rightarrow> double) \<Rightarrow> jnode \<Rightarrow> bool" where
  "text_ok dtoa strtod (JNumber n) = (- 9223372036854775808 \<le> n \<and> n \<le> 18446744073709551615)"
| "text_ok dtoa strtod (JDouble d) = double_ok dtoa strtod d"
| "text_ok dtoa strtod (JArray js) = list_all (text_ok dtoa strtod) js"
| "text_ok dtoa strtod (JObject kvs) = list_all (\<lambda>(k, j). text_ok dtoa strtod j) kvs"
| "text_ok dtoa strtod _ = True"

section \<open>The writer's text\<close>

lemma put_events_append:
  "put_events dtoa (xs @ ys) w = (case put_events dtoa xs w of None \<Rightarrow> None | Some w' \<Rightarrow> put_events dtoa ys w')"
  by (induction xs arbitrary: w) (auto split: option.splits)

lemma put_str_append [simp]: "put_str t (put_str s w) = put_str (s @ t) w"
  by (simp add: put_str_def)

lemma put_str_sel [simp]:
  "level_stack (put_str s w) = level_stack w" "hasRoot (put_str s w) = hasRoot w" "os (put_str s w) = os w @ s"
  by (simp_all add: put_str_def)

lemma put_str_level [simp]: "(put_str s w)\<lparr>level_stack := l\<rparr> = put_str s (w\<lparr>level_stack := l\<rparr>)"
  by (simp add: put_str_def)

lemma Prefix_array:
  "level_stack w = (k, True) # ls \<Longrightarrow>
   Prefix b w = Some (put_str (if 0 < k then [CHR '',''] else []) (w\<lparr>level_stack := (Suc k, True) # ls\<rparr>))"
  by (simp add: Prefix_def put_str_def)

lemma Prefix_key:
  "level_stack w = (k, False) # ls \<Longrightarrow> even k \<Longrightarrow>
   Prefix True w = Some (put_str (if 0 < k then [CHR '',''] else []) (w\<lparr>level_stack := (Suc k, False) # ls\<rparr>))"
  by (simp add: Prefix_def put_str_def)

lemma Prefix_member_value:
  "level_stack w = (k, False) # ls \<Longrightarrow> odd k \<Longrightarrow>
   Prefix b w = Some (put_str [CHR '':''] (w\<lparr>level_stack := (Suc k, False) # ls\<rparr>))"
  by (auto simp: Prefix_def put_str_def elim: oddE)

lemma put_events_elems:
  "list_all2 (writes_text dtoa) ess js \<Longrightarrow> level_stack w = (k, True) # ls \<Longrightarrow>
   put_events dtoa (concat ess) w =
     Some (put_str ((if 0 < k \<and> js \<noteq> [] then [CHR '',''] else []) @ elems_text dtoa js)
             (w\<lparr>level_stack := (k + length js, True) # ls\<rparr>))"
proof (induction ess js arbitrary: k w rule: list_all2_induct)
  case Nil
  then show ?case by (cases w) simp
next
  case (Cons es ess j js)
  let ?w1 = "put_str (if 0 < k then [CHR '',''] else []) (w\<lparr>level_stack := (Suc k, True) # ls\<rparr>)"
  have "put_events dtoa es w = Some (put_str (value_text dtoa j) ?w1)"
    using Cons.hyps(1) Prefix_array [OF Cons.prems] by blast
  moreover have "put_events dtoa (concat ess) (put_str (value_text dtoa j) ?w1) =
      Some (put_str ((if js \<noteq> [] then [CHR '',''] else []) @ elems_text dtoa js)
        ((put_str (value_text dtoa j) ?w1)\<lparr>level_stack := (Suc k + length js, True) # ls\<rparr>))"
    using Cons.IH [of "put_str (value_text dtoa j) ?w1" "Suc k"] by simp
  ultimately show ?case by (cases js) (simp_all add: put_events_append)
qed

lemma put_events_members:
  "list_all2 (writes_text dtoa) ess (map snd kvs) \<Longrightarrow> level_stack w = (k, False) # ls \<Longrightarrow> even k \<Longrightarrow>
   put_events dtoa (key_events (map fst kvs) ess) w =
     Some (put_str ((if 0 < k \<and> kvs \<noteq> [] then [CHR '',''] else []) @ members_text dtoa kvs)
             (w\<lparr>level_stack := (k + 2 * length kvs, False) # ls\<rparr>))"
proof (induction kvs arbitrary: ess k w)
  case Nil
  then show ?case by (cases w) (simp add: key_events_def)
next
  case (Cons kv kvs)
  obtain key j where kv: "kv = (key, j)" by fastforce
  obtain es ess' where ess: "ess = es # ess'" and hd: "writes_text dtoa es j"
      and tl: "list_all2 (writes_text dtoa) ess' (map snd kvs)"
    using Cons.prems(1) kv by (auto simp: list_all2_Cons2)
  let ?wk = "put_str ((if 0 < k then [CHR '',''] else []) @ WriteString key)
               (w\<lparr>level_stack := (Suc k, False) # ls\<rparr>)"
  let ?w1 = "put_str [CHR '':''] (?wk\<lparr>level_stack := (Suc (Suc k), False) # ls\<rparr>)"
  have key: "put_event dtoa (EKey key) w = Some ?wk"
    using Prefix_key [OF Cons.prems(2,3)] by (simp add: scalar_out_def)
  have "Prefix (is_jstring j) ?wk = Some ?w1"
    using Prefix_member_value [of ?wk "Suc k" ls] Cons.prems(3) by simp
  then have val: "put_events dtoa es ?wk = Some (put_str (value_text dtoa j) ?w1)"
    using hd by blast
  have rest: "put_events dtoa (key_events (map fst kvs) ess') (put_str (value_text dtoa j) ?w1) =
      Some (put_str ((if kvs \<noteq> [] then [CHR '',''] else []) @ members_text dtoa kvs)
        ((put_str (value_text dtoa j) ?w1)\<lparr>level_stack := (Suc (Suc k) + 2 * length kvs, False) # ls\<rparr>))"
    using Cons.IH [OF tl, of "put_str (value_text dtoa j) ?w1" "Suc (Suc k)"] Cons.prems(3) by simp
  show ?case
    using key val rest kv ess by (cases kvs) (simp_all add: key_events_def put_events_append)
qed


lemma int_text_uint: "int_text (uint u) = digits_nat (unat u)"
  by (simp add: int_text_def)

lemma put_events_writes: "writes es j \<Longrightarrow> writes_text dtoa es j"
proof (induction rule: writes.induct)
  case (scalar e j)
  then show ?case
    by (cases e) (auto simp: scalar_out_def WriteInt_def WriteInt64_def WriteUint64_def int_text_uint
        split: if_split_asm)
next
  case (array ess js)
  have elems: "list_all2 (writes_text dtoa) ess js"
    using array.IH by (rule list_all2_mono) blast
  show ?case
  proof (intro allI impI)
    fix w w1
    assume "Prefix (is_jstring (JArray js)) w = Some w1"
    then have start: "put_event dtoa EStartArray w = Some (put_str [CHR ''[''] (w1\<lparr>level_stack := (0, True) # level_stack w1\<rparr>))"
      by (simp add: start_level_def)
    show "put_events dtoa (EStartArray # concat ess @ [EEndArray]) w = Some (put_str (value_text dtoa (JArray js)) w1)"
      using start put_events_elems [OF elems, of "put_str [CHR ''[''] (w1\<lparr>level_stack := (0, True) # level_stack w1\<rparr>)" 0 "level_stack w1"]
      by (simp add: put_events_append end_level_def put_str_def)
  qed
next
  case (object ess kvs)
  have mems: "list_all2 (writes_text dtoa) ess (map snd kvs)"
    using object.IH by (rule list_all2_mono) blast
  show ?case
  proof (intro allI impI)
    fix w w1
    assume "Prefix (is_jstring (JObject kvs)) w = Some w1"
    then have start: "put_event dtoa EStartObject w = Some (put_str [CHR ''{''] (w1\<lparr>level_stack := (0, False) # level_stack w1\<rparr>))"
      by (simp add: start_level_def)
    show "put_events dtoa (EStartObject # key_events (map fst kvs) ess @ [EEndObject]) w =
        Some (put_str (value_text dtoa (JObject kvs)) w1)"
      using start put_events_members [OF mems, of "put_str [CHR ''{''] (w1\<lparr>level_stack := (0, False) # level_stack w1\<rparr>)" 0 "level_stack w1"]
      by (simp add: put_events_append end_level_def put_str_def)
  qed
qed

theorem render_writes: "writes es j \<Longrightarrow> render dtoa es = Some (value_text dtoa j)"
proof -
  assume "writes es j"
  then have "writes_text dtoa es j" by (rule put_events_writes)
  moreover have "Prefix (is_jstring j) writer_init = Some (writer_init\<lparr>hasRoot := True\<rparr>)"
    by (simp add: Prefix_def writer_init_def)
  ultimately show ?thesis by (simp add: render_def writer_init_def)
qed

section \<open>Strings and numbers read back\<close>

lemma char_code_eq: "c = d \<longleftrightarrow> (of_char c :: nat) = of_char d"
  by (metis char_of_char)

lemma hex_val_hexDigits: "k < 16 \<Longrightarrow> hex_val (hexDigits ! k) = Some k"
proof -
  assume "k < 16"
  then have "k \<in> {..<16}" by simp
  then show ?thesis by (auto simp: lessThan_nat_numeral hex_val_def hexDigits_def)
qed

lemma hex_val_zero: "hex_val (CHR ''0'') = Some 0"
  by (simp add: hex_val_def)

lemma parse_chars_write_char: "parse_chars (write_char c @ t) = prepend [c] (parse_chars t)"
proof (cases "escape c")
  case None
  then have "c \<noteq> CHR 0x22" "c \<noteq> CHR 0x5C" "\<not> (of_char c :: nat) < 32"
    by (auto simp: escape_def Let_def split: if_splits)
  with None show ?thesis by (simp add: write_char_def)
next
  case (Some e)
  let ?n = "of_char c :: nat"
  have cases: "?n < 32 \<or> c = CHR 0x22 \<or> c = CHR 0x5C"
    using Some by (auto simp: escape_def Let_def split: if_splits)
  show ?thesis
  proof (cases "?n < 32")
    case True
    show ?thesis
    proof (cases "?n \<in> {8, 9, 10, 12, 13}")
      case True
      then consider "?n = 8" | "?n = 9" | "?n = 10" | "?n = 12" | "?n = 13" by auto
      then have "c = CHR 0x08 \<or> c = CHR 0x09 \<or> c = CHR 0x0A \<or> c = CHR 0x0C \<or> c = CHR 0x0D"
        by cases (simp_all add: char_code_eq [of c])
      then show ?thesis by (elim disjE) (simp_all add: write_char_def escape_def unescape_def)
    next
      case False
      with \<open>?n < 32\<close> have e: "escape c = Some (CHR ''u'')" by (simp add: escape_def)
      have "?n div 16 < 16" "?n mod 16 < 16" using \<open>?n < 32\<close> by simp_all
      then have "parse_hex4 (CHR ''0'' # CHR ''0'' # hexDigits ! (?n div 16) # hexDigits ! (?n mod 16) # t) =
          Some (?n, t)"
        by (simp add: hex_val_hexDigits hex_val_zero)
      moreover have "utf8_encode ?n = [c]" using \<open>?n < 32\<close> by (simp add: utf8_encode_def)
      ultimately show ?thesis using e \<open>?n < 32\<close> by (simp add: write_char_def unescape_def)
    qed
  next
    case False
    with cases show ?thesis by (auto simp: write_char_def escape_def unescape_def)
  qed
qed

lemma parse_chars_WriteString:
  "parse_chars (concat (map write_char s) @ CHR 0x22 # rest) = Inr (s, rest)"
  by (induction s) (simp_all add: parse_chars_write_char prepend_def)


lemma digit_char [simp]: "k < 10 \<Longrightarrow> is_digit (char_of (48 + k))" "k < 10 \<Longrightarrow> digit_val (char_of (48 + k)) = k"
  by (simp_all add: is_digit_def digit_val_def of_char_of)

lemma digits_nat_digits: "list_all is_digit (digits_nat m)"
  by (induction m rule: digits_nat.induct) (simp add: digits_nat.simps)

lemma digits_nat_ne: "digits_nat m \<noteq> []"
  by (simp add: digits_nat.simps)

lemma digits_value_snoc: "digits_value (xs @ [c]) = 10 * digits_value xs + digit_val c"
  by (simp add: digits_value_def)

lemma digits_value_digits_nat [simp]: "digits_value (digits_nat m) = m"
proof (induction m rule: digits_nat.induct)
  case (1 n)
  then show ?case by (simp add: digits_nat.simps digits_value_snoc) (simp add: digits_value_def)
qed

lemma digits_nat_hd: "0 < m \<Longrightarrow> hd (digits_nat m) \<noteq> CHR ''0''"
proof (induction m rule: digits_nat.induct)
  case (1 n)
  show ?case
  proof (cases "n < 10")
    case True
    with "1.prems" show ?thesis by (simp add: digits_nat.simps char_code_eq [of "char_of (48 + n)"] of_char_of)
  next
    case False
    then have "hd (digits_nat (n div 10)) \<noteq> CHR ''0''" using "1.IH" by simp
    with False show ?thesis by (simp add: digits_nat.simps digits_nat_ne)
  qed
qed

lemma digits_nat_zero: "digits_nat 0 = ''0''"
  by (simp add: digits_nat.simps char_code_eq [of "char_of 48"] of_char_of)

lemma delim_not_digit: "delim rest \<Longrightarrow> takeWhile is_digit rest = [] \<and> dropWhile is_digit rest = rest"
  by (cases rest) (auto simp: delim_def is_digit_def)

lemma lex_int_digits:
  assumes "delim rest"
  shows "lex_int (digits_nat m @ rest) = Some (digits_nat m, rest)"
proof (cases "m = 0")
  case True
  then show ?thesis by (simp add: digits_nat_zero)
next
  case False
  obtain c cs where dc: "digits_nat m = c # cs" using digits_nat_ne by (cases "digits_nat m") auto
  have "c \<noteq> CHR ''0''" using digits_nat_hd [of m] False dc by simp
  moreover have "is_digit c" "list_all is_digit cs" using digits_nat_digits [of m] dc by simp_all
  ultimately show ?thesis
    using delim_not_digit [OF assms] dc by (simp add: takeWhile_append2 dropWhile_append2 list_all_iff)
qed

lemma lex_frac_delim: "delim rest \<Longrightarrow> lex_frac rest = Inr ([], rest)"
  by (cases rest) (auto simp: delim_def lex_frac_def)

lemma lex_exp_delim: "delim rest \<Longrightarrow> lex_exp rest = Inr ([], rest)"
  by (cases rest) (auto simp: delim_def lex_exp_def)

lemma int_too_big_small: "digits_value ip < 10 ^ 307 \<Longrightarrow> \<not> int_too_big ip"
  unfolding int_too_big_def number_too_big_bound_def
  by (rule notI, drule le_trans [OF _ div_le_dividend]) simp

lemma int_too_big_digits_nat [simp]: "n < 10 ^ 307 \<Longrightarrow> \<not> int_too_big (digits_nat n)"
  by (simp add: int_too_big_small)

lemma parse_number_int_text:
  assumes "delim rest" "- 9223372036854775808 \<le> n" "n \<le> 18446744073709551615"
  shows "parse_number strtod (int_text n @ rest) = Inr (JNumber n, rest)"
proof (cases "n < 0")
  case True
  have "nat (- n) \<le> 9223372036854775808" using assms(2) by simp
  with True show ?thesis
    using lex_int_digits [OF assms(1), of "nat (- n)"] lex_frac_delim [OF assms(1)] lex_exp_delim [OF assms(1)]
    by (simp add: parse_number_def int_text_def)
next
  case False
  obtain c cs where dc: "digits_nat (nat n) = c # cs" using digits_nat_ne by (cases "digits_nat (nat n)") auto
  have "is_digit c" using digits_nat_digits [of "nat n"] dc by simp
  then have "c \<noteq> CHR ''-''" by (auto simp: is_digit_def)
  moreover have "nat n \<le> 18446744073709551615" using assms(3) by simp
  moreover have "digits_value (c # cs) = nat n" using digits_value_digits_nat [of "nat n"] dc by simp
  ultimately show ?thesis
    using False dc lex_int_digits [OF assms(1), of "nat n"] lex_frac_delim [OF assms(1)] lex_exp_delim [OF assms(1)]
    by (simp add: parse_number_def int_text_def int_too_big_small)
qed

subsection \<open>Doubles\<close>

lemma digits_delim:
  "delim rest \<Longrightarrow> takeWhile is_digit (x @ rest) = takeWhile is_digit x \<and>
     dropWhile is_digit (x @ rest) = dropWhile is_digit x @ rest"
  by (induction x) (simp_all add: delim_not_digit)

lemma lex_int_append: "lex_int s = Some (ip, r) \<Longrightarrow> delim rest \<Longrightarrow> lex_int (s @ rest) = Some (ip, r @ rest)"
  by (cases s) (auto simp: digits_delim split: if_splits)

lemma lex_frac_append: "lex_frac s = Inr (fp, r) \<Longrightarrow> delim rest \<Longrightarrow> lex_frac (s @ rest) = Inr (fp, r @ rest)"
proof (cases s)
  case Nil
  assume "lex_frac s = Inr (fp, r)" "delim rest"
  then show ?thesis using Nil lex_frac_delim [of rest] by (simp add: lex_frac_def)
qed (auto simp: lex_frac_def digits_delim split: if_splits)

lemma lex_exp_append: "lex_exp s = Inr (ep, r) \<Longrightarrow> delim rest \<Longrightarrow> lex_exp (s @ rest) = Inr (ep, r @ rest)"
proof (cases s)
  case (Cons c t)
  assume ex: "lex_exp s = Inr (ep, r)" and d: "delim rest"
  show ?thesis
  proof (cases "c = CHR ''e'' \<or> c = CHR ''E''")
    case True
    then show ?thesis using ex Cons
      by (cases t) (auto simp: lex_exp_def digits_delim [OF d] split: if_splits)
  next
    case False
    then show ?thesis using ex Cons by (auto simp: lex_exp_def)
  qed
next
  case Nil
  assume "lex_exp s = Inr (ep, r)" "delim rest"
  then show ?thesis using Nil lex_exp_delim [of rest] by (simp add: lex_exp_def)
qed

lemma double_token_start: "double_token s \<Longrightarrow> s \<noteq> [] \<and> (hd s = CHR ''-'' \<or> is_digit (hd s))"
  by (cases s) (auto simp: double_token_def is_digit_def elim!: lex_int.elims split: if_splits)

lemma double_token_nul: "double_token s \<Longrightarrow> CHR 0x00 \<notin> set s"
  by (auto simp: double_token_def list_all_iff is_digit_def)

lemma parse_number_double_token:
  assumes tok: "double_token s" and d: "delim rest"
  shows "parse_number strtod (s @ rest) = Inr (JDouble (strtod s), rest)"
proof -
  define s1 where "s1 = (if hd s = CHR ''-'' then tl s else s)"
  have ne: "s \<noteq> []" using tok by (simp add: double_token_def)
  obtain ip s2 where li: "lex_int s1 = Some (ip, s2)"
    using tok unfolding double_token_def s1_def by (auto split: option.splits)
  have nb: "\<not> int_too_big ip"
    using tok li unfolding double_token_def s1_def by auto
  obtain fp s3 where lf: "lex_frac s2 = Inr (fp, s3)"
    using tok li unfolding double_token_def s1_def by (auto split: sum.splits)
  obtain ep where le: "lex_exp s3 = Inr (ep, [])" and fe: "fp \<noteq> [] \<or> ep \<noteq> []"
    using tok li lf unfolding double_token_def s1_def by (auto split: sum.splits)
  have "(if hd (s @ rest) = CHR ''-'' then tl (s @ rest) else s @ rest) = s1 @ rest"
    using ne by (simp add: s1_def)
  then show ?thesis
    using lex_int_append [OF li d] lex_frac_append [OF lf d] lex_exp_append [OF le d] fe ne nb
    by (cases "fp = []") (simp_all add: parse_number_def)
qed

section \<open>Parser fuel\<close>

lemma parse_hex4_shorter: "parse_hex4 s = Some (cp, r) \<Longrightarrow> length r < length s"
  by (induction s rule: parse_hex4.induct) (auto split: option.splits)

lemma prepend_Inr: "prepend p x = Inr (y, r) \<longleftrightarrow> (\<exists>y'. x = Inr (y', r) \<and> y = p @ y')"
  by (cases x) (auto simp: prepend_def)

lemma parse_chars_shorter: "parse_chars s = Inr (x, r) \<Longrightarrow> length r < length s"
proof (induction "length s" arbitrary: s x rule: less_induct)
  case less
  have IH: "\<And>t y. parse_chars t = Inr (y, r) \<Longrightarrow> length t < length s \<Longrightarrow> length r < length t"
    using less.hyps by blast
  show ?case
  proof (cases s)
    case Nil
    then show ?thesis using less.prems by simp
  next
    case (Cons c s')
    show ?thesis
      using less.prems unfolding Cons
      by (auto simp: prepend_Inr split: if_splits list.splits option.splits prod.splits
          dest!: parse_hex4_shorter dest: IH [unfolded Cons])
  qed
qed

lemma lex_int_shorter: "lex_int s = Some (ip, r) \<Longrightarrow> length r < length s"
  by (cases s) (auto split: if_splits intro: le_less_trans [OF length_dropWhile_le])

lemma lex_frac_le: "lex_frac s = Inr (fp, r) \<Longrightarrow> length r \<le> length s"
  by (auto simp: lex_frac_def split: list.splits if_splits intro: le_trans [OF length_dropWhile_le])

lemma lex_exp_le: "lex_exp s = Inr (ep, r) \<Longrightarrow> length r \<le> length s"
  by (auto simp: lex_exp_def split: list.splits if_splits prod.splits intro: le_trans [OF length_dropWhile_le])

lemma parse_number_shorter: "parse_number strtod s = Inr (j, r) \<Longrightarrow> length r < length s"
  by (auto simp: parse_number_def Let_def split: option.splits sum.splits prod.splits if_splits
      dest!: lex_int_shorter lex_frac_le lex_exp_le)

lemma skip_ws_le: "length (skip_ws s) \<le> length s"
  by (simp add: skip_ws_def length_dropWhile_le)

lemma parse_lit_le: "parse_lit l j0 s = Inr (j, r) \<Longrightarrow> length r \<le> length s"
  by (auto simp: parse_lit_def split: if_splits)


lemma map_sum_Inr: "map_sum f g x = Inr y \<longleftrightarrow> (\<exists>z. x = Inr z \<and> y = g z)"
  by (cases x) auto

lemma map_sum_Inl: "map_sum f g x = Inl e \<longleftrightarrow> (\<exists>z. x = Inl z \<and> e = f z)"
  by (cases x) auto

lemma skip_ws_Cons: "skip_ws s = c # t \<Longrightarrow> length t < length s"
  using skip_ws_le [of s] by simp

lemma skip_ws_less: "a < length (skip_ws y) \<Longrightarrow> a < length y"
  using skip_ws_le [of y] by simp

lemma parse_shorter:
  "(parse_json strtod n s = Inr (j, r) \<longrightarrow> length r < length s) \<and>
   (parse_members strtod n s = Inr (kvs, r) \<longrightarrow> length r < length s) \<and>
   (parse_elems strtod n s = Inr (js, r) \<longrightarrow> length r < length s)"
proof (induction n arbitrary: s j r kvs js)
  case 0
  then show ?case by simp
next
  case (Suc n)
  have J: "\<And>s j r. parse_json strtod n s = Inr (j, r) \<Longrightarrow> length r < length s"
    and M: "\<And>s kvs r. parse_members strtod n s = Inr (kvs, r) \<Longrightarrow> length r < length s"
    and E: "\<And>s js r. parse_elems strtod n s = Inr (js, r) \<Longrightarrow> length r < length s"
    using Suc.IH by blast+
  have j: "parse_json strtod (Suc n) s = Inr (j, r) \<Longrightarrow> length r < length s"
    by (auto simp: map_sum_Inr parse_lit_def split: list.splits if_splits
        dest!: parse_chars_shorter parse_number_shorter M E skip_ws_Cons
        intro: le_less_trans [OF skip_ws_le])
  have m: "parse_members strtod (Suc n) s = Inr (kvs, r) \<Longrightarrow> length r < length s"
    by (auto split: list.splits if_splits sum.splits prod.splits
        dest!: parse_chars_shorter J M skip_ws_Cons skip_ws_less)
  have e: "parse_elems strtod (Suc n) s = Inr (js, r) \<Longrightarrow> length r < length s"
    by (auto split: list.splits if_splits sum.splits prod.splits
        dest!: J E skip_ws_Cons skip_ws_less)
  show ?case using j m e by blast
qed


lemma prepend_Inl: "prepend p x = Inl e \<longleftrightarrow> x = Inl e"
  by (cases x) (auto simp: prepend_def)

lemma parse_chars_error: "parse_chars s = Inl e \<Longrightarrow> e \<noteq> OutOfFuel"
proof (induction "length s" arbitrary: s e rule: less_induct)
  case less
  have IH: "\<And>t e'. parse_chars t = Inl e' \<Longrightarrow> length t < length s \<Longrightarrow> e' \<noteq> OutOfFuel"
    using less.hyps by blast
  show ?case
  proof (cases s)
    case Nil
    then show ?thesis using less.prems by simp
  next
    case (Cons c s')
    show ?thesis
      using less.prems unfolding Cons
      by (auto simp: prepend_Inl split: if_splits list.splits option.splits prod.splits
          dest!: parse_hex4_shorter dest: IH [unfolded Cons])
  qed
qed

lemma parse_chars_not_fuel: "parse_chars s \<noteq> Inl OutOfFuel"
  using parse_chars_error by blast

lemma lex_frac_not_fuel: "lex_frac s \<noteq> Inl OutOfFuel"
  by (auto simp: lex_frac_def split: list.splits)

lemma lex_exp_not_fuel: "lex_exp s \<noteq> Inl OutOfFuel"
  by (auto simp: lex_exp_def Let_def split: list.splits prod.splits)

lemma parse_number_not_fuel: "parse_number strtod s \<noteq> Inl OutOfFuel"
  by (auto simp: parse_number_def Let_def lex_frac_not_fuel lex_exp_not_fuel
      split: option.splits sum.splits)

lemma parse_json_object:
  "parse_json strtod (Suc n) (CHR ''{'' # r) =
     (if skip_ws r \<noteq> [] \<and> hd (skip_ws r) = CHR ''}'' then Inr (JObject [], tl (skip_ws r))
      else map_sum id (\<lambda>(kvs, rest). (JObject kvs, rest)) (parse_members strtod n (skip_ws r)))"
  by (cases "skip_ws r") simp_all

lemma parse_json_array:
  "parse_json strtod (Suc n) (CHR ''['' # r) =
     (if skip_ws r \<noteq> [] \<and> hd (skip_ws r) = CHR '']'' then Inr (JArray [], tl (skip_ws r))
      else map_sum id (\<lambda>(js, rest). (JArray js, rest)) (parse_elems strtod n (skip_ws r)))"
  by (cases "skip_ws r") simp_all

lemma parse_json_other:
  "c \<noteq> CHR ''{'' \<Longrightarrow> c \<noteq> CHR ''['' \<Longrightarrow> parse_json strtod (Suc n) (c # r) \<noteq> Inl OutOfFuel"
  by (simp add: map_sum_Inl parse_lit_def parse_chars_not_fuel parse_number_not_fuel)

lemma parse_json_fuel_step:
  assumes "2 * length s + 2 \<le> Suc n"
    and M: "\<And>t. 2 * length t + 2 \<le> n \<Longrightarrow> parse_members strtod n t \<noteq> Inl OutOfFuel"
    and E: "\<And>t. 2 * length t + 3 \<le> n \<Longrightarrow> parse_elems strtod n t \<noteq> Inl OutOfFuel"
  shows "parse_json strtod (Suc n) s \<noteq> Inl OutOfFuel"
proof (cases s)
  case Nil
  then show ?thesis by simp
next
  case (Cons c r)
  have len: "2 * length (skip_ws r) + 3 \<le> n" using assms(1) skip_ws_le [of r] Cons by simp
  then have len': "2 * length (skip_ws r) + 2 \<le> n" by simp
  show ?thesis
  proof (cases "c = CHR ''{''")
    case True
    have eq: "parse_json strtod (Suc n) s =
        (if skip_ws r \<noteq> [] \<and> hd (skip_ws r) = CHR ''}'' then Inr (JObject [], tl (skip_ws r))
         else map_sum id (\<lambda>(kvs, rest). (JObject kvs, rest)) (parse_members strtod n (skip_ws r)))"
      unfolding Cons True by (rule parse_json_object)
    show ?thesis using M [OF len'] unfolding eq by (simp add: map_sum_Inl)
  next
    case False
    show ?thesis
    proof (cases "c = CHR ''[''")
      case True
      have eq: "parse_json strtod (Suc n) s =
          (if skip_ws r \<noteq> [] \<and> hd (skip_ws r) = CHR '']'' then Inr (JArray [], tl (skip_ws r))
           else map_sum id (\<lambda>(js, rest). (JArray js, rest)) (parse_elems strtod n (skip_ws r)))"
        unfolding Cons True by (rule parse_json_array)
      show ?thesis using E [OF len] unfolding eq by (simp add: map_sum_Inl)
    qed (use False Cons parse_json_other in blast)
  qed
qed

lemma parse_members_fuel_step:
  assumes "2 * length s + 2 \<le> Suc n"
    and J: "\<And>t. 2 * length t + 2 \<le> n \<Longrightarrow> parse_json strtod n t \<noteq> Inl OutOfFuel"
    and M: "\<And>t. 2 * length t + 2 \<le> n \<Longrightarrow> parse_members strtod n t \<noteq> Inl OutOfFuel"
  shows "parse_members strtod (Suc n) s \<noteq> Inl OutOfFuel"
proof (cases "s \<noteq> [] \<and> hd s = CHR 0x22")
  case False
  then show ?thesis by (cases s) auto
next
  case True
  then obtain r where s: "s = CHR 0x22 # r" by (cases s) auto
  show ?thesis
  proof (cases "parse_chars r")
    case (Inl e)
    then show ?thesis using s parse_chars_not_fuel [of r] by simp
  next
    case (Inr kr)
    obtain k r1 where kr: "kr = (k, r1)" by fastforce
    have r1: "length r1 < length r" using parse_chars_shorter Inr kr by blast
    show ?thesis
    proof (cases "skip_ws r1")
      case Nil
      then show ?thesis using s Inr kr by simp
    next
      case (Cons c2 r2)
      have r2: "length r2 < length r1" using skip_ws_Cons [OF Cons] .
      show ?thesis
      proof (cases "parse_json strtod n (skip_ws r2)")
        case (Inl e)
        have "2 * length (skip_ws r2) + 2 \<le> n" using assms(1) s r1 r2 skip_ws_le [of r2] by simp
        then have "e \<noteq> OutOfFuel" using J Inl by fastforce
        then show ?thesis using s Inr kr Cons Inl by simp
      next
        case (Inr vr)
        obtain v r3 where vr: "vr = (v, r3)" by fastforce
        have r3: "length r3 < length (skip_ws r2)" using parse_shorter Inr vr by blast
        show ?thesis
        proof (cases "skip_ws r3")
          case Nil
          then show ?thesis using s \<open>parse_chars r = Inr kr\<close> kr Cons Inr vr by simp
        next
          case (Cons c3 r4)
          have r4: "length r4 < length r3" using skip_ws_Cons [OF Cons] .
          have "2 * length (skip_ws r4) + 2 \<le> n"
            using assms(1) s r1 r2 r3 r4 skip_ws_le [of r2] skip_ws_le [of r4] by simp
          then have "parse_members strtod n (skip_ws r4) \<noteq> Inl OutOfFuel" by (rule M)
          then show ?thesis using s \<open>parse_chars r = Inr kr\<close> kr \<open>skip_ws r1 = c2 # r2\<close> Inr vr Cons
            by (cases "parse_members strtod n (skip_ws r4)") auto
        qed
      qed
    qed
  qed
qed

lemma parse_elems_fuel_step:
  assumes "2 * length s + 3 \<le> Suc n"
    and J: "\<And>t. 2 * length t + 2 \<le> n \<Longrightarrow> parse_json strtod n t \<noteq> Inl OutOfFuel"
    and E: "\<And>t. 2 * length t + 3 \<le> n \<Longrightarrow> parse_elems strtod n t \<noteq> Inl OutOfFuel"
  shows "parse_elems strtod (Suc n) s \<noteq> Inl OutOfFuel"
proof (cases "parse_json strtod n s")
  case (Inl e)
  have "e \<noteq> OutOfFuel" using J [of s] assms(1) Inl by fastforce
  then show ?thesis using Inl by simp
next
  case (Inr vr)
  obtain v r3 where vr: "vr = (v, r3)" by fastforce
  have r3: "length r3 < length s" using parse_shorter Inr vr by blast
  show ?thesis
  proof (cases "skip_ws r3")
    case Nil
    then show ?thesis using Inr vr by simp
  next
    case (Cons c3 r4)
    have r4: "length r4 < length r3" using skip_ws_Cons [OF Cons] .
    have "2 * length (skip_ws r4) + 3 \<le> n" using assms(1) r3 r4 skip_ws_le [of r4] by simp
    then have "parse_elems strtod n (skip_ws r4) \<noteq> Inl OutOfFuel" by (rule E)
    then show ?thesis using Inr vr Cons by (cases "parse_elems strtod n (skip_ws r4)") auto
  qed
qed

lemma parse_fuel:
  "(2 * length s + 2 \<le> n \<longrightarrow> parse_json strtod n s \<noteq> Inl OutOfFuel) \<and>
   (2 * length s + 2 \<le> n \<longrightarrow> parse_members strtod n s \<noteq> Inl OutOfFuel) \<and>
   (2 * length s + 3 \<le> n \<longrightarrow> parse_elems strtod n s \<noteq> Inl OutOfFuel)"
proof (induction n arbitrary: s)
  case 0
  then show ?case by simp
next
  case (Suc n)
  have J: "\<And>t. 2 * length t + 2 \<le> n \<Longrightarrow> parse_json strtod n t \<noteq> Inl OutOfFuel"
    and M: "\<And>t. 2 * length t + 2 \<le> n \<Longrightarrow> parse_members strtod n t \<noteq> Inl OutOfFuel"
    and E: "\<And>t. 2 * length t + 3 \<le> n \<Longrightarrow> parse_elems strtod n t \<noteq> Inl OutOfFuel"
    using Suc.IH by blast+
  show ?case
  proof (intro conjI impI)
    assume "2 * length s + 2 \<le> Suc n"
    then show "parse_json strtod (Suc n) s \<noteq> Inl OutOfFuel" by (rule parse_json_fuel_step [OF _ M E])
  next
    assume "2 * length s + 2 \<le> Suc n"
    then show "parse_members strtod (Suc n) s \<noteq> Inl OutOfFuel" by (rule parse_members_fuel_step [OF _ J M])
  next
    assume "2 * length s + 3 \<le> Suc n"
    then show "parse_elems strtod (Suc n) s \<noteq> Inl OutOfFuel" by (rule parse_elems_fuel_step [OF _ J E])
  qed
qed

text \<open>
  The fuel of twice the input's length plus two is enough: the modelled parser never
  returns \<open>OutOfFuel\<close>, so its results are rapidjson's.
\<close>

lemma parse_text_fuel: "parse_text strtod str \<noteq> Inl OutOfFuel"
proof -
  let ?s = "skip_ws (c_str str)"
  have "parse_json strtod (2 * length ?s + 2) ?s \<noteq> Inl OutOfFuel" using parse_fuel by blast
  then show ?thesis
    by (cases "parse_json strtod (2 * length ?s + 2) ?s")
      (auto simp: parse_text_def Let_def simp del: parse_json.simps split: if_splits)
qed

section \<open>The parser reads the writer's text back\<close>

lemma skip_ws_nonws: "s \<noteq> [] \<Longrightarrow> \<not> is_ws (hd s) \<Longrightarrow> skip_ws s = s"
  by (cases s) (simp_all add: skip_ws_def)

lemma int_text_hd: "int_text k \<noteq> [] \<and> (hd (int_text k) = CHR ''-'' \<or> is_digit (hd (int_text k)))"
proof -
  obtain c cs where "digits_nat (nat (if k < 0 then - k else k)) = c # cs"
    using digits_nat_ne by (cases "digits_nat (nat (if k < 0 then - k else k))") auto
  moreover have "list_all is_digit (digits_nat (nat (if k < 0 then - k else k)))" by (rule digits_nat_digits)
  ultimately show ?thesis by (auto simp: int_text_def split: if_splits)
qed

lemma value_text_start:
  assumes ok: "text_ok dtoa strtod j"
  shows "value_text dtoa j \<noteq> [] \<and> \<not> is_ws (hd (value_text dtoa j)) \<and> hd (value_text dtoa j) \<noteq> CHR '']''"
proof (cases j)
  case (JNumber k)
  then show ?thesis using int_text_hd [of k] by (auto simp: is_ws_def is_digit_def)
next
  case (JDouble d)
  then show ?thesis using ok double_token_start [of "dtoa d"] by (auto simp: double_ok_def is_ws_def is_digit_def)
qed (auto simp: is_ws_def WriteString_def)

lemma members_text_start:
  "kvs \<noteq> [] \<Longrightarrow> members_text dtoa kvs \<noteq> [] \<and> hd (members_text dtoa kvs) = CHR 0x22"
  by (cases kvs) (auto simp: WriteString_def)

lemma elems_text_start:
  "list_all (text_ok dtoa strtod) js \<Longrightarrow> js \<noteq> [] \<Longrightarrow>
   elems_text dtoa js \<noteq> [] \<and> \<not> is_ws (hd (elems_text dtoa js)) \<and> hd (elems_text dtoa js) \<noteq> CHR '']''"
  using value_text_start by (cases js) auto

lemma parse_text_value:
  "text_ok dtoa strtod j \<Longrightarrow> delim rest \<Longrightarrow> 2 * length (value_text dtoa j @ rest) + 2 \<le> n \<Longrightarrow>
     parse_json strtod n (value_text dtoa j @ rest) = Inr (j, rest)"
  "list_all (\<lambda>(k, j). text_ok dtoa strtod j) kvs \<Longrightarrow> kvs \<noteq> [] \<Longrightarrow>
     2 * length (members_text dtoa kvs @ CHR ''}'' # rest) + 2 \<le> n \<Longrightarrow>
     parse_members strtod n (members_text dtoa kvs @ CHR ''}'' # rest) = Inr (kvs, rest)"
  "list_all (text_ok dtoa strtod) js \<Longrightarrow> js \<noteq> [] \<Longrightarrow>
     2 * length (elems_text dtoa js @ CHR '']'' # rest) + 3 \<le> n \<Longrightarrow>
     parse_elems strtod n (elems_text dtoa js @ CHR '']'' # rest) = Inr (js, rest)"
proof (induction dtoa j and dtoa kvs and dtoa js arbitrary: rest n and rest n and rest n
    rule: value_text_members_text_elems_text.induct)
  case (1 dtoa)
  then obtain m where "n = Suc m" by (cases n) auto
  then show ?case by (simp add: parse_lit_def)
next
  case (2 dtoa b)
  then obtain m where "n = Suc m" by (cases n) auto
  then show ?case by (simp add: parse_lit_def)
next
  case (3 dtoa k)
  then obtain m where n: "n = Suc m" by (cases n) auto
  obtain c cs where ic: "int_text k = c # cs" using int_text_hd [of k] by (cases "int_text k") auto
  have "c = CHR ''-'' \<or> is_digit c" using int_text_hd [of k] ic by simp
  then have "c \<notin> {CHR ''n'', CHR ''t'', CHR ''f'', CHR 0x22, CHR ''{'', CHR ''[''}"
    by (auto simp: is_digit_def)
  moreover have "parse_number strtod (int_text k @ rest) = Inr (JNumber k, rest)"
    using "3" by (intro parse_number_int_text) simp_all
  ultimately show ?case using n ic by simp
next
  case (4 dtoa d)
  then obtain m where n: "n = Suc m" by (cases n) auto
  have ok: "double_token (dtoa d)" "strtod (dtoa d) = d" using "4.prems"(1) by (simp_all add: double_ok_def)
  obtain c cs where dc: "dtoa d = c # cs" using double_token_start [OF ok(1)] by (cases "dtoa d") auto
  have "c = CHR ''-'' \<or> is_digit c" using double_token_start [OF ok(1)] dc by simp
  then have "c \<notin> {CHR ''n'', CHR ''t'', CHR ''f'', CHR 0x22, CHR ''{'', CHR ''[''}"
    by (auto simp: is_digit_def)
  moreover have "parse_number strtod (dtoa d @ rest) = Inr (JDouble d, rest)"
    using parse_number_double_token [OF ok(1) "4.prems"(2)] ok(2) by simp
  ultimately show ?case using n dc by simp
next
  case (5 dtoa s)
  then obtain m where "n = Suc m" by (cases n) auto
  then show ?case by (simp add: WriteString_def parse_chars_WriteString)
next
  case (6 dtoa js)
  then obtain m where n: "n = Suc m" by (cases n) auto
  show ?case
  proof (cases "js = []")
    case True
    then show ?thesis using n by (simp add: skip_ws_def is_ws_def)
  next
    case False
    have ok: "list_all (text_ok dtoa strtod) js" using "6.prems" by simp
    have sk: "skip_ws (elems_text dtoa js @ CHR '']'' # rest) = elems_text dtoa js @ CHR '']'' # rest"
      using elems_text_start [OF ok False] by (intro skip_ws_nonws) simp_all
    have "parse_elems strtod m (elems_text dtoa js @ CHR '']'' # rest) = Inr (js, rest)"
      using "6.IH" [OF ok False] "6.prems"(3) n by simp
    moreover have "hd (elems_text dtoa js @ CHR '']'' # rest) \<noteq> CHR '']''"
      using elems_text_start [OF ok False] by (auto simp: is_ws_def)
    ultimately show ?thesis using n sk elems_text_start [OF ok False] by (simp add: parse_json_array del: parse_json.simps)
  qed
next
  case (7 dtoa kvs)
  then obtain m where n: "n = Suc m" by (cases n) auto
  show ?case
  proof (cases "kvs = []")
    case True
    then show ?thesis using n by (simp add: skip_ws_def is_ws_def)
  next
    case False
    have ok: "list_all (\<lambda>(k, j). text_ok dtoa strtod j) kvs" using "7.prems" by simp
    have st: "members_text dtoa kvs \<noteq> [] \<and> hd (members_text dtoa kvs) = CHR 0x22"
      by (rule members_text_start [OF False])
    then have sk: "skip_ws (members_text dtoa kvs @ CHR ''}'' # rest) = members_text dtoa kvs @ CHR ''}'' # rest"
      by (intro skip_ws_nonws) (simp_all add: is_ws_def)
    have "parse_members strtod m (members_text dtoa kvs @ CHR ''}'' # rest) = Inr (kvs, rest)"
      using "7.IH" [OF ok False] "7.prems"(3) n by simp
    then show ?thesis using n sk st by (simp add: parse_json_object del: parse_json.simps)
  qed
next
  case (8 dtoa)
  then show ?case by simp
next
  case (9 dtoa k j kvs)
  then obtain m where n: "n = Suc m" by (cases n) auto
  let ?X = "(if kvs = [] then [] else CHR '','' # members_text dtoa kvs) @ CHR ''}'' # rest"
  have okj: "text_ok dtoa strtod j" using "9.prems"(1) by simp
  have vs: "value_text dtoa j \<noteq> [] \<and> \<not> is_ws (hd (value_text dtoa j))" using value_text_start [OF okj] by blast
  have dX: "delim ?X" by (simp add: delim_def)
  have pj: "parse_json strtod m (value_text dtoa j @ ?X) = Inr (j, ?X)"
    using "9.IH"(1) [OF okj dX] "9.prems"(3) n by simp
  have skv: "skip_ws (value_text dtoa j @ ?X) = value_text dtoa j @ ?X"
    using vs by (intro skip_ws_nonws) simp_all
  show ?case
  proof (cases "kvs = []")
    case True
    then show ?thesis using n pj skv by (simp add: WriteString_def parse_chars_WriteString skip_ws_def is_ws_def)
  next
    case False
    have okr: "list_all (\<lambda>(k, j). text_ok dtoa strtod j) kvs" using "9.prems"(1) by simp
    have pm: "parse_members strtod m (members_text dtoa kvs @ CHR ''}'' # rest) = Inr (kvs, rest)"
      using "9.IH"(2) [OF False okr False] "9.prems"(3) n False by simp
    have skm: "skip_ws (members_text dtoa kvs @ CHR ''}'' # rest) = members_text dtoa kvs @ CHR ''}'' # rest"
      using members_text_start [OF False] by (intro skip_ws_nonws) (simp_all add: is_ws_def)
    show ?thesis using n pj skv pm skm False
      by (simp add: WriteString_def parse_chars_WriteString skip_ws_def is_ws_def)
  qed
next
  case (10 dtoa)
  then show ?case by simp
next
  case (11 dtoa j js)
  then obtain m where n: "n = Suc m" by (cases n) auto
  let ?X = "(if js = [] then [] else CHR '','' # elems_text dtoa js) @ CHR '']'' # rest"
  have okj: "text_ok dtoa strtod j" using "11.prems"(1) by simp
  have dX: "delim ?X" by (simp add: delim_def)
  have pj: "parse_json strtod m (value_text dtoa j @ ?X) = Inr (j, ?X)"
    using "11.IH"(1) [OF okj dX] "11.prems"(3) n by simp
  show ?case
  proof (cases "js = []")
    case True
    then show ?thesis using n pj by (simp add: skip_ws_def is_ws_def)
  next
    case False
    have okr: "list_all (text_ok dtoa strtod) js" using "11.prems"(1) by simp
    have pe: "parse_elems strtod m (elems_text dtoa js @ CHR '']'' # rest) = Inr (js, rest)"
      using "11.IH"(2) [OF False okr False] "11.prems"(3) n False by simp
    have ske: "skip_ws (elems_text dtoa js @ CHR '']'' # rest) = elems_text dtoa js @ CHR '']'' # rest"
      using elems_text_start [OF okr False] by (intro skip_ws_nonws) simp_all
    show ?thesis using n pj pe ske False by (simp add: skip_ws_def is_ws_def)
  qed
qed


lemma hexDigits_nul: "k < 16 \<Longrightarrow> hexDigits ! k \<noteq> CHR 0x00"
proof -
  assume "k < 16"
  then have "hexDigits ! k \<in> set hexDigits" by (intro nth_mem) (simp add: hexDigits_def)
  moreover have "CHR 0x00 \<notin> set hexDigits" by (simp add: hexDigits_def)
  ultimately show ?thesis by metis
qed

lemma write_char_nul: "CHR 0x00 \<notin> set (write_char c)"
proof (cases "escape c")
  case None
  then have "c \<noteq> CHR 0x00" by (auto simp: escape_def)
  with None show ?thesis by (simp add: write_char_def)
next
  case (Some e)
  have "e \<noteq> CHR 0x00" using Some by (auto simp: escape_def Let_def split: if_splits)
  moreover have "hexDigits ! (of_char c div 16) \<noteq> CHR 0x00" "hexDigits ! (of_char c mod 16) \<noteq> CHR 0x00"
    using nat_of_char_less_256 [of c] by (simp_all add: hexDigits_nul div_less_iff_less_mult)
  ultimately show ?thesis using Some by (simp add: write_char_def)
qed

lemma WriteString_nul: "CHR 0x00 \<notin> set (WriteString s)"
  by (auto simp: WriteString_def write_char_nul)

lemma int_text_nul: "CHR 0x00 \<notin> set (int_text k)"
proof -
  have "\<And>m. CHR 0x00 \<notin> set (digits_nat m)"
    using digits_nat_digits by (fastforce simp: list_all_iff is_digit_def)
  then show ?thesis by (simp add: int_text_def)
qed

lemma value_text_nul:
  "text_ok dtoa strtod j \<Longrightarrow> CHR 0x00 \<notin> set (value_text dtoa j)"
  "list_all (\<lambda>(k, j). text_ok dtoa strtod j) kvs \<Longrightarrow> CHR 0x00 \<notin> set (members_text dtoa kvs)"
  "list_all (text_ok dtoa strtod) js \<Longrightarrow> CHR 0x00 \<notin> set (elems_text dtoa js)"
  by (induction dtoa j and dtoa kvs and dtoa js rule: value_text_members_text_elems_text.induct)
    (auto simp: WriteString_nul int_text_nul double_ok_def double_token_nul)

lemma list_all2_all:
  "list_all2 P xs ys \<Longrightarrow> (\<forall>x\<in>set xs. Q x) \<Longrightarrow> (\<And>x y. P x y \<Longrightarrow> Q x \<Longrightarrow> R y) \<Longrightarrow> list_all R ys"
  by (induction rule: list_all2_induct) auto

lemma key_events_set: "length ks = length ess \<Longrightarrow> es \<in> set ess \<Longrightarrow> set es \<subseteq> set (key_events ks ess)"
  by (induction ks ess rule: list_induct2) (auto simp: key_events_def)

lemma writes_text_ok:
  "writes es j \<Longrightarrow> (\<forall>d. EDouble d \<in> set es \<longrightarrow> double_ok dtoa strtod d) \<Longrightarrow> text_ok dtoa strtod j"
proof (induction rule: writes.induct)
  case (scalar e j)
  then show ?case
  proof (cases e)
    case (EInt w)
    with scalar show ?thesis using sint_ge [of w] sint_lt [of w] by auto
  next
    case (EInt64 w)
    with scalar show ?thesis using sint_ge [of w] sint_lt [of w] by auto
  next
    case (EUint64 w)
    have j: "j = JNumber (uint w)" using EUint64 scalar by simp
    have "0 \<le> uint w" "uint w < 18446744073709551616" using uint_lt2p [of w] by simp_all
    then show ?thesis unfolding j text_ok.simps by linarith
  qed (auto split: if_splits)
next
  case (array ess js)
  have "list_all (text_ok dtoa strtod) js"
    by (rule list_all2_all [OF array.IH, where Q = "\<lambda>es. \<forall>d. EDouble d \<in> set es \<longrightarrow> double_ok dtoa strtod d"])
      (use array.prems in auto)
  then show ?case by simp
next
  case (object ess kvs)
  have len: "length (map fst kvs) = length ess" using list_all2_lengthD [OF object.IH] by simp
  have nd: "\<forall>x\<in>set ess. \<forall>d. EDouble d \<in> set x \<longrightarrow> double_ok dtoa strtod d"
  proof (intro ballI allI impI)
    fix x d
    assume "x \<in> set ess" "EDouble d \<in> set x"
    then have "EDouble d \<in> set (key_events (map fst kvs) ess)" using key_events_set [OF len] by blast
    then show "double_ok dtoa strtod d" using object.prems by auto
  qed
  have "list_all (text_ok dtoa strtod) (map snd kvs)"
    by (rule list_all2_all [OF object.IH nd]) blast
  then show ?case by (simp add: list_all_iff split_beta)
qed

lemma parse_text_value_text: "text_ok dtoa strtod j \<Longrightarrow> parse_text strtod (value_text dtoa j) = Inr j"
proof -
  assume ok: "text_ok dtoa strtod j"
  have cs: "c_str (value_text dtoa j) = value_text dtoa j" using value_text_nul(1) [OF ok] by simp
  have st: "value_text dtoa j \<noteq> [] \<and> \<not> is_ws (hd (value_text dtoa j))" using value_text_start [OF ok] by blast
  then have sk: "skip_ws (value_text dtoa j) = value_text dtoa j" by (intro skip_ws_nonws) simp_all
  have "parse_json strtod (2 * length (value_text dtoa j) + 2) (value_text dtoa j @ []) = Inr (j, [])"
    using ok by (intro parse_text_value(1)) (simp_all add: delim_def)
  then show ?thesis using cs sk st by (simp add: parse_text_def Let_def skip_ws_def del: parse_json.simps)
qed

end
