(* ===== verification/Main_Tests.thy ===== *)
theory Main_Tests
  imports Roundtrip Text_Roundtrip
begin

text \<open>
  The test driver \<^verbatim>\<open>src/main.cc\<close>. Its three structures are records; the
  declaration \<^verbatim>\<open>REFLECT_STRUCT(T, (f1)(f2)...)\<close> of each is the pair of its declared
  type (\<open>Params_ty\<close>, \<open>Entity_ty\<close>, \<open>Items_ty\<close>: the field names and field types the
  macro receives, \<^verbatim>\<open>uint64_t\<close> being \<^verbatim>\<open>unsigned long\<close> on LP64) and the map from
  the record to the traversed object (\<open>val_of_Params\<close>, ...). Record fields carry the
  structure's name as prefix, since \<^verbatim>\<open>id\<close> is a HOL constant and \<^verbatim>\<open>name\<close> occurs
  in two structures. The documents the tests parse are written out as the nodes
  rapidjson builds from the test's format strings. \<open>test_items\<close> and
  \<open>test_reflect\<close> translate the two test functions, each assertion a conjunct; the
  object decoded into is \<^verbatim>\<open>Items two;\<close> (its members default-constructed, hence
  \<open>default_val\<close>) and \<^verbatim>\<open>Entity two;\<close> (whose \<^verbatim>\<open>id\<close> is left uninitialised,
  hence an arbitrary object of the type).
\<close>

section \<open>The structures of main.cc\<close>

record Params =
  params_hello :: string

text \<open>\<^verbatim>\<open>operator==(const Params&, const Params&)\<close>\<close>

definition Params_eq :: "Params \<Rightarrow> Params \<Rightarrow> bool" where
  "Params_eq l r \<longleftrightarrow> params_hello l = params_hello r"

definition Params_ty :: ty where
  "Params_ty = TStruct ''Params'' [(''hello'', TString)]"

definition val_of_Params :: "Params \<Rightarrow> val" where
  "val_of_Params p = VStruct [VString (params_hello p)]"

record Entity =
  entity_id :: "64 word"
  entity_name :: string
  entity_params :: Params

definition Entity_ty :: ty where
  "Entity_ty = TStruct ''Entity'' [(''id'', TULong), (''name'', TString), (''params'', Params_ty)]"

definition val_of_Entity :: "Entity \<Rightarrow> val" where
  "val_of_Entity e =
     VStruct [VULong (entity_id e), VString (entity_name e), val_of_Params (entity_params e)]"

record Items =
  items_name :: string
  items_items :: "Params list"

definition Items_ty :: ty where
  "Items_ty = TStruct ''Items'' [(''name'', TString), (''items'', TVector Params_ty)]"

definition val_of_Items :: "Items \<Rightarrow> val" where
  "val_of_Items i = VStruct [VString (items_name i), VVector (map val_of_Params (items_items i))]"

section \<open>The tests\<close>

text \<open>The format strings of \<^verbatim>\<open>test_items\<close> and \<^verbatim>\<open>test_reflect\<close>.\<close>

definition items_fmt :: string where
  \<open>items_fmt = ''{"name":"ooknn","items":[{"hello":"one"},{"hello":"two"}]}''\<close>

definition entity_fmt :: string where
  \<open>entity_fmt = ''{"id":10,"name":"hello","params":{"hello":"world"}}''\<close>

text \<open>The documents \<^verbatim>\<open>Document::Parse\<close> builds from them (lemmas \<open>parse_items_fmt\<close>, \<open>parse_entity_fmt\<close>).\<close>

definition items_doc :: jnode where
  "items_doc =
     JObject [(''name'', JString ''ooknn''),
              (''items'', JArray [JObject [(''hello'', JString ''one'')],
                                  JObject [(''hello'', JString ''two'')]])]"

definition entity_doc :: jnode where
  "entity_doc =
     JObject [(''id'', JNumber 10), (''name'', JString ''hello''),
              (''params'', JObject [(''hello'', JString ''world'')])]"

definition items_one :: Items where
  "items_one = \<lparr>items_name = ''ooknn'',
     items_items = [\<lparr>params_hello = ''one''\<rparr>, \<lparr>params_hello = ''two''\<rparr>]\<rparr>"

definition entity_one :: Entity where
  "entity_one = \<lparr>entity_id = 10, entity_name = ''hello'', entity_params = \<lparr>params_hello = ''world''\<rparr>\<rparr>"

text \<open>
  \<^verbatim>\<open>test_items\<close>: write \<open>one\<close> through a \<^verbatim>\<open>rapidjson::Writer<StringBuffer>\<close> and
  compare \<^verbatim>\<open>std::string(sb.GetString())\<close> with the format (a failed writer assertion
  aborts the test); parse the format (\<^verbatim>\<open>assert(ok)\<close>), decode it into the
  default-constructed \<open>two\<close> and compare both members. An exception escaping the test
  fails it. The digit conversions of doubles, \<open>dtoa\<close> and \<open>strtod\<close>, are parameters.
\<close>

definition test_items :: "(double \<Rightarrow> string) \<Rightarrow> (string \<Rightarrow> double) \<Rightarrow> bool" where
  "test_items dtoa strtod \<longleftrightarrow>
     (case encode Items_ty (val_of_Items items_one) [] of
        Ok (_, es) \<Rightarrow> map_option c_str (render dtoa es) = Some items_fmt
      | Thrown _ _ \<Rightarrow> False) \<and>
     (case parse_text strtod items_fmt of
        Inl _ \<Rightarrow> False
      | Inr doc \<Rightarrow>
          (case decode Items_ty (default_val Items_ty) \<lparr>m = doc, path = []\<rparr> of
             Ok (two, _) \<Rightarrow>
               struct_fields two ! 0 = VString (items_name items_one) \<and>
               struct_fields two ! 1 = VVector (map val_of_Params (items_items items_one))
           | Thrown _ _ \<Rightarrow> False))"

text \<open>
  \<^verbatim>\<open>test_reflect\<close>: parse the format, decode it into \<open>two\<close> (starting from whatever
  object \<open>two0\<close> the uninitialised declaration holds) and compare the three members;
  then write \<open>one\<close> and compare the text with the format.
\<close>

definition test_reflect :: "(double \<Rightarrow> string) \<Rightarrow> (string \<Rightarrow> double) \<Rightarrow> val \<Rightarrow> bool" where
  "test_reflect dtoa strtod two0 \<longleftrightarrow>
     (case parse_text strtod entity_fmt of
        Inl _ \<Rightarrow> False
      | Inr doc \<Rightarrow>
          (case decode Entity_ty two0 \<lparr>m = doc, path = []\<rparr> of
             Ok (two, _) \<Rightarrow>
               struct_fields two ! 0 = VULong (entity_id entity_one) \<and>
               struct_fields two ! 1 = VString (entity_name entity_one) \<and>
               struct_fields two ! 2 = val_of_Params (entity_params entity_one)
           | Thrown _ _ \<Rightarrow> False)) \<and>
     (case encode Entity_ty (val_of_Entity entity_one) [] of
        Ok (_, es) \<Rightarrow> map_option c_str (render dtoa es) = Some entity_fmt
      | Thrown _ _ \<Rightarrow> False)"

text \<open>
  \<^verbatim>\<open>main\<close>: run \<^verbatim>\<open>test_reflect\<close>, then \<^verbatim>\<open>test_items\<close>, then return 0. A failed
  \<^verbatim>\<open>assert\<close> aborts the process, which is \<open>None\<close>; \<open>two0\<close> is what the
  uninitialised \<^verbatim>\<open>Entity two\<close> of \<^verbatim>\<open>test_reflect\<close> holds.
\<close>

definition main_cc :: "(double \<Rightarrow> string) \<Rightarrow> (string \<Rightarrow> double) \<Rightarrow> val \<Rightarrow> int option" where
  "main_cc dtoa strtod two0 =
     (if \<not> test_reflect dtoa strtod two0 then None
      else if \<not> test_items dtoa strtod then None
      else Some 0)"

text \<open>The spec's scenarios: a non-numeric \<^verbatim>\<open>id\<close>, and a missing \<^verbatim>\<open>name\<close>.\<close>

definition bad_id_doc :: jnode where
  "bad_id_doc =
     JObject [(''id'', JString ''not a number''), (''name'', JString ''hello''),
              (''params'', JObject [(''hello'', JString ''world'')])]"

definition no_name_doc :: jnode where
  "no_name_doc = JObject [(''id'', JNumber 10), (''params'', JObject [(''hello'', JString ''world'')])]"

lemmas main_defs [codec_defs] = Params_ty_def Entity_ty_def Items_ty_def val_of_Params_def
  val_of_Entity_def val_of_Items_def items_doc_def entity_doc_def items_one_def entity_one_def
  bad_id_doc_def no_name_doc_def

section \<open>The tests pass\<close>

lemma items_fmt_text: "items_fmt = value_text dtoa items_doc"
  by (simp add: items_fmt_def items_doc_def WriteString_def write_char_def escape_def)

lemma entity_fmt_text: "entity_fmt = value_text dtoa entity_doc"
  by (simp add: entity_fmt_def entity_doc_def WriteString_def write_char_def escape_def int_text_def
      digits_nat.simps; simp add: char_code_eq of_char_of)

lemma parse_items_fmt: "parse_text strtod items_fmt = Inr items_doc"
  unfolding items_fmt_text [of "\<lambda>_. []"] by (rule parse_text_value_text) (simp add: items_doc_def)

lemma parse_entity_fmt: "parse_text strtod entity_fmt = Inr entity_doc"
  unfolding entity_fmt_text [of "\<lambda>_. []"] by (rule parse_text_value_text) (simp add: entity_doc_def)

lemma write_items: "encode Items_ty (val_of_Items items_one) [] = Ok (val_of_Items items_one, emit Items_ty (val_of_Items items_one)) \<and>
    render dtoa (emit Items_ty (val_of_Items items_one)) = Some items_fmt"
proof -
  have ty: "has_ty (val_of_Items items_one) Items_ty" by (simp add: codec_defs)
  have "writes (emit Items_ty (val_of_Items items_one)) (to_json Items_ty (val_of_Items items_one))"
    by (rule emit_writes [OF ty]) (simp add: codec_defs)
  moreover have "to_json Items_ty (val_of_Items items_one) = items_doc" by (simp add: codec_defs)
  ultimately show ?thesis using Writer.encode_emit_members(1) [OF ty, of "[]"] render_writes
    by (simp add: items_fmt_text [of dtoa])
qed

lemma write_entity: "encode Entity_ty (val_of_Entity entity_one) [] = Ok (val_of_Entity entity_one, emit Entity_ty (val_of_Entity entity_one)) \<and>
    render dtoa (emit Entity_ty (val_of_Entity entity_one)) = Some entity_fmt"
proof -
  have ty: "has_ty (val_of_Entity entity_one) Entity_ty" by (simp add: codec_defs)
  have "writes (emit Entity_ty (val_of_Entity entity_one)) (to_json Entity_ty (val_of_Entity entity_one))"
    by (rule emit_writes [OF ty]) (simp add: codec_defs)
  moreover have "to_json Entity_ty (val_of_Entity entity_one) = entity_doc" by (simp add: codec_defs)
  ultimately show ?thesis using Writer.encode_emit_members(1) [OF ty, of "[]"] render_writes
    by (simp add: entity_fmt_text [of dtoa])
qed

lemma fmt_nul_free: "c_str items_fmt = items_fmt" "c_str entity_fmt = entity_fmt"
  by (simp_all add: items_fmt_def entity_fmt_def)

lemma has_ty_Entity:
  "has_ty v Entity_ty \<longleftrightarrow> (\<exists>a b c. v = VStruct [VULong a, VString b, VStruct [VString c]])"
proof
  assume "has_ty v Entity_ty"
  then show "\<exists>a b c. v = VStruct [VULong a, VString b, VStruct [VString c]]"
    by (cases v)
      (auto simp: Entity_ty_def Params_ty_def fields_have_ty_iff list_all2_Cons2 elim!: has_ty.elims)
qed (auto simp: Entity_ty_def Params_ty_def)

text \<open>
  C14. The test program exits with status 0: both tests pass, in the order
  \<^verbatim>\<open>main\<close> runs them, whatever the uninitialised \<^verbatim>\<open>Entity two\<close> held.
  In \<^verbatim>\<open>test_items\<close> writing \<open>one\<close> produces the format's text and decoding the
  format into a default-constructed \<^verbatim>\<open>Items\<close> yields the name and both elements
  in order; in \<^verbatim>\<open>test_reflect\<close> every member of the format is present, so each
  field of \<^verbatim>\<open>two\<close> is overwritten.
\<close>

theorem main_returns_0: "has_ty two0 Entity_ty \<Longrightarrow> main_cc dtoa strtod two0 = Some 0"
  using write_entity [of dtoa] write_items [of dtoa] unfolding has_ty_Entity
  by (auto simp: main_cc_def test_reflect_def test_items_def parse_entity_fmt parse_items_fmt fmt_nul_free)
    (auto simp: codec_defs)

theorem main_returns_0_witness:
  "has_ty (VStruct [VULong 7, VString [], VStruct [VString ''x'']]) Entity_ty \<and>
   main_cc (\<lambda>_. ''0.0'') (\<lambda>_. 0) (VStruct [VULong 7, VString [], VStruct [VString ''x'']]) = Some 0"
  using main_returns_0 [of "VStruct [VULong 7, VString [], VStruct [VString ''x'']]" "\<lambda>_. ''0.0''" "\<lambda>_. 0"]
  by (simp add: has_ty_Entity)

text \<open>
  C15. Decoding \<^verbatim>\<open>{"id":"not a number",...}\<close> into an \<^verbatim>\<open>Entity\<close> throws at the
  first member: the exception names the C++ type \<^verbatim>\<open>unsigned long\<close> (not
  \<^verbatim>\<open>int\<close>) and carries no path; the object is untouched, and the reader is left
  at the failing node with \<^verbatim>\<open>id\<close> still pushed on its path.
\<close>

theorem decode_entity_bad_id:
  "has_ty two0 Entity_ty \<Longrightarrow>
   decode Entity_ty two0 \<lparr>m = bad_id_doc, path = []\<rparr> =
     Thrown (InvalidArgument ''unsigned long'') (two0, \<lparr>m = JString ''not a number'', path = [''id'']\<rparr>)"
  unfolding has_ty_Entity by (auto simp: codec_defs)

theorem decode_entity_bad_id_witness:
  "has_ty (default_val Entity_ty) Entity_ty \<and>
   decode Entity_ty (default_val Entity_ty) \<lparr>m = bad_id_doc, path = []\<rparr> =
     Thrown (InvalidArgument ''unsigned long'')
       (default_val Entity_ty, \<lparr>m = JString ''not a number'', path = [''id'']\<rparr>)"
  using decode_entity_bad_id [of "default_val Entity_ty"] by simp

text \<open>
  C16. A member missing from the document is not an error: decoding an object without
  \<^verbatim>\<open>name\<close> succeeds, fills the members that are present, and leaves \<^verbatim>\<open>name\<close>
  holding whatever the object held before.
\<close>

theorem decode_entity_missing_name:
  "has_ty two0 Entity_ty \<Longrightarrow>
   decode Entity_ty two0 \<lparr>m = no_name_doc, path = []\<rparr> =
     Ok (VStruct [VULong 10, struct_fields two0 ! 1, VStruct [VString ''world'']],
         \<lparr>m = no_name_doc, path = []\<rparr>)"
  unfolding has_ty_Entity by (auto simp: codec_defs)

theorem decode_entity_missing_name_witness:
  "has_ty (default_val Entity_ty) Entity_ty \<and>
   decode Entity_ty (default_val Entity_ty) \<lparr>m = no_name_doc, path = []\<rparr> =
     Ok (VStruct [VULong 10, VString [], VStruct [VString ''world'']], \<lparr>m = no_name_doc, path = []\<rparr>)"
  using decode_entity_missing_name [of "default_val Entity_ty"] by (simp add: codec_defs)

end
