(* ===== verification/Encode_Text.thy ===== *)
theory Encode_Text
  imports Writer Text_Roundtrip
begin

text \<open>
  The library's writer driving the text writer: \<open>encode\<close> (\<^verbatim>\<open>JsonWriter\<close>) produces
  the handler calls \<open>emit t v\<close>, and \<open>render\<close> feeds them to
  \<^verbatim>\<open>Writer<StringBuffer>\<close>. The writer asserts on misplaced calls (a non-string at a
  key position, an unbalanced \<^verbatim>\<open>EndObject\<close>, a second root); this theory shows
  that no call the library makes trips them, for every well-typed value, including
  values with NaN or infinite doubles, whose text is then no longer JSON.
  \<open>events_ok\<close> says that a sequence of calls, made where \<^verbatim>\<open>Prefix\<close> accepts any
  value (an array element, a member's value, the root), completes and only appends
  text. For finite doubles the text is the compact JSON text \<open>value_text\<close> of the
  value's document \<open>to_json t v\<close>.
\<close>

definition events_ok :: "(double \<Rightarrow> string) \<Rightarrow> event list \<Rightarrow> bool" where
  "events_ok dtoa es \<longleftrightarrow>
     (\<forall>w w1. (\<forall>b. Prefix b w = Some w1) \<longrightarrow> (\<exists>txt. put_events dtoa es w = Some (put_str txt w1)))"

lemma events_ok_elems:
  "\<forall>es\<in>set ess. events_ok dtoa es \<Longrightarrow> level_stack w = (k, True) # ls \<Longrightarrow>
   \<exists>txt. put_events dtoa (concat ess) w = Some (put_str txt (w\<lparr>level_stack := (k + length ess, True) # ls\<rparr>))"
proof (induction ess arbitrary: k w)
  case Nil
  then show ?case by (intro exI [of _ "[]"]) (cases w, simp add: put_str_def)
next
  case (Cons es ess)
  let ?w1 = "put_str (if 0 < k then [CHR '',''] else []) (w\<lparr>level_stack := (Suc k, True) # ls\<rparr>)"
  have "\<exists>txt1. put_events dtoa es w = Some (put_str txt1 ?w1)"
    using Cons.prems(1) Prefix_array [OF Cons.prems(2)] unfolding events_ok_def by (metis list.set_intros(1))
  then obtain txt1 where 1: "put_events dtoa es w = Some (put_str txt1 ?w1)" ..
  obtain txt2 where 2: "put_events dtoa (concat ess) (put_str txt1 ?w1) =
      Some (put_str txt2 ((put_str txt1 ?w1)\<lparr>level_stack := (Suc k + length ess, True) # ls\<rparr>))"
    using Cons.IH [of "put_str txt1 ?w1" "Suc k"] Cons.prems(1) by auto
  show ?case using 1 2 by (auto simp: put_events_append)
qed

lemma events_ok_members:
  "length ks = length ess \<Longrightarrow> \<forall>es\<in>set ess. events_ok dtoa es \<Longrightarrow> level_stack w = (k, False) # ls \<Longrightarrow> even k \<Longrightarrow>
   \<exists>txt. put_events dtoa (key_events ks ess) w = Some (put_str txt (w\<lparr>level_stack := (k + 2 * length ess, False) # ls\<rparr>))"
proof (induction ks arbitrary: ess k w)
  case Nil
  then show ?case by (intro exI [of _ "[]"]) (cases w, simp add: put_str_def key_events_def)
next
  case (Cons key ks)
  obtain es ess' where ess: "ess = es # ess'" using Cons.prems(1) by (cases ess) auto
  let ?wk = "put_str ((if 0 < k then [CHR '',''] else []) @ WriteString key) (w\<lparr>level_stack := (Suc k, False) # ls\<rparr>)"
  let ?w1 = "put_str [CHR '':''] (?wk\<lparr>level_stack := (Suc (Suc k), False) # ls\<rparr>)"
  have key: "put_event dtoa (EKey key) w = Some ?wk"
    using Prefix_key [OF Cons.prems(3,4)] by (simp add: scalar_out_def)
  have "\<forall>b. Prefix b ?wk = Some ?w1"
    using Prefix_member_value [of ?wk "Suc k" ls] Cons.prems(4) by simp
  then have "\<exists>txt1. put_events dtoa es ?wk = Some (put_str txt1 ?w1)"
    using Cons.prems(2) ess unfolding events_ok_def by (metis list.set_intros(1))
  then obtain txt1 where 1: "put_events dtoa es ?wk = Some (put_str txt1 ?w1)" ..
  obtain txt2 where 2: "put_events dtoa (key_events ks ess') (put_str txt1 ?w1) =
      Some (put_str txt2 ((put_str txt1 ?w1)\<lparr>level_stack := (Suc (Suc k) + 2 * length ess', False) # ls\<rparr>))"
    using Cons.IH [of ess' "put_str txt1 ?w1" "Suc (Suc k)"] Cons.prems ess by auto
  show ?case using key 1 2 ess by (auto simp: key_events_def put_events_append)
qed

lemma events_ok_scalar:
  "e \<notin> {EStartObject, EEndObject, EStartArray, EEndArray} \<Longrightarrow> events_ok dtoa [e]"
  by (cases e) (auto simp: events_ok_def scalar_out_def)

lemma events_ok_array:
  assumes "\<forall>es\<in>set ess. events_ok dtoa es"
  shows "events_ok dtoa (EStartArray # concat ess @ [EEndArray])"
proof (unfold events_ok_def, intro allI impI)
  fix w w1 :: text_writer
  assume "\<forall>b. Prefix b w = Some w1"
  then have start: "put_event dtoa EStartArray w = Some (put_str [CHR ''[''] (w1\<lparr>level_stack := (0, True) # level_stack w1\<rparr>))"
    by (simp add: start_level_def)
  from events_ok_elems [OF assms, of "put_str [CHR ''[''] (w1\<lparr>level_stack := (0, True) # level_stack w1\<rparr>)" 0 "level_stack w1"]
  obtain out where "put_events dtoa (concat ess) (put_str [CHR ''[''] (w1\<lparr>level_stack := (0, True) # level_stack w1\<rparr>)) =
      Some (put_str out ((put_str [CHR ''[''] (w1\<lparr>level_stack := (0, True) # level_stack w1\<rparr>))\<lparr>level_stack := (length ess, True) # level_stack w1\<rparr>))"
    by auto
  with start show "\<exists>txt. put_events dtoa (EStartArray # concat ess @ [EEndArray]) w = Some (put_str txt w1)"
    by (auto simp: put_events_append end_level_def put_str_def)
qed

lemma events_ok_object:
  assumes "length ks = length ess" "\<forall>es\<in>set ess. events_ok dtoa es"
  shows "events_ok dtoa (EStartObject # key_events ks ess @ [EEndObject])"
proof (unfold events_ok_def, intro allI impI)
  fix w w1 :: text_writer
  assume "\<forall>b. Prefix b w = Some w1"
  then have start: "put_event dtoa EStartObject w = Some (put_str [CHR ''{''] (w1\<lparr>level_stack := (0, False) # level_stack w1\<rparr>))"
    by (simp add: start_level_def)
  from events_ok_members [OF assms, of "put_str [CHR ''{''] (w1\<lparr>level_stack := (0, False) # level_stack w1\<rparr>)" 0 "level_stack w1"]
  obtain out where "put_events dtoa (key_events ks ess) (put_str [CHR ''{''] (w1\<lparr>level_stack := (0, False) # level_stack w1\<rparr>)) =
      Some (put_str out ((put_str [CHR ''{''] (w1\<lparr>level_stack := (0, False) # level_stack w1\<rparr>))\<lparr>level_stack := (2 * length ess, False) # level_stack w1\<rparr>))"
    by auto
  with start show "\<exists>txt. put_events dtoa (EStartObject # key_events ks ess @ [EEndObject]) w = Some (put_str txt w1)"
    by (auto simp: put_events_append end_level_def put_str_def)
qed

lemma events_ok_emit: "has_ty v t \<Longrightarrow> events_ok dtoa (emit t v)"
proof (induction t arbitrary: v)
  case (TVector t)
  then obtain xs where v: "v = VVector xs" and "list_all (\<lambda>x. has_ty x t) xs"
    by (cases v) (auto simp: all_have_ty_iff)
  with TVector.IH show ?case by (auto simp: list_all_iff intro!: events_ok_array)
next
  case (TStruct n fs)
  then obtain vs where v: "v = VStruct vs" and vs: "list_all2 (\<lambda>v f. has_ty v (snd f)) vs fs"
    by (cases v) (auto simp: fields_have_ty_iff)
  have "\<forall>es\<in>set (map2 (\<lambda>f v. emit (snd f) v) fs vs). events_ok dtoa es"
  proof
    fix es assume "es \<in> set (map2 (\<lambda>f v. emit (snd f) v) fs vs)"
    then obtain i where i: "i < length fs" "i < length vs" and es: "es = emit (snd (fs ! i)) (vs ! i)"
      by (auto simp: set_zip)
    have "fs ! i \<in> set fs" "has_ty (vs ! i) (snd (fs ! i))"
      using i vs by (auto simp: list_all2_conv_all_nth)
    then show "events_ok dtoa es" using TStruct.IH [of "fs ! i" "snd (fs ! i)"] es by (simp add: snds.intros)
  qed
  then show ?case using v by (simp add: emit_members_key_events events_ok_object)
qed (auto simp: string_len_def intro!: events_ok_scalar elim!: has_ty.elims)

lemma complete_rejects: "IsComplete w \<Longrightarrow> put_event dtoa e w = None"
  by (cases e) (auto simp: IsComplete_def Prefix_def scalar_out_def start_level_def end_level_def)

lemma emit_nonempty: "has_ty v t \<Longrightarrow> emit t v \<noteq> []"
  by (cases t) (auto simp: string_len_def elim!: has_ty.elims)

lemma put_events_emit_init:
  "has_ty v t \<Longrightarrow> \<exists>out. put_events dtoa (emit t v) writer_init = Some (put_str out (writer_init\<lparr>hasRoot := True\<rparr>))"
proof -
  assume v: "has_ty v t"
  have "\<forall>b. Prefix b writer_init = Some (writer_init\<lparr>hasRoot := True\<rparr>)"
    by (simp add: Prefix_def writer_init_def)
  with events_ok_emit [OF v, of dtoa] show ?thesis unfolding events_ok_def by blast
qed

text \<open>
  C4. The writer's assertions never fail on the library's output: for every value of
  its type, \<open>encode\<close> returns normally and the text writer accepts every call it
  makes, also when a \<^verbatim>\<open>double\<close> is NaN or infinite.
\<close>

theorem encode_render_safe:
  "has_ty v t \<Longrightarrow> \<exists>es txt. encode t v [] = Ok (v, es) \<and> render dtoa es = Some txt"
proof -
  assume v: "has_ty v t"
  from put_events_emit_init [OF v, of dtoa] show ?thesis using Writer.encode_emit_members(1) [OF v, of "[]"] by (auto simp: render_def)
qed

theorem encode_render_safe_witness:
  "has_ty (VStruct [VDouble nan_double, VVector [VInt 1]]) (TStruct ''S'' [(''d'', TDouble), (''xs'', TVector TInt)]) \<and>
   (\<exists>es txt. encode (TStruct ''S'' [(''d'', TDouble), (''xs'', TVector TInt)]) (VStruct [VDouble nan_double, VVector [VInt 1]]) [] =
      Ok (VStruct [VDouble nan_double, VVector [VInt 1]], es) \<and> render (\<lambda>_. ''0.0'') es = Some txt)"
proof -
  have h: "has_ty (VStruct [VDouble nan_double, VVector [VInt 1]]) (TStruct ''S'' [(''d'', TDouble), (''xs'', TVector TInt)])"
    by simp
  show ?thesis using h encode_render_safe [OF h, of "\<lambda>_. ''0.0''"] by blast
qed

text \<open>
  C5. The library's writing always completes the document: for every well-typed value,
  NaN included, once the calls \<open>encode\<close> makes have been made, every object and
  array opened has been closed and the root written, so \<^verbatim>\<open>Writer::IsComplete()\<close>
  holds and the buffer can be used as a whole document.
\<close>

theorem encode_complete:
  "has_ty v t \<Longrightarrow> \<exists>es w. encode t v [] = Ok (v, es) \<and> put_events dtoa es writer_init = Some w \<and> IsComplete w"
proof -
  assume v: "has_ty v t"
  from put_events_emit_init [OF v, of dtoa] show ?thesis using Writer.encode_emit_members(1) [OF v, of "[]"]
    by (auto simp: IsComplete_def writer_init_def)
qed

theorem encode_complete_witness:
  "has_ty (VVector [VVector [VDouble nan_double], VVector []]) (TVector (TVector TDouble)) \<and>
   (\<exists>es w. encode (TVector (TVector TDouble)) (VVector [VVector [VDouble nan_double], VVector []]) [] =
      Ok (VVector [VVector [VDouble nan_double], VVector []], es) \<and>
    put_events (\<lambda>_. ''0.0'') es writer_init = Some w \<and> IsComplete w)"
proof -
  have h: "has_ty (VVector [VVector [VDouble nan_double], VVector []]) (TVector (TVector TDouble))" by simp
  show ?thesis using h encode_complete [OF h, of "\<lambda>_. ''0.0''"] by blast
qed

text \<open>
  C3. The text the library writes is the compact JSON of the value's document: for a
  well-typed value whose doubles are finite, the \<^verbatim>\<open>StringBuffer\<close> holds, after
  \<open>encode\<close>, exactly \<open>value_text\<close> of \<open>to_json t v\<close>: no whitespace, members
  in declared order as \<open>"name":value\<close>, elements in order, separated by commas.
\<close>

theorem encode_text:
  "has_ty v t \<Longrightarrow> finite_doubles v \<Longrightarrow>
   \<exists>es. encode t v [] = Ok (v, es) \<and> render dtoa es = Some (value_text dtoa (to_json t v))"
  using Writer.encode_emit_members(1) [of v t "[]"] render_writes [OF emit_writes] by simp

theorem encode_text_witness:
  "has_ty (VStruct [VDouble 0x3FF8000000000000, VInt 7]) (TStruct ''P'' [(''x'', TDouble), (''n'', TInt)]) \<and>
   finite_doubles (VStruct [VDouble 0x3FF8000000000000, VInt 7]) \<and>
   (\<exists>es. encode (TStruct ''P'' [(''x'', TDouble), (''n'', TInt)]) (VStruct [VDouble 0x3FF8000000000000, VInt 7]) [] =
      Ok (VStruct [VDouble 0x3FF8000000000000, VInt 7], es) \<and>
    render (\<lambda>_. ''1.5'') es = Some (CHR ''{'' # WriteString ''x'' @ '':1.5,'' @ WriteString ''n'' @ '':7}''))"
proof -
  have h: "has_ty (VStruct [VDouble 0x3FF8000000000000, VInt 7]) (TStruct ''P'' [(''x'', TDouble), (''n'', TInt)])"
    "finite_doubles (VStruct [VDouble 0x3FF8000000000000, VInt 7])"
    by (simp_all add: is_finite_double_def)
  have "value_text (\<lambda>_. ''1.5'') (to_json (TStruct ''P'' [(''x'', TDouble), (''n'', TInt)]) (VStruct [VDouble 0x3FF8000000000000, VInt 7])) =
      CHR ''{'' # WriteString ''x'' @ '':1.5,'' @ WriteString ''n'' @ '':7}''"
    by (simp add: int_text_def digits_nat.simps char_code_eq of_char_of)
  then show ?thesis using h encode_text [OF h, of "\<lambda>_. ''1.5''"] by simp
qed

section \<open>A non-finite double in the output\<close>

text \<open>
  The writer only appends to its buffer; a member whose value wrote nothing leaves
  \<open>"name":\<close> followed by the next separator, which the parser rejects.
\<close>

lemma put_event_os: "put_event dtoa e w = Some w' \<Longrightarrow> \<exists>s. os w' = os w @ s"
  by (cases e) (auto simp: scalar_out_def Prefix_def start_level_def end_level_def Let_def
      split: list.splits if_splits prod.splits)

lemma put_events_os: "put_events dtoa es w = Some w' \<Longrightarrow> \<exists>s. os w' = os w @ s"
proof (induction es arbitrary: w)
  case (Cons e es)
  then obtain w1 where 1: "put_event dtoa e w = Some w1" and 2: "put_events dtoa es w1 = Some w'"
    by (auto split: option.splits)
  from put_event_os [OF 1] Cons.IH [OF 2] show ?case by auto
qed simp


lemma parse_json_separator:
  "c = CHR '','' \<or> c = CHR ''}'' \<Longrightarrow> parse_json strtod (Suc n) (c # r) = Inl kParseErrorValueInvalid"
  by (elim disjE) (simp_all add: parse_number_def is_digit_def)

lemma parse_members_missing_value:
  assumes c: "c = CHR '','' \<or> c = CHR ''}''"
  shows "parse_members strtod (Suc (Suc m)) (WriteString k @ CHR '':'' # c # s) = Inl kParseErrorValueInvalid"
proof -
  have pc: "parse_chars (concat (map write_char k) @ CHR 0x22 # CHR '':'' # c # s) = Inr (k, CHR '':'' # c # s)"
    by (rule parse_chars_WriteString)
  have ws: "skip_ws (CHR '':'' # c # s) = CHR '':'' # c # s" "skip_ws (c # s) = c # s"
    using c by (auto simp: skip_ws_def is_ws_def)
  have pj: "parse_json strtod (Suc m) (c # s) = Inl kParseErrorValueInvalid"
    using c by (rule parse_json_separator)
  show ?thesis
    by (simp only: WriteString_def append_Cons append_assoc parse_members.simps list.case)
       (simp add: pc ws pj del: parse_json.simps parse_members.simps)
qed

lemma parse_text_missing_value:
  assumes c: "c = CHR '','' \<or> c = CHR ''}''"
  shows "parse_text strtod (CHR ''{'' # WriteString k @ CHR '':'' # c # s) = Inl kParseErrorValueInvalid"
proof -
  have nul: "CHR 0x00 \<notin> set (CHR ''{'' # WriteString k @ [CHR '':'', c])"
    using c WriteString_nul [of k] by auto
  define r where "r = WriteString k @ CHR '':'' # c # c_str s"
  have cs: "c_str (CHR ''{'' # WriteString k @ CHR '':'' # c # s) = CHR ''{'' # r"
    using c_str_append [OF nul, of s] by (simp add: r_def)
  have r: "skip_ws r = r" "skip_ws (CHR ''{'' # r) = CHR ''{'' # r" "hd r \<noteq> CHR ''}''" "r \<noteq> []"
    by (simp_all add: r_def skip_ws_def WriteString_def is_ws_def)
  have pm: "parse_members strtod (Suc (Suc (Suc (2 * length r)))) r = Inl kParseErrorValueInvalid"
    unfolding r_def using c by (rule parse_members_missing_value)
  have "parse_json strtod (2 * length (CHR ''{'' # r) + 2) (CHR ''{'' # r) = Inl kParseErrorValueInvalid"
    using pm r by (simp add: parse_json_object del: parse_json.simps parse_members.simps)
  then show ?thesis using cs r by (simp add: parse_text_def del: parse_json.simps)
qed

lemma render_nonfinite_first:
  assumes ty: "has_ty (VStruct (VDouble d # vs)) (TStruct n ((k, TDouble) # fs))"
    and nf: "\<not> is_finite_double d"
    and r: "render dtoa (emit (TStruct n ((k, TDouble) # fs)) (VStruct (VDouble d # vs))) = Some out"
  shows "\<exists>c s. (c = CHR '','' \<or> c = CHR ''}'') \<and> out = CHR ''{'' # WriteString k @ CHR '':'' # c # s"
proof -
  define w3 where "w3 = put_str (CHR ''{'' # WriteString k @ '':'')
      \<lparr>os = [], level_stack = [(2, False)], hasRoot = True\<rparr>"
  have 3: "put_events dtoa [EStartObject, EKey k, EDouble d] writer_init = Some w3"
    using nf by (simp add: w3_def writer_init_def start_level_def Prefix_def scalar_out_def put_str_def)
  have len: "length vs = length fs" using ty by (auto dest: fields_have_ty_length)
  have e: "emit (TStruct n ((k, TDouble) # fs)) (VStruct (VDouble d # vs)) =
      [EStartObject, EKey k, EDouble d] @ (emit_members fs vs @ [EEndObject])" by simp
  have all: "put_events dtoa (emit (TStruct n ((k, TDouble) # fs)) (VStruct (VDouble d # vs))) writer_init =
      put_events dtoa (emit_members fs vs @ [EEndObject]) w3"
    by (simp only: e put_events_append 3 option.case)
  have rest: "put_events dtoa (emit_members fs vs @ [EEndObject]) w3 = Some w \<Longrightarrow> os w = out" for w
    using r all by (simp add: render_def)
  show ?thesis
  proof (cases fs)
    case Nil
    with len have "vs = []" by simp
    with Nil rest [of "put_str ''}'' (w3\<lparr>level_stack := []\<rparr>)"]
    have "out = CHR ''{'' # WriteString k @ CHR '':'' # CHR ''}'' # []"
      by (simp add: end_level_def w3_def put_str_def)
    then show ?thesis by blast
  next
    case (Cons f fs')
    obtain k2 t2 where f: "f = (k2, t2)" by fastforce
    obtain v2 vs' where vs: "vs = v2 # vs'" using len Cons by (cases vs) auto
    define w4 where "w4 = put_str (CHR '','' # WriteString k2) (w3\<lparr>level_stack := [(3, False)]\<rparr>)"
    have 4: "put_event dtoa (EKey k2) w3 = Some w4"
      by (simp add: w4_def w3_def scalar_out_def Prefix_def put_str_def)
    obtain wf where wf: "put_events dtoa (emit_members fs vs @ [EEndObject]) w3 = Some wf"
      using r all by (auto simp: render_def)
    then have "put_events dtoa (emit t2 v2 @ emit_members fs' vs' @ [EEndObject]) w4 = Some wf"
      using Cons f vs 4 by simp
    from put_events_os [OF this] obtain s where "os wf = os w4 @ s" by blast
    then show ?thesis using rest [OF wf] by (simp add: w4_def w3_def put_str_def)
  qed
qed

text \<open>
  C19. A non-finite \<^verbatim>\<open>double\<close> as the first member makes the output invalid JSON,
  whatever the other members hold: rapidjson's \<^verbatim>\<open>Double\<close> writes the colon and
  then returns false without digits, \<^verbatim>\<open>reflect(JsonWriter&, double&)\<close> ignores the
  result, and the writer goes on with the comma of the next member or the closing
  brace. The text \<open>{"name":,...}\<close> or \<open>{"name":}\<close> is rejected by
  \<^verbatim>\<open>Document::Parse\<close> with \<^verbatim>\<open>kParseErrorValueInvalid\<close>, although encoding
  returned normally and no assertion failed.
\<close>

theorem encode_nonfinite_invalid_text:
  "has_ty (VStruct (VDouble d # vs)) (TStruct n ((k, TDouble) # fs)) \<Longrightarrow> \<not> is_finite_double d \<Longrightarrow>
   \<exists>es out. encode (TStruct n ((k, TDouble) # fs)) (VStruct (VDouble d # vs)) [] = Ok (VStruct (VDouble d # vs), es) \<and>
     render dtoa es = Some out \<and> parse_text strtod out = Inl kParseErrorValueInvalid"
proof -
  assume ty: "has_ty (VStruct (VDouble d # vs)) (TStruct n ((k, TDouble) # fs))" and nf: "\<not> is_finite_double d"
  let ?t = "TStruct n ((k, TDouble) # fs)" and ?v = "VStruct (VDouble d # vs)"
  have enc: "encode ?t ?v [] = Ok (?v, emit ?t ?v)" using Writer.encode_emit_members(1) [OF ty] by simp
  obtain out where r: "render dtoa (emit ?t ?v) = Some out"
    using put_events_emit_init [OF ty, of dtoa] by (auto simp: render_def)
  from render_nonfinite_first [OF ty nf r] obtain c s where
    "c = CHR '','' \<or> c = CHR ''}''" "out = CHR ''{'' # WriteString k @ CHR '':'' # c # s" by blast
  then have "parse_text strtod out = Inl kParseErrorValueInvalid" by (simp add: parse_text_missing_value)
  with enc r show ?thesis by blast
qed

theorem encode_nonfinite_invalid_text_witness:
  "has_ty (VStruct [VDouble nan_double, VInt 3]) (TStruct ''S'' [(''d'', TDouble), (''n'', TInt)]) \<and>
   \<not> is_finite_double nan_double \<and>
   (\<exists>es out. encode (TStruct ''S'' [(''d'', TDouble), (''n'', TInt)]) (VStruct [VDouble nan_double, VInt 3]) [] =
        Ok (VStruct [VDouble nan_double, VInt 3], es) \<and>
      render (\<lambda>_. ''0.0'') es = Some out \<and> parse_text (\<lambda>_. 0) out = Inl kParseErrorValueInvalid)"
proof -
  have h: "has_ty (VStruct [VDouble nan_double, VInt 3]) (TStruct ''S'' [(''d'', TDouble), (''n'', TInt)])"
    "\<not> is_finite_double nan_double" by (simp_all add: nan_not_finite)
  show ?thesis using h encode_nonfinite_invalid_text [OF h, of "\<lambda>_. ''0.0''" "\<lambda>_. 0"] by blast
qed

text \<open>
  C6. One \<^verbatim>\<open>Writer\<close> takes one value: writing a second value through the same
  \<^verbatim>\<open>JsonWriter\<close> (two \<^verbatim>\<open>reflect\<close> calls on one writer) fails rapidjson's
  assertion that the document has a single root, whatever the two values are.
\<close>

theorem encode_twice_asserts:
  "has_ty v1 t1 \<Longrightarrow> has_ty v2 t2 \<Longrightarrow>
   \<exists>es1 es2. encode t1 v1 [] = Ok (v1, es1) \<and> encode t2 v2 es1 = Ok (v2, es2) \<and> render dtoa es2 = None"
proof -
  assume v1: "has_ty v1 t1" and v2: "has_ty v2 t2"
  obtain out where w: "put_events dtoa (emit t1 v1) writer_init = Some (put_str out (writer_init\<lparr>hasRoot := True\<rparr>))"
    using put_events_emit_init [OF v1, of dtoa] by blast
  have c: "IsComplete (put_str out (writer_init\<lparr>hasRoot := True\<rparr>))" by (simp add: IsComplete_def writer_init_def)
  obtain e rest where er: "emit t2 v2 = e # rest" using emit_nonempty [OF v2] by (cases "emit t2 v2") auto
  have "render dtoa (emit t1 v1 @ emit t2 v2) = None"
    using w er complete_rejects [OF c, of dtoa e] by (simp add: render_def put_events_append)
  then show ?thesis using Writer.encode_emit_members(1) [OF v1, of "[]"] Writer.encode_emit_members(1) [OF v2, of "emit t1 v1"]
    by simp
qed

theorem encode_twice_asserts_witness:
  "has_ty (VInt 1) TInt \<and> has_ty (VBool True) TBool \<and>
   (\<exists>es1 es2. encode TInt (VInt 1) [] = Ok (VInt 1, es1) \<and> encode TBool (VBool True) es1 = Ok (VBool True, es2) \<and>
      render (\<lambda>_. ''0.0'') es2 = None)"
  using encode_twice_asserts [of "VInt 1" TInt "VBool True" TBool "\<lambda>_. ''0.0''"] by simp

end
