(* ===== verification/Decode_Text.thy ===== *)
theory Decode_Text
  imports Reader Text_Roundtrip
begin

text \<open>
  Reading a text as \<^verbatim>\<open>main.cc\<close> does: \<^verbatim>\<open>Document::Parse(fmt)\<close>, \<^verbatim>\<open>assert(ok)\<close>,
  then \<^verbatim>\<open>reflect\<close> with a \<^verbatim>\<open>JsonReader\<close> on the document. A parse error is the
  failed assertion, \<open>Inl\<close> with rapidjson's code. The lemmas here follow an integer
  through the parser's classification of numbers and the reader's kind checks.
\<close>

definition decode_text ::
  "(string \<Rightarrow> double) \<Rightarrow> ty \<Rightarrow> val \<Rightarrow> string \<Rightarrow> parse_error + (val \<times> json_reader) outcome" where
  "decode_text strtod t v txt =
     (case parse_text strtod txt of
        Inl e \<Rightarrow> Inl e
      | Inr doc \<Rightarrow> Inr (decode t v \<lparr>m = doc, path = []\<rparr>))"

section \<open>Decimal integers in the text\<close>

lemma digits_nat_nul: "CHR 0x00 \<notin> set (digits_nat n)"
  using digits_nat_digits [of n] by (fastforce simp: list_all_iff is_digit_def)

lemma parse_json_digit:
  "is_digit c \<Longrightarrow> parse_json strtod (Suc k) (c # r) = parse_number strtod (c # r)"
  by (auto simp: is_digit_def)

lemma parse_number_digits:
  "parse_number strtod (digits_nat n) =
     (if int_too_big (digits_nat n) then Inl kParseErrorNumberTooBig
      else Inr (if n \<le> 18446744073709551615 then JNumber (int n) else JDouble (strtod (digits_nat n)), []))"
proof -
  obtain c cs where dc: "digits_nat n = c # cs" using digits_nat_ne by (cases "digits_nat n") auto
  have "is_digit c" using digits_nat_digits [of n] dc by simp
  then have "c \<noteq> CHR ''-''" by (auto simp: is_digit_def)
  moreover have "lex_int (c # cs) = Some (c # cs, [])" using lex_int_digits [of "[]" n] dc by (simp add: delim_def)
  moreover have "digits_value (c # cs) = n" using digits_value_digits_nat [of n] dc by simp
  ultimately show ?thesis
    using dc lex_frac_delim [of "[]"] lex_exp_delim [of "[]"]
    by (simp add: parse_number_def delim_def del: lex_int.simps)
qed

lemma parse_text_digits:
  "parse_text strtod (digits_nat n) =
     (if int_too_big (digits_nat n) then Inl kParseErrorNumberTooBig
      else Inr (if n \<le> 18446744073709551615 then JNumber (int n) else JDouble (strtod (digits_nat n))))"
proof -
  obtain c cs where dc: "digits_nat n = c # cs" using digits_nat_ne by (cases "digits_nat n") auto
  have dig: "is_digit c" using digits_nat_digits [of n] dc by simp
  then have "\<not> is_ws c" by (auto simp: is_digit_def is_ws_def)
  moreover have "c_str (c # cs) = c # cs"
    using digits_nat_nul [of n] dc by (auto simp: c_str_def takeWhile_eq_all_conv)
  moreover have "parse_json strtod (2 * length (c # cs) + 2) (c # cs) = parse_number strtod (c # cs)"
    using parse_json_digit [OF dig, of strtod "Suc (2 * length cs + 2)" cs] by simp
  ultimately show ?thesis
    using dc parse_number_digits [of strtod n]
    by (simp add: parse_text_def skip_ws_nonws skip_ws_def del: parse_json.simps)
qed

lemma parse_text_int_text:
  "- (2 ^ 63) \<le> i \<Longrightarrow> i < 2 ^ 64 \<Longrightarrow> parse_text strtod (int_text i) = Inr (JNumber i)"
  using parse_text_value_text [of "\<lambda>_. []" strtod "JNumber i"] by simp

text \<open>
  C24. An \<^verbatim>\<open>unsigned long\<close> field read from a decimal text: up to
  \<open>2^64 - 1\<close> the parser stores an integer and the field gets its value;
  from \<open>2^64\<close> on the parser stores a double, and the reader throws
  \<^verbatim>\<open>unsigned long\<close>, leaving the field and the path as they were. This holds for
  every literal of up to 307 digits; longer ones meet rapidjson's overflow check
  (\<open>int_too_big\<close>).
\<close>

theorem decode_text_ulong_range:
  "n < 10 ^ 307 \<Longrightarrow>
   decode_text strtod TULong v (digits_nat n) =
     Inr (if n < 2 ^ 64 then Ok (VULong (of_nat n), \<lparr>m = JNumber (int n), path = []\<rparr>)
          else Thrown (InvalidArgument ''unsigned long'') (v, \<lparr>m = JDouble (strtod (digits_nat n)), path = []\<rparr>))"
  by (simp add: decode_text_def parse_text_digits codec_defs)

theorem decode_text_ulong_range_witness:
  "(18446744073709551616 :: nat) < 10 ^ 307 \<and>
   decode_text (\<lambda>_. 0) TULong (VULong 5) (digits_nat 18446744073709551616) =
     Inr (Thrown (InvalidArgument ''unsigned long'')
       (VULong 5, \<lparr>m = JDouble 0, path = []\<rparr>))"
  using decode_text_ulong_range [of 18446744073709551616 "\<lambda>_. 0" "VULong 5"] by simp

text \<open>
  C28. A \<^verbatim>\<open>double\<close> field read from the text of a non-negative integer without
  fraction or exponent: up to \<open>2^64 - 1\<close> rapidjson stores an integer,
  \<^verbatim>\<open>IsDouble\<close> is false and the reader throws \<^verbatim>\<open>double\<close>; from \<open>2^64\<close>
  on it stores a double, which the field accepts. So \<^verbatim>\<open>{"x": 10}\<close> does not
  decode into a \<^verbatim>\<open>double\<close>, but \<^verbatim>\<open>{"x": 18446744073709551616}\<close> does.
\<close>

theorem decode_text_double_integer:
  "n < 10 ^ 307 \<Longrightarrow>
   decode_text strtod TDouble v (digits_nat n) =
     Inr (if n < 2 ^ 64 then Thrown (InvalidArgument ''double'') (v, \<lparr>m = JNumber (int n), path = []\<rparr>)
          else Ok (VDouble (strtod (digits_nat n)), \<lparr>m = JDouble (strtod (digits_nat n)), path = []\<rparr>))"
  by (simp add: decode_text_def parse_text_digits codec_defs)

theorem decode_text_double_integer_witness:
  "(10 :: nat) < 10 ^ 307 \<and>
   decode_text (\<lambda>_. 0) TDouble (VDouble 7) (digits_nat 10) =
     Inr (Thrown (InvalidArgument ''double'') (VDouble 7, \<lparr>m = JNumber 10, path = []\<rparr>))"
  using decode_text_double_integer [of 10 "\<lambda>_. 0" "VDouble 7"] by simp



text \<open>
  C25. A \<^verbatim>\<open>long\<close> field read from the text of an integer the parser stores as
  an integer: it gets the value up to \<open>2^63 - 1\<close>, and from \<open>2^63\<close> to
  \<open>2^64 - 1\<close>, where rapidjson's number is a \<^verbatim>\<open>uint64_t\<close> but not an
  \<^verbatim>\<open>int64_t\<close>, the reader throws \<^verbatim>\<open>long\<close>.
\<close>

theorem decode_text_long_range:
  "- (2 ^ 63) \<le> i \<Longrightarrow> i < 2 ^ 64 \<Longrightarrow>
   decode_text strtod TLong v (int_text i) =
     Inr (if i < 2 ^ 63 then Ok (VLong (word_of_int i), \<lparr>m = JNumber i, path = []\<rparr>)
          else Thrown (InvalidArgument ''long'') (v, \<lparr>m = JNumber i, path = []\<rparr>))"
proof -
  assume lo: "- (2 ^ 63) \<le> i" and hi: "i < 2 ^ 64"
  then have "parse_text strtod (int_text i) = Inr (JNumber i)" by (rule parse_text_int_text)
  then show ?thesis using lo by (simp add: decode_text_def codec_defs)
qed

theorem decode_text_long_range_witness:
  "- (2 ^ 63) \<le> (9223372036854775808 :: int) \<and> (9223372036854775808 :: int) < 2 ^ 64 \<and>
   decode_text (\<lambda>_. 0) TLong (VLong 5) (int_text 9223372036854775808) =
     Inr (Thrown (InvalidArgument ''long'') (VLong 5, \<lparr>m = JNumber 9223372036854775808, path = []\<rparr>))"
  using decode_text_long_range [of 9223372036854775808 "\<lambda>_. 0" "VLong 5"] by simp

text \<open>
  C26. A \<^verbatim>\<open>short\<close> field read from the text of an integer: numbers in the range of
  \<^verbatim>\<open>int\<close> are accepted and narrowed modulo \<open>2^16\<close>
  (\<^verbatim>\<open>(short)GetInt()\<close>, the truncation the spec calls intentional). Integers
  outside \<^verbatim>\<open>int\<close> are not truncated: the reader throws \<^verbatim>\<open>short\<close>.
\<close>

theorem decode_text_short_range:
  "- (2 ^ 63) \<le> i \<Longrightarrow> i < 2 ^ 64 \<Longrightarrow>
   decode_text strtod TShort v (int_text i) =
     Inr (if - (2 ^ 31) \<le> i \<and> i < 2 ^ 31 then Ok (VShort (word_of_int i), \<lparr>m = JNumber i, path = []\<rparr>)
          else Thrown (InvalidArgument ''short'') (v, \<lparr>m = JNumber i, path = []\<rparr>))"
  by (simp add: decode_text_def parse_text_int_text codec_defs)

theorem decode_text_short_range_witness:
  "- (2 ^ 63) \<le> (70000 :: int) \<and> (70000 :: int) < 2 ^ 64 \<and>
   decode_text (\<lambda>_. 0) TShort (VShort 5) (int_text 70000) =
     Inr (Ok (VShort 4464, \<lparr>m = JNumber 70000, path = []\<rparr>))"
  using decode_text_short_range [of 70000 "\<lambda>_. 0" "VShort 5"] by simp

end
