(* ===== verification/Spec2Isabelle.thy ===== *)
theory Spec2Isabelle
  imports Roundtrip Main_Tests Encode_Text Decode_Text
begin

text \<open>
  \<^bold>\<open>Verification of ooknn/reflect.\<close> The program is one C++ header,
  \<^verbatim>\<open>src/reflect.hpp\<close>, that maps C++ values to and from JSON through rapidjson,
  and its test driver \<^verbatim>\<open>src/main.cc\<close>. A value is visited by
  \<^verbatim>\<open>reflect(Vis&, T&)\<close>, chosen at compile time by the value's declared type:
  one overload per primitive (lines 69-95), a template for \<^verbatim>\<open>std::vector\<close>
  (99-112) and the function \<^verbatim>\<open>REFLECT_STRUCT\<close> generates for each structure
  (159-169), which calls \<^verbatim>\<open>reflectMemberStart\<close>, one \<^verbatim>\<open>reflectMember\<close> per
  declared field in order, then \<^verbatim>\<open>reflectMemberEnd\<close>. Two visitors exist.
  \<^verbatim>\<open>JsonReader\<close> reads a parsed \<^verbatim>\<open>rapidjson::Value\<close> into the object. It
  throws \<^verbatim>\<open>std::invalid_argument\<close> on a kind mismatch and rebinds its node
  pointer \<^verbatim>\<open>m\<close> around every member and array entry (\<^verbatim>\<open>member\<close>,
  \<^verbatim>\<open>iterArray\<close>, 136-157). \<^verbatim>\<open>JsonWriter\<close> drives a
  \<^verbatim>\<open>rapidjson::Writer\<close> with one call per scalar, key and bracket.

  \<^bold>\<open>Theories.\<close>
  \<^item> \<open>Prelude\<close>: exceptions as values (\<open>outcome\<close>: \<open>Ok\<close> for a normal
    return, \<open>Thrown e\<close> for an exception in flight, both carrying the state at
    that point, since the C++ code mutates its arguments by reference), \<open>on_ok\<close>
    (statements after a call run only if it returned), IEEE doubles as 64-bit
    patterns, \<open>c_str\<close> (\<^verbatim>\<open>std::string(const char*)\<close>), and the word lemmas on
    casts and bounds (collection \<open>word_bounds\<close>).
  \<^item> \<open>Value_Model\<close>: declared types \<open>ty\<close> and values \<open>val\<close>, with integers at
    their C width as \<open>w word\<close>. Also typing \<open>has_ty\<close>, well-formed declarations
    \<open>wf_ty\<close>, and value-initialisation \<open>default_val\<close> (\<^verbatim>\<open>T()\<close>,
    \<^verbatim>\<open>emplace_back()\<close>).
  \<^item> \<open>Visitor\<close>: the visitor interface as a record of operations, and \<open>reflect\<close>,
    the compile-time dispatch together with the \<^verbatim>\<open>REFLECT_STRUCT\<close> body.
  \<^item> \<open>Document\<close>: the rapidjson collaborator, modelled from its documented
    behaviour, since it is not under \<^verbatim>\<open>src/\<close>. It covers the node type
    \<open>jnode\<close>, the queries \<^verbatim>\<open>IsInt\<close> ... \<^verbatim>\<open>FindMember\<close>, the handler
    \<open>event\<close>s a writer receives, and \<open>writes\<close>, the inductive relation between a
    sequence of handler calls and the document it stands for (a scalar call, or
    bracketed element or keyed member sequences). \<open>Text_Roundtrip\<close> shows that the
    text writer prints every such sequence as the document's text.
  \<^item> \<open>Reader\<close>: \<^verbatim>\<open>JsonReader\<close> with state \<open>json_reader\<close> (\<open>m\<close>, \<open>path\<close>),
    its methods, overloads and visitor \<open>reader_vis\<close>; \<open>decode\<close> is
    \<open>reflect reader_vis\<close>. Lemmas: the state discipline (\<open>disciplined\<close>:
    restored on return, path extended on throw), the failing member's name left on
    the path by a throw inside a structure, vector append, optional members, and
    each numeric overload's exact range and truncation. Also
    that neither the order of an object's members, nor members appended after
    them that the structure does not declare or that repeat a name, nor the start
    path changes what is decoded, and that a throw inside a structure comes from one
    member and leaves the later fields untouched.
  \<^item> \<open>Writer\<close>: \<^verbatim>\<open>JsonWriter\<close> with the event list written so far as its state,
    and visitor \<open>writer_vis\<close>; \<open>encode\<close> is \<open>reflect writer_vis\<close>. It is shown
    equal to the reference encoder \<open>emit\<close>, whose calls stand for the denoted
    document \<open>to_json\<close> when its doubles are finite (\<open>emit_writes\<close>).
  \<^item> \<open>Roundtrip\<close>: decoding \<open>to_json t v\<close> into \<open>default_val t\<close> gives \<open>v\<close> back.
    Into an object \<open>w\<close> that holds data it gives \<open>refill w v\<close>: scalars
    overwritten, vectors extended (\<open>decode_into_existing\<close>).
  \<^item> \<open>Text_Writer\<close>: \<^verbatim>\<open>rapidjson::Writer<StringBuffer>\<close> (rapidjson 1.1,
    modelled from its source as it is not in the repository). Its state \<open>text_writer\<close>
    is the buffer, the level stack and \<^verbatim>\<open>hasRoot\<close>. \<open>Prefix\<close> writes the
    separators and holds the assertions, whose failure is \<open>None\<close>. Also the integer
    formatters, the \<^verbatim>\<open>WriteString\<close> escape table, one handler per event
    (\<open>put_event\<close>) and \<open>render\<close>, the buffer after a list of calls. The digits
    of a finite double (Grisu2) are a parameter \<open>dtoa\<close>.
  \<^item> \<open>Text_Reader\<close>: \<^verbatim>\<open>Document::Parse\<close> with default flags. The parser
    covers whitespace, literals, strings (escapes, \<^verbatim>\<open>\u\<close> with surrogate pairs),
    numbers (classified as int, int64, uint64 or double by value, with
    \<^verbatim>\<open>strtod\<close> a parameter, and the overflow check of the integer part,
    \<^verbatim>\<open>kParseErrorNumberTooBig\<close>), objects and arrays with rapidjson's error codes, and
    the trailing-content check. The input is read as a C string, as
    \<^verbatim>\<open>Parse(const char*)\<close> does. The recursion runs on fuel
    \<open>2 * length s + 2\<close>. Each call either consumes a character or is a value
    call made right after one, so this fuel is never exhausted
    (\<open>parse_text_fuel\<close>); running out is the extra code \<open>OutOfFuel\<close>.
  \<^item> \<open>Text_Roundtrip\<close>: the writer renders every event list of \<open>writes\<close>
    without an assertion, as the compact text \<open>value_text\<close> (\<open>render_writes\<close>).
    The parser terminates (\<open>parse_text_fuel\<close>) and reads every such text back to
    its document, for documents with integers in the 64-bit ranges and doubles whose
    digits keep the \<open>dtoa\<close>/\<open>strtod\<close> contract \<open>double_ok\<close>
    (\<open>parse_text_value_text\<close>).
  \<^item> \<open>Encode_Text\<close>: the library's writer feeding the text writer. For finite
    doubles the text is exactly \<open>value_text\<close> of the denoted document. No assertion
    fails for any well-typed value, NaN included, and the writer ends complete
    (\<open>IsComplete\<close>: every container closed, the root written), after which a
    second value written through the same writer trips the single-root assertion; a
    NaN member gives text the parser rejects.
  \<^item> \<open>Decode_Text\<close>: reading a text as the tests do (\<open>decode_text\<close>:
    \<^verbatim>\<open>Parse\<close>, \<^verbatim>\<open>assert(ok)\<close>, then \<^verbatim>\<open>reflect\<close>). An integer in the text
    meets the parser's classification (an integer up to \<open>2^64 - 1\<close>, a double
    beyond) and then the reader's kind check, which fixes the range each integer
    field accepts (64-bit fields, and \<^verbatim>\<open>short\<close>, which narrows only within
    \<^verbatim>\<open>int\<close>); a \<^verbatim>\<open>double\<close> field rejects integer literals below \<open>2^64\<close>
    and accepts those above; literals beyond the double range fail the parse.
  \<^item> \<open>Main_Tests\<close>: the structures, both tests of \<^verbatim>\<open>main.cc\<close> and \<^verbatim>\<open>main\<close>
    itself (\<open>main_cc\<close>, the two tests in sequence). Each test compares the
    \<^verbatim>\<open>StringBuffer\<close> text with \<^verbatim>\<open>fmt\<close> character for character and decodes
    \<^verbatim>\<open>Document::Parse(fmt)\<close>, as the source does. Also the spec's scenarios.
  \<^item> This theory: the end-to-end round trip through the text, and its limit for
    text with a zero byte.

  \<^bold>\<open>Correspondence.\<close> Each definition carries the name of the C++ function it
  translates (\<open>iterArray\<close>, \<open>member\<close>, \<open>getString\<close>, \<open>startObject\<close>, ...). An
  overload set is one function with a suffix: \<open>reflect_prim_R\<close>/\<open>_W\<close>,
  \<open>reflect_vector_R\<close>/\<open>_W\<close>, \<open>reflectMember_R\<close>/\<open>_W\<close>. Pointers into the
  document become the nodes themselves, as the document is never modified.

  \<^bold>\<open>Findings.\<close>
  \<^item> On an exception the reader is not restored.
  \<^item> Error messages name the C++ type and carry no path.
  \<^item> Text with a zero byte is truncated on reading.
  \<^item> Non-finite doubles are written as nothing, although encoding never reports a
    failure: a member gives unparsable output such as \<open>{"d":}\<close>, and the only
    element of a vector gives \<open>[]\<close>, which reads back as an empty vector.
  \<^item> Negative numbers are accepted by the narrow unsigned types only.
  \<^item> Integer literals below \<open>2^64\<close> are rejected by \<^verbatim>\<open>double\<close> fields, larger
    ones accepted.
  \<^item> Vectors are appended to, not replaced.
  \<^item> Of two members with one name the first is decoded (left undefined by the spec).
  \<^item> A \<^verbatim>\<open>JsonWriter\<close> (its \<^verbatim>\<open>Writer\<close>) can write only one value; a
    \<^verbatim>\<open>JsonReader\<close> that saw an exception cannot be reused.
  \<^item> The text round trip of a double needs \<open>strtod\<close> to invert \<open>dtoa\<close>, which
    rapidjson promises only with \<^verbatim>\<open>kParseFullPrecisionFlag\<close>.
  \<^item> Integers of \<open>2^64\<close> or more in the text become doubles and are rejected by
    every integer field; a \<^verbatim>\<open>long\<close> field rejects \<open>2^63\<close> to \<open>2^64 - 1\<close>.

  \<^bold>\<open>Not modelled.\<close>
  \<^item> rapidjson's conversion of doubles to and from decimal (Grisu2
    \<^verbatim>\<open>dtoa\<close>, \<^verbatim>\<open>StrtodNormalPrecision\<close>): both are parameters, so the text
    round trip asks of each double of the value their contract (\<open>double_ok\<close>:
    \<open>dtoa\<close> prints a number token with a fraction or exponent, and \<open>strtod\<close>
    reads it back to the same bits). Grisu2 output is such a token; reading it back
    exactly is what rapidjson promises with \<^verbatim>\<open>kParseFullPrecisionFlag\<close>, not with
    the default flags \<^verbatim>\<open>main.cc\<close> parses with. The overflow check of a positive
    exponent (the second place rapidjson raises \<^verbatim>\<open>kParseErrorNumberTooBig\<close>) and
    UTF-8 validation, which is off by default, are also left out. The integer part's
    overflow check is compared on exact integers rather than on rapidjson's rounded
    double accumulator; the claims about integer literals are stated below
    \<open>10^307\<close> or from \<open>2 \<cdot> 10^308\<close>, away from where the two can differ.
  \<^item> \<^verbatim>\<open>FindMember\<close> on a non-object, which is undefined behaviour that the code
    never reaches, because \<^verbatim>\<open>reflectMemberStart\<close> checks the shape first.
  \<^item> \<^verbatim>\<open>getPath\<close>, which is declared but never defined.
  \<^item> Allocation, and the untouched \<^verbatim>\<open>isNull\<close> and \<^verbatim>\<open>string(const char*)\<close>
    beyond their definitions.
\<close>

section \<open>Decoding what was encoded\<close>

text \<open>
  C1. Round trip through the text. For a well-formed declaration and a value of that
  type with no zero byte in its text, whose doubles are finite and printed by
  \<open>dtoa\<close> as a number token that \<open>strtod\<close> reads back to the same double: the
  \<^verbatim>\<open>JsonWriter\<close> run returns normally with the value unchanged;
  \<^verbatim>\<open>rapidjson::Writer\<close> turns its calls into a text without a failed assertion;
  \<^verbatim>\<open>Document::Parse\<close> accepts that text; and the \<^verbatim>\<open>JsonReader\<close> run on the
  parsed document into a value-initialised object returns normally with the original
  value. A value without doubles asks nothing of \<open>dtoa\<close> and \<open>strtod\<close>.
\<close>

theorem text_roundtrip:
  "wf_ty t \<Longrightarrow> has_ty v t \<Longrightarrow> nul_free v \<Longrightarrow>
   all_doubles (\<lambda>d. is_finite_double d \<and> double_ok dtoa strtod d) v \<Longrightarrow>
   \<exists>es txt j. encode t v [] = Ok (v, es) \<and> render dtoa es = Some txt \<and> parse_text strtod txt = Inr j \<and>
     decode t (default_val t) \<lparr>m = j, path = []\<rparr> = Ok (v, \<lparr>m = j, path = []\<rparr>)"
proof -
  assume wf: "wf_ty t" and ty: "has_ty v t" and nul: "nul_free v"
    and dd: "all_doubles (\<lambda>d. is_finite_double d \<and> double_ok dtoa strtod d) v"
  have enc: "encode t v [] = Ok (v, emit t v)" using Writer.encode_emit_members(1) [OF ty] by simp
  have wr: "writes (emit t v) (to_json t v)" by (rule emit_writes [OF ty all_doubles_finite [OF dd]]) simp
  have ok: "text_ok dtoa strtod (to_json t v)" using writes_text_ok [OF wr] emit_all_doubles(1) [OF dd] by blast
  have "render dtoa (emit t v) = Some (value_text dtoa (to_json t v))" by (rule render_writes [OF wr])
  moreover have "parse_text strtod (value_text dtoa (to_json t v)) = Inr (to_json t v)"
    by (rule parse_text_value_text [OF ok])
  moreover have "decode t (default_val t) \<lparr>m = to_json t v, path = []\<rparr> =
      Ok (v, \<lparr>m = to_json t v, path = []\<rparr>)"
    using decode_to_json [OF wf ty nul, of "\<lparr>m = to_json t v, path = []\<rparr>"] by simp
  ultimately show ?thesis using enc by blast
qed

theorem text_roundtrip_witness:
  "wf_ty (TStruct ''P'' [(''x'', TDouble), (''s'', TString)]) \<and>
   has_ty (VStruct [VDouble 0x3FF8000000000000, VString ''a'']) (TStruct ''P'' [(''x'', TDouble), (''s'', TString)]) \<and>
   nul_free (VStruct [VDouble 0x3FF8000000000000, VString ''a'']) \<and>
   all_doubles (\<lambda>d. is_finite_double d \<and> double_ok (\<lambda>_. ''1.5'') (\<lambda>_. 0x3FF8000000000000) d)
     (VStruct [VDouble 0x3FF8000000000000, VString ''a'']) \<and>
   (\<exists>es txt j. encode (TStruct ''P'' [(''x'', TDouble), (''s'', TString)]) (VStruct [VDouble 0x3FF8000000000000, VString ''a'']) [] =
        Ok (VStruct [VDouble 0x3FF8000000000000, VString ''a''], es) \<and>
      render (\<lambda>_. ''1.5'') es = Some txt \<and> parse_text (\<lambda>_. 0x3FF8000000000000) txt = Inr j \<and>
      decode (TStruct ''P'' [(''x'', TDouble), (''s'', TString)]) (default_val (TStruct ''P'' [(''x'', TDouble), (''s'', TString)]))
        \<lparr>m = j, path = []\<rparr> = Ok (VStruct [VDouble 0x3FF8000000000000, VString ''a''], \<lparr>m = j, path = []\<rparr>))"
proof -
  have h: "wf_ty (TStruct ''P'' [(''x'', TDouble), (''s'', TString)])"
    "has_ty (VStruct [VDouble 0x3FF8000000000000, VString ''a'']) (TStruct ''P'' [(''x'', TDouble), (''s'', TString)])"
    "nul_free (VStruct [VDouble 0x3FF8000000000000, VString ''a''])"
    "all_doubles (\<lambda>d. is_finite_double d \<and> double_ok (\<lambda>_. ''1.5'') (\<lambda>_. 0x3FF8000000000000) d)
       (VStruct [VDouble 0x3FF8000000000000, VString ''a''])"
    by (simp_all add: is_finite_double_def double_ok_def double_token_def is_digit_def lex_frac_def lex_exp_def int_too_big_small digits_value_def digit_val_def)
  show ?thesis using h text_roundtrip [OF h] by blast
qed

text \<open>
  C20. Text with a zero byte does not survive the round trip. For every string holding
  a zero byte: the writer passes the length (\<^verbatim>\<open>string(s, len)\<close>), rapidjson
  writes the text with the byte escaped and parses it back to a node holding the whole
  string, but the reader's \<^verbatim>\<open>getString\<close> rebuilds the text from the C pointer and
  yields only the part before the first zero byte, which differs from the original.
\<close>

theorem string_nul_roundtrip_fails:
  "CHR 0x00 \<in> set s \<Longrightarrow>
   \<exists>out. encode TString (VString s) [] = Ok (VString s, [EString s]) \<and>
     render dtoa [EString s] = Some out \<and> parse_text strtod out = Inr (JString s) \<and>
     decode TString w \<lparr>m = JString s, path = []\<rparr> =
       Ok (VString (takeWhile (\<lambda>c. c \<noteq> CHR 0x00) s), \<lparr>m = JString s, path = []\<rparr>) \<and>
     takeWhile (\<lambda>c. c \<noteq> CHR 0x00) s \<noteq> s"
proof -
  assume nul: "CHR 0x00 \<in> set s"
  have "writes [EString s] (JString s)" by (rule writes.scalar) simp
  then have "render dtoa [EString s] = Some (value_text dtoa (JString s))" by (rule render_writes)
  moreover have "parse_text strtod (value_text dtoa (JString s)) = Inr (JString s)"
    by (rule parse_text_value_text) simp
  moreover have "takeWhile (\<lambda>c. c \<noteq> CHR 0x00) s \<noteq> s"
    using nul by (auto simp: takeWhile_eq_all_conv)
  ultimately show ?thesis by (simp add: codec_defs getString_def c_str_def)
qed

theorem string_nul_roundtrip_fails_witness:
  "CHR 0x00 \<in> set (''a'' @ CHR 0x00 # ''b'') \<and>
   (\<exists>out. encode TString (VString (''a'' @ CHR 0x00 # ''b'')) [] =
        Ok (VString (''a'' @ CHR 0x00 # ''b''), [EString (''a'' @ CHR 0x00 # ''b'')]) \<and>
      render (\<lambda>_. ''0.0'') [EString (''a'' @ CHR 0x00 # ''b'')] = Some out \<and>
      parse_text (\<lambda>_. 0) out = Inr (JString (''a'' @ CHR 0x00 # ''b'')) \<and>
      decode TString (VString ''x'') \<lparr>m = JString (''a'' @ CHR 0x00 # ''b''), path = []\<rparr> =
        Ok (VString (takeWhile (\<lambda>c. c \<noteq> CHR 0x00) (''a'' @ CHR 0x00 # ''b'')),
            \<lparr>m = JString (''a'' @ CHR 0x00 # ''b''), path = []\<rparr>) \<and>
      takeWhile (\<lambda>c. c \<noteq> CHR 0x00) (''a'' @ CHR 0x00 # ''b'') \<noteq> ''a'' @ CHR 0x00 # ''b'')"
  using string_nul_roundtrip_fails [of "''a'' @ CHR 0x00 # ''b''" "\<lambda>_. ''0.0''" "\<lambda>_. 0" "VString ''x''"]
  by simp

end
